(* ===== verification/Prelude.thy ===== *)
theory Prelude
  imports
    Main
    "HOL-Library.Char_ord"
    "HOL-Library.List_Lexorder"
    "HOL-Library.Product_Lexorder"
    "HOL-Library.Multiset"
begin

text \<open>
  Shared by every theory of the development: the collections of rewrite rules, the part of
  Go's standard library that the backend calls (\<open>sort.Search\<close>, slice insertion and removal,
  a stable rendering of iteration over a Go map), and the generic facts about lists and maps
  the components have in common.

  Go strings and JavaScript strings are both \<open>string\<close>, a list of \<open>char\<close>; a character beyond
  ASCII is its UTF-8 bytes. The lexicographic order of \<open>List_Lexorder\<close> over \<open>Char_ord\<close> is Go's
  byte-wise comparison of strings.
\<close>

named_theorems backend_defs "definitions of the backend operations"
named_theorems frame_simps "fields an operation leaves alone"

section \<open>Slices\<close>

text \<open>\<open>append(xs, nil); copy(xs[pos+1:], xs[pos:]); xs[pos] = x\<close>.\<close>

definition slice_insert :: "nat \<Rightarrow> 'a \<Rightarrow> 'a list \<Rightarrow> 'a list" where
  "slice_insert pos x xs = take pos xs @ x # drop pos xs"

text \<open>\<open>append(xs[:i], xs[i+1:]...)\<close> for the first index \<open>i\<close> whose element satisfies \<open>p\<close>.\<close>

fun remove_first :: "('a \<Rightarrow> bool) \<Rightarrow> 'a list \<Rightarrow> 'a list" where
  "remove_first p [] = []"
| "remove_first p (x # xs) = (if p x then xs else x # remove_first p xs)"

text \<open>\<open>xs[offset:end]\<close> for indices in range.\<close>

definition go_slice :: "nat \<Rightarrow> nat \<Rightarrow> 'a list \<Rightarrow> 'a list" where
  "go_slice lo hi xs = take (hi - lo) (drop lo xs)"

lemma set_slice_insert [simp]: "set (slice_insert pos x xs) = insert x (set xs)"
proof -
  have "set xs = set (take pos xs) \<union> set (drop pos xs)"
    by (metis append_take_drop_id set_append)
  then show ?thesis by (auto simp: slice_insert_def)
qed

lemma mset_slice_insert [simp]: "mset (slice_insert pos x xs) = add_mset x (mset xs)"
proof -
  have "mset xs = mset (take pos xs) + mset (drop pos xs)"
    by (metis append_take_drop_id mset_append)
  then show ?thesis by (simp add: slice_insert_def)
qed

lemma map_slice_insert: "map f (slice_insert pos x xs) = slice_insert pos (f x) (map f xs)"
  by (simp add: slice_insert_def take_map drop_map)

lemma distinct_slice_insert [simp]:
  "distinct (slice_insert pos x xs) \<longleftrightarrow> x \<notin> set xs \<and> distinct xs"
proof -
  have "mset (slice_insert pos x xs) = mset (x # xs)" by simp
  then have "distinct (slice_insert pos x xs) \<longleftrightarrow> distinct (x # xs)"
    by (rule mset_eq_imp_distinct_iff)
  then show ?thesis by simp
qed

lemma set_remove_first_subset: "set (remove_first p xs) \<subseteq> set xs"
  by (induction xs) auto

lemma mset_remove_first_subset: "mset (remove_first p xs) \<subseteq># mset xs"
  by (induction xs) (auto intro: subset_mset.order_trans)

lemma distinct_remove_first: "distinct xs \<Longrightarrow> distinct (remove_first p xs)"
  by (induction xs) (use set_remove_first_subset in fastforce)+

lemma remove_first_notin: "distinct xs \<Longrightarrow> x \<notin> set (remove_first ((=) x) xs)"
  by (induction xs) auto

lemma remove_first_id: "(\<forall>x \<in> set xs. \<not> p x) \<Longrightarrow> remove_first p xs = xs"
  by (induction xs) auto

lemma length_slice: "length (go_slice lo hi xs) = min (hi - lo) (length xs - lo)"
  by (simp add: go_slice_def)

section \<open>Binary search\<close>

text \<open>
  \<open>sort.Search\<close> of Go's standard library: \<open>i\<close> and \<open>j\<close> close in on the least index at which the
  predicate holds; \<open>h := (i + j) >> 1\<close>.
\<close>

function search_loop :: "(nat \<Rightarrow> bool) \<Rightarrow> nat \<Rightarrow> nat \<Rightarrow> nat" where
  "search_loop f i j =
     (if i < j
      then let h = (i + j) div 2 in if \<not> f h then search_loop f (h + 1) j else search_loop f i h
      else i)"
  by pat_completeness auto
termination
  by (relation "measure (\<lambda>(f, i, j). j - i)") auto

declare search_loop.simps [simp del]

definition go_search :: "nat \<Rightarrow> (nat \<Rightarrow> bool) \<Rightarrow> nat" where
  "go_search n f = search_loop f 0 n"

lemma search_loop_stop [simp]: "j \<le> i \<Longrightarrow> search_loop f i j = i"
  by (simp add: search_loop.simps)

lemma search_loop_range: "i \<le> j \<Longrightarrow> i \<le> search_loop f i j \<and> search_loop f i j \<le> j"
proof (induction f i j rule: search_loop.induct)
  case (1 f i j)
  show ?case
  proof (cases "i < j")
    case False
    then show ?thesis using "1.prems" by simp
  next
    case True
    then have "i \<le> (i + j) div 2" "(i + j) div 2 < j" by auto
    with "1.IH"(1)[OF True refl] "1.IH"(2)[OF True refl] show ?thesis
      by (subst (1 2) search_loop.simps) (auto simp: Let_def True)
  qed
qed

text \<open>
  Where \<open>f\<close> is monotone on the range, everything left of the result fails it and everything
  from the result on satisfies it.
\<close>

lemma search_loop_partition:
  assumes "i \<le> j"
    and "\<forall>k l. k \<le> l \<longrightarrow> i \<le> k \<longrightarrow> l < j \<longrightarrow> f k \<longrightarrow> f l"
  shows "(\<forall>k. i \<le> k \<longrightarrow> k < search_loop f i j \<longrightarrow> \<not> f k) \<and>
    (\<forall>k. search_loop f i j \<le> k \<longrightarrow> k < j \<longrightarrow> f k)"
  using assms
proof (induction f i j rule: search_loop.induct)
  case (1 f i j)
  show ?case
  proof (cases "i < j")
    case False
    then show ?thesis using "1.prems" by simp
  next
    case True
    define h where "h = (i + j) div 2"
    have h: "i \<le> h" "h < j" using True by (auto simp: h_def)
    have unfold: "search_loop f i j =
        (if f h then search_loop f i h else search_loop f (h + 1) j)"
      using True by (subst search_loop.simps) (simp add: Let_def h_def)
    show ?thesis
    proof (cases "f h")
      case True
      have "\<forall>k. h \<le> k \<longrightarrow> k < j \<longrightarrow> f k" using "1.prems"(2) True h by blast
      moreover have "(\<forall>k. i \<le> k \<longrightarrow> k < search_loop f i h \<longrightarrow> \<not> f k) \<and>
          (\<forall>k. search_loop f i h \<le> k \<longrightarrow> k < h \<longrightarrow> f k)"
        using "1.IH"(2)[OF \<open>i < j\<close> h_def] "1.prems"(2) True h by (auto intro: less_trans)
      ultimately show ?thesis using unfold True by (metis not_le)
    next
      case False
      have "\<forall>k. i \<le> k \<longrightarrow> k \<le> h \<longrightarrow> \<not> f k" using "1.prems"(2) False h by blast
      moreover have "(\<forall>k. h + 1 \<le> k \<longrightarrow> k < search_loop f (h + 1) j \<longrightarrow> \<not> f k) \<and>
          (\<forall>k. search_loop f (h + 1) j \<le> k \<longrightarrow> k < j \<longrightarrow> f k)"
        using "1.IH"(1)[OF \<open>i < j\<close> h_def False] "1.prems"(2) h by auto
      ultimately show ?thesis using unfold False by (metis Suc_eq_plus1 not_less_eq_eq)
    qed
  qed
qed

lemma go_search_le: "go_search n f \<le> n"
  using search_loop_range [of 0 n f] by (simp add: go_search_def)

lemma go_search_partition:
  assumes "\<And>k l. k \<le> l \<Longrightarrow> l < n \<Longrightarrow> f k \<Longrightarrow> f l"
  shows "k < go_search n f \<Longrightarrow> \<not> f k"
    and "go_search n f \<le> k \<Longrightarrow> k < n \<Longrightarrow> f k"
  using search_loop_partition [of 0 n f] assms by (auto simp: go_search_def)

end
