(* ===== verification/Go_Model.thy ===== *)
theory Go_Model
  imports Prelude "HOL-Library.Word"
begin

text \<open>
  The data of the in-memory backend (\<open>internal/memory/backend.go\<close>) and the interface to the
  code that is not in this repository.

  The job, its policies and the cron and workflow requests are structs of the module
  \<open>ojs-go-backend-common\<close>, which the repository aliases in \<open>internal/core/backend.go\<close>; the records
  here hold the fields the repository reads or writes. What that module computes (the formatting
  of times, UUIDs, backoff, the classification of states, JSON) is the record \<open>deps\<close>, a parameter
  of every operation that uses it; \<open>states_documented\<close> names what \<open>api/openapi.yaml\<close> documents of it.
\<close>

section \<open>Jobs\<close>

text \<open>A \<open>float64\<close> the code only hands on is its bits.\<close>

text \<open>\<open>StateOther\<close> is any other value of the Go string, the empty string of a fresh job included.\<close>

datatype job_state =
  StateAvailable | StateScheduled | StatePending | StateActive | StateRetryable
| StateCompleted | StateCancelled | StateDiscarded | StateOther string

record unique_policy =
  up_keys :: "string list"
  up_on_conflict :: string
  up_states :: "job_state list"
  up_period :: string

record retry_policy =
  rp_max_attempts :: int
  rp_on_exhaustion :: string
  rp_initial_interval :: string
  rp_max_interval :: string
  rp_backoff_coefficient :: "64 word"
  rp_jitter :: bool

text \<open>
  Optional pointers are \<open>option\<close>; \<open>json.RawMessage\<close> is its bytes, \<open>None\<close> for \<open>nil\<close>; a time is the
  string the code stores, \<open>''''\<close> when unset.
\<close>

record job =
  j_id :: string
  j_type :: string
  j_queue :: string
  j_args :: "string option"
  j_meta :: "string option"
  j_priority :: "int option"
  j_state :: job_state
  j_attempt :: int
  j_max_attempts :: "int option"
  j_retry :: "retry_policy option"
  j_unique :: "unique_policy option"
  j_created_at :: string
  j_enqueued_at :: string
  j_scheduled_at :: string
  j_started_at :: string
  j_completed_at :: string
  j_cancelled_at :: string
  j_worker_id :: string
  j_visibility_timeout_ms :: "int option"
  j_result :: "string option"
  j_error :: "string option"
  j_errors :: "string list"
  j_workflow_id :: string
  j_workflow_step :: int
  j_parent_results :: "string list"
  j_is_existing :: bool

text \<open>The zero value of the struct: what \<open>&core.Job{}\<close> holds before fields are set.\<close>

definition empty_job :: job where
  "empty_job = \<lparr>j_id = '''', j_type = '''', j_queue = '''', j_args = None, j_meta = None,
     j_priority = None, j_state = StateOther '''', j_attempt = 0, j_max_attempts = None,
     j_retry = None, j_unique = None, j_created_at = '''', j_enqueued_at = '''',
     j_scheduled_at = '''', j_started_at = '''', j_completed_at = '''', j_cancelled_at = '''',
     j_worker_id = '''', j_visibility_timeout_ms = None, j_result = None, j_error = None,
     j_errors = [], j_workflow_id = '''', j_workflow_step = 0, j_parent_results = [],
     j_is_existing = False\<rparr>"

section \<open>Errors\<close>

text \<open>
  The \<open>OJSError\<close> values the code makes, by the constructor function it calls; \<open>GoPanic\<close> is a run-time
  panic (an index or slice bound out of range).
\<close>

datatype go_error =
  NotFoundError string string
| ConflictError string
| DuplicateError string string
| InvalidRequestError string
| ValidationError string
| PlainError string
| GoPanic string

section \<open>Cron jobs and workflows\<close>

record job_error =
  je_type :: string
  je_message :: string

record cron_template =
  ct_type :: string
  ct_args :: "string option"
  ct_queue :: "string option" \<comment> \<open>\<open>Options.Queue\<close>, \<open>None\<close> when \<open>Options\<close> is nil\<close>

record cron_job =
  c_name :: string
  c_expression :: string
  c_schedule :: string
  c_timezone :: string
  c_enabled :: bool
  c_next_run_at :: string
  c_last_run_at :: string
  c_created_at :: string
  c_overlap_policy :: string
  c_template :: "cron_template option"

text \<open>\<open>EnqueueOptions\<close> as far as workflows use it: the queue and the two places of a retry policy.\<close>

record enqueue_options =
  eo_queue :: string
  eo_retry_policy :: "retry_policy option"
  eo_retry :: "retry_policy option"

record workflow_job_request =
  wj_name :: string
  wj_type :: string
  wj_args :: "string option"
  wj_options :: "enqueue_options option"

record workflow_callback =
  wc_type :: string
  wc_args :: "string option"
  wc_queue :: "string option"

record workflow_callbacks =
  wcs_on_complete :: "workflow_callback option"
  wcs_on_success :: "workflow_callback option"
  wcs_on_failure :: "workflow_callback option"

record workflow_request =
  wr_name :: string
  wr_type :: string
  wr_jobs :: "workflow_job_request list"
  wr_steps :: "workflow_job_request list"
  wr_callbacks :: "workflow_callbacks option"

record workflow_state =
  w_id :: string
  w_name :: string
  w_type :: string
  w_state :: string
  w_total :: nat
  w_completed :: nat
  w_failed :: nat
  w_created_at :: string
  w_completed_at :: string
  w_job_defs :: "workflow_job_request list"
  w_callbacks :: "workflow_callbacks option"
  w_job_ids :: "string list"
  w_results :: "int \<rightharpoonup> string"

record worker_state =
  wk_id :: string
  wk_state :: string
  wk_directive :: string
  wk_active_jobs :: "string list"
  wk_last_heartbeat :: string

section \<open>The SQLite tables\<close>

text \<open>The tables of \<open>initSchema\<close>: a primary key and the stored bytes.\<close>

record pstore =
  p_jobs :: "string \<rightharpoonup> string"
  p_dead_jobs :: "string \<rightharpoonup> string"
  p_crons :: "string \<rightharpoonup> string"
  p_workflows :: "string \<rightharpoonup> string"
  p_unique_keys :: "string \<rightharpoonup> string"
  p_queue_state :: "string \<rightharpoonup> string"

section \<open>The backend\<close>

text \<open>
  Jobs are shared by pointer: \<open>b.jobs\<close>, \<open>b.deadJobs\<close> and the queue index hold pointers to the
  same structs, and an operation that writes a field is seen through all of them. \<open>b_store\<close> is that
  heap: a \<open>ref\<close> is a pointer, \<open>b_next\<close> the next one to allocate. \<open>b_uuid\<close> counts the UUIDs drawn.
\<close>

type_synonym ref = nat

record backend =
  b_store :: "ref \<Rightarrow> job"
  b_next :: ref
  b_uuid :: nat
  b_jobs :: "string \<rightharpoonup> ref"
  b_queue_state :: "string \<rightharpoonup> string"
  b_dead_jobs :: "string \<rightharpoonup> ref"
  b_crons :: "string \<rightharpoonup> cron_job"
  b_workflows :: "string \<rightharpoonup> workflow_state"
  b_workers :: "string \<rightharpoonup> worker_state"
  b_unique_keys :: "string \<rightharpoonup> string"
  b_queue_idx :: "string \<rightharpoonup> ref list"
  b_retention_completed :: int
  b_retention_cancelled :: int
  b_retention_discarded :: int
  b_persist :: "pstore option"

section \<open>Code outside the repository\<close>

text \<open>
  Times are nanoseconds since the epoch. \<open>parse_time\<close> is \<open>time.Parse\<close> at the layout \<open>format_time\<close>
  writes. \<open>meta_string m k\<close> is the string at key \<open>k\<close> of the JSON object \<open>m\<close>, \<open>None\<close> when \<open>m\<close> is not an
  object or holds no string there; \<open>cron_next e\<close> is the \<open>Next\<close> method of the parsed cron expression
  \<open>e\<close>, \<open>None\<close> when it does not parse.
\<close>

record deps =
  new_uuid :: "nat \<Rightarrow> string"
  format_time :: "int \<Rightarrow> string"
  parse_time :: "string \<Rightarrow> int option"
  is_terminal :: "job_state \<Rightarrow> bool"
  is_cancellable :: "job_state \<Rightarrow> bool"
  default_retry :: retry_policy
  calculate_backoff :: "retry_policy \<Rightarrow> int \<Rightarrow> int"
  default_visibility_ms :: int
  validate_enqueue :: "string \<Rightarrow> string option \<Rightarrow> go_error option"
  marshal_job :: "job \<Rightarrow> string option"
  unmarshal_job :: "string \<Rightarrow> job option"
  marshal_cron :: "cron_job \<Rightarrow> string option"
  unmarshal_cron :: "string \<Rightarrow> cron_job option"
  marshal_workflow :: "workflow_state \<Rightarrow> string option"
  unmarshal_workflow :: "string \<Rightarrow> workflow_state option"
  marshal_error :: "job_error \<Rightarrow> string option"
  meta_string :: "string \<Rightarrow> string \<Rightarrow> string option"
  marshal_cron_meta :: "string \<Rightarrow> string option"
  cron_next :: "string \<Rightarrow> (int \<Rightarrow> int) option"
  load_location :: "string \<Rightarrow> string option"

text \<open>
  The state table of \<open>openapi.yaml\<close> (lines 28-34, 181 and 1206-1209): three states are terminal, the
  other five can be cancelled.
\<close>

definition states_documented :: "deps \<Rightarrow> bool" where
  "states_documented D \<longleftrightarrow>
     (\<forall>s. is_terminal D s \<longleftrightarrow> s \<in> {StateCompleted, StateCancelled, StateDiscarded}) \<and>
     (\<forall>s. is_cancellable D s \<longleftrightarrow>
        s \<in> {StateAvailable, StateScheduled, StatePending, StateActive, StateRetryable})"

text \<open>
  A formatted time is not empty and parses back to the same second (how much of the second the
  format keeps is not documented).
\<close>

definition time_roundtrip :: "deps \<Rightarrow> bool" where
  "time_roundtrip D \<longleftrightarrow> (\<forall>t. format_time D t \<noteq> '''' \<and>
     (\<exists>t'. parse_time D (format_time D t) = Some t' \<and> t' \<le> t \<and> t < t' + 1000000000))"

lemma states_documentedD:
  assumes "states_documented D"
  shows "is_terminal D s \<longleftrightarrow> s = StateCompleted \<or> s = StateCancelled \<or> s = StateDiscarded"
    and "is_cancellable D s \<longleftrightarrow> s = StateAvailable \<or> s = StateScheduled \<or> s = StatePending \<or>
      s = StateActive \<or> s = StateRetryable"
  using assms by (auto simp: states_documented_def)

section \<open>Pointers\<close>

text \<open>\<open>deref b r\<close> reads through the pointer; \<open>update_job b r f\<close> writes fields of the struct at \<open>r\<close>.\<close>

abbreviation deref :: "backend \<Rightarrow> ref \<Rightarrow> job" where
  "deref b r \<equiv> b_store b r"

definition update_job :: "ref \<Rightarrow> (job \<Rightarrow> job) \<Rightarrow> backend \<Rightarrow> backend" where
  "update_job r f b = b\<lparr>b_store := (b_store b)(r := f (b_store b r))\<rparr>"

definition alloc :: "job \<Rightarrow> backend \<Rightarrow> ref \<times> backend" where
  "alloc j b = (b_next b, b\<lparr>b_store := (b_store b)(b_next b := j), b_next := Suc (b_next b)\<rparr>)"

lemma update_job_sel [simp]:
  "b_store (update_job r f b) = (b_store b)(r := f (b_store b r))"
  "b_next (update_job r f b) = b_next b"
  "b_uuid (update_job r f b) = b_uuid b"
  "b_jobs (update_job r f b) = b_jobs b"
  "b_queue_state (update_job r f b) = b_queue_state b"
  "b_dead_jobs (update_job r f b) = b_dead_jobs b"
  "b_crons (update_job r f b) = b_crons b"
  "b_workflows (update_job r f b) = b_workflows b"
  "b_workers (update_job r f b) = b_workers b"
  "b_unique_keys (update_job r f b) = b_unique_keys b"
  "b_queue_idx (update_job r f b) = b_queue_idx b"
  "b_retention_completed (update_job r f b) = b_retention_completed b"
  "b_retention_cancelled (update_job r f b) = b_retention_cancelled b"
  "b_retention_discarded (update_job r f b) = b_retention_discarded b"
  "b_persist (update_job r f b) = b_persist b"
  by (simp_all add: update_job_def)

end
