(* ===== verification/Job_Queue.thy ===== *)
theory Job_Queue
  imports Go_Model
begin

text \<open>
  The queue index of \<open>internal/memory/backend.go\<close>: for each queue a slice of job pointers in the
  order \<open>Fetch\<close> serves them, highest priority first and, within a priority, by \<open>EnqueuedAt\<close>.
  The locale \<open>sorted_index\<close> is what \<open>Fetch\<close> needs of it; it is interpreted on \<open>index_insert\<close>, the
  binary search and the slice shuffling of \<open>addToQueueIndex\<close>.
\<close>

section \<open>The interface: an index kept in key order, first come first served\<close>

locale sorted_index =
  fixes key :: "'a \<Rightarrow> 'k::linorder"
    and ins :: "'a \<Rightarrow> 'a list \<Rightarrow> 'a list"
  assumes ins_mset: "mset (ins x xs) = add_mset x (mset xs)"
    and ins_sorted: "sorted (map key xs) \<Longrightarrow> sorted (map key (ins x xs))"
    and ins_stable: "sorted (map key xs) \<Longrightarrow>
      filter (\<lambda>y. key y = k) (ins x xs) = filter (\<lambda>y. key y = k) (xs @ [x])"
begin

definition ins_all :: "'a list \<Rightarrow> 'a list \<Rightarrow> 'a list" where
  "ins_all ys xs = fold ins ys xs"

lemma ins_set [simp]: "set (ins x xs) = insert x (set xs)"
  using ins_mset [of x xs] by (metis set_mset_add_mset_insert set_mset_mset)

lemma ins_distinct: "distinct (ins x xs) \<longleftrightarrow> x \<notin> set xs \<and> distinct xs"
proof -
  have "mset (ins x xs) = mset (x # xs)" by (simp add: ins_mset)
  then have "distinct (ins x xs) \<longleftrightarrow> distinct (x # xs)" by (rule mset_eq_imp_distinct_iff)
  then show ?thesis by simp
qed

lemma ins_all_mset: "mset (ins_all ys xs) = mset xs + mset ys"
  by (induction ys arbitrary: xs) (simp_all add: ins_all_def ins_mset)

lemma ins_all_sorted: "sorted (map key xs) \<Longrightarrow> sorted (map key (ins_all ys xs))"
  by (induction ys arbitrary: xs) (simp_all add: ins_all_def ins_sorted)

text \<open>Elements of one key leave in the order they came.\<close>

lemma ins_all_stable:
  "sorted (map key xs) \<Longrightarrow>
    filter (\<lambda>y. key y = k) (ins_all ys xs) = filter (\<lambda>y. key y = k) (xs @ ys)"
proof (induction ys arbitrary: xs)
  case Nil
  then show ?case by (simp add: ins_all_def)
next
  case (Cons y ys)
  then have "filter (\<lambda>y. key y = k) (ins_all ys (ins y xs)) =
      filter (\<lambda>y. key y = k) (ins y xs @ ys)"
    by (simp add: ins_sorted)
  also have "\<dots> = filter (\<lambda>y. key y = k) (xs @ [y]) @ filter (\<lambda>y. key y = k) ys"
    using Cons.prems ins_stable by (simp del: filter.simps)
  finally show ?case by (simp add: ins_all_def)
qed

text \<open>The head has the least key, and what is left after taking any prefix stays in order.\<close>

lemma head_least: "sorted (map key (x # xs)) \<Longrightarrow> y \<in> set xs \<Longrightarrow> key x \<le> key y"
  by auto

lemma prefix_before_rest:
  assumes "sorted (map key xs)" "x \<in> set (take n xs)" "y \<in> set (drop n xs)"
  shows "key x \<le> key y"
proof -
  have "sorted (map key (take n xs) @ map key (drop n xs))"
    using assms(1) by (simp flip: map_append)
  then show ?thesis using assms(2,3) by (auto simp: sorted_append)
qed

end

section \<open>The code's index\<close>

definition job_priority :: "job \<Rightarrow> int" where
  "job_priority j = (case j_priority j of None \<Rightarrow> 0 | Some p \<Rightarrow> p)"

text \<open>The closure passed to \<open>sort.Search\<close>: does \<open>j\<close> go strictly before \<open>k\<close>?\<close>

definition index_before :: "job \<Rightarrow> job \<Rightarrow> bool" where
  "index_before j k =
     (if job_priority j \<noteq> job_priority k then job_priority j > job_priority k
      else j_enqueued_at j < j_enqueued_at k)"

definition index_insert :: "(ref \<Rightarrow> job) \<Rightarrow> ref \<Rightarrow> ref list \<Rightarrow> ref list" where
  "index_insert \<sigma> r xs =
     (let pos = go_search (length xs) (\<lambda>i. index_before (\<sigma> r) (\<sigma> (xs ! i)))
      in slice_insert pos r xs)"

definition addToQueueIndex :: "ref \<Rightarrow> backend \<Rightarrow> backend" where
  "addToQueueIndex r b =
     (let job = deref b r in
      if j_state job \<noteq> StateAvailable then b
      else let xs = (case b_queue_idx b (j_queue job) of None \<Rightarrow> [] | Some xs \<Rightarrow> xs)
           in b\<lparr>b_queue_idx := (b_queue_idx b)(j_queue job \<mapsto> index_insert (b_store b) r xs)\<rparr>)"

definition removeFromQueueIndex :: "ref \<Rightarrow> backend \<Rightarrow> backend" where
  "removeFromQueueIndex r b =
     (let job = deref b r in
      case b_queue_idx b (j_queue job) of
        None \<Rightarrow> b
      | Some xs \<Rightarrow> b\<lparr>b_queue_idx := (b_queue_idx b)(j_queue job \<mapsto>
          remove_first (\<lambda>r'. j_id (deref b r') = j_id job) xs)\<rparr>)"

text \<open>The key the index is sorted by.\<close>

definition index_key :: "job \<Rightarrow> int \<times> string" where
  "index_key j = (- job_priority j, j_enqueued_at j)"

lemma index_before_iff: "index_before j k \<longleftrightarrow> index_key j < index_key k"
  by (auto simp: index_before_def index_key_def less_prod_def)

lemma index_insert_split:
  assumes "sorted (map (\<lambda>r. index_key (\<sigma> r)) xs)"
  obtains us vs where "xs = us @ vs" "index_insert \<sigma> r xs = us @ r # vs"
    "\<forall>u \<in> set us. index_key (\<sigma> u) \<le> index_key (\<sigma> r)"
    "\<forall>v \<in> set vs. index_key (\<sigma> r) < index_key (\<sigma> v)"
proof
  let ?f = "\<lambda>i. index_before (\<sigma> r) (\<sigma> (xs ! i))"
  let ?p = "go_search (length xs) ?f"
  have mono: "?f l" if "k \<le> l" "l < length xs" "?f k" for k l
    using that sorted_nth_mono [OF assms, of k l] by (simp add: index_before_iff)
  show "xs = take ?p xs @ drop ?p xs" by simp
  show "index_insert \<sigma> r xs = take ?p xs @ r # drop ?p xs"
    by (simp add: index_insert_def slice_insert_def Let_def)
  show "\<forall>u \<in> set (take ?p xs). index_key (\<sigma> u) \<le> index_key (\<sigma> r)"
  proof
    fix u assume "u \<in> set (take ?p xs)"
    then obtain k where k: "k < length (take ?p xs)" "u = take ?p xs ! k"
      by (metis in_set_conv_nth)
    then have "\<not> ?f k" using go_search_partition(1)[of "length xs" ?f k] mono by simp
    then show "index_key (\<sigma> u) \<le> index_key (\<sigma> r)"
      using k by (simp add: index_before_iff)
  qed
  show "\<forall>v \<in> set (drop ?p xs). index_key (\<sigma> r) < index_key (\<sigma> v)"
  proof
    fix v assume "v \<in> set (drop ?p xs)"
    then obtain k where k: "k < length (drop ?p xs)" "v = drop ?p xs ! k"
      by (metis in_set_conv_nth)
    then have "?f (?p + k)"
      using go_search_partition(2)[of "length xs" ?f "?p + k"] mono by simp
    then show "index_key (\<sigma> r) < index_key (\<sigma> v)"
      using k by (simp add: index_before_iff)
  qed
qed

lemma index_insert_mset [simp]: "mset (index_insert \<sigma> r xs) = add_mset r (mset xs)"
  by (simp add: index_insert_def Let_def)

lemma index_insert_sorted:
  assumes "sorted (map (\<lambda>r. index_key (\<sigma> r)) xs)"
  shows "sorted (map (\<lambda>r. index_key (\<sigma> r)) (index_insert \<sigma> r xs))"
proof -
  obtain us vs where "xs = us @ vs" "index_insert \<sigma> r xs = us @ r # vs"
    "\<forall>u \<in> set us. index_key (\<sigma> u) \<le> index_key (\<sigma> r)"
    "\<forall>v \<in> set vs. index_key (\<sigma> r) < index_key (\<sigma> v)"
    using index_insert_split [OF assms] by metis
  then show ?thesis using assms by (force simp: sorted_append)
qed

lemma index_insert_stable:
  assumes "sorted (map (\<lambda>r. index_key (\<sigma> r)) xs)"
  shows "filter (\<lambda>y. index_key (\<sigma> y) = k) (index_insert \<sigma> r xs) =
    filter (\<lambda>y. index_key (\<sigma> y) = k) (xs @ [r])"
proof -
  obtain us vs where *: "xs = us @ vs" "index_insert \<sigma> r xs = us @ r # vs"
    "\<forall>v \<in> set vs. index_key (\<sigma> r) < index_key (\<sigma> v)"
    using index_insert_split [OF assms] by metis
  then have "index_key (\<sigma> r) = k \<Longrightarrow> filter (\<lambda>y. index_key (\<sigma> y) = k) vs = []"
    by (auto simp: filter_empty_conv)
  then show ?thesis using * by auto
qed

interpretation qidx: sorted_index "\<lambda>r. index_key (\<sigma> r)" "index_insert \<sigma>" for \<sigma>
  by unfold_locales (simp_all add: index_insert_sorted index_insert_stable)

section \<open>What adding to the index changes\<close>

lemma addToQueueIndex_sel [simp]:
  "b_store (addToQueueIndex r b) = b_store b"
  "b_next (addToQueueIndex r b) = b_next b"
  "b_uuid (addToQueueIndex r b) = b_uuid b"
  "b_jobs (addToQueueIndex r b) = b_jobs b"
  "b_queue_state (addToQueueIndex r b) = b_queue_state b"
  "b_dead_jobs (addToQueueIndex r b) = b_dead_jobs b"
  "b_crons (addToQueueIndex r b) = b_crons b"
  "b_workflows (addToQueueIndex r b) = b_workflows b"
  "b_workers (addToQueueIndex r b) = b_workers b"
  "b_unique_keys (addToQueueIndex r b) = b_unique_keys b"
  "b_retention_completed (addToQueueIndex r b) = b_retention_completed b"
  "b_retention_cancelled (addToQueueIndex r b) = b_retention_cancelled b"
  "b_retention_discarded (addToQueueIndex r b) = b_retention_discarded b"
  "b_persist (addToQueueIndex r b) = b_persist b"
  by (simp_all add: addToQueueIndex_def Let_def)

text \<open>The pointers waiting in queue \<open>q\<close>.\<close>

definition queued :: "backend \<Rightarrow> string \<Rightarrow> ref list" where
  "queued b q = (case b_queue_idx b q of None \<Rightarrow> [] | Some xs \<Rightarrow> xs)"

lemma queued_addToQueueIndex:
  "queued (addToQueueIndex r b) q =
     (if j_state (deref b r) = StateAvailable \<and> q = j_queue (deref b r)
      then index_insert (b_store b) r (queued b q) else queued b q)"
  by (simp add: addToQueueIndex_def Let_def queued_def)

lemma queued_update_job [simp]: "queued (update_job r f b) = queued b"
  by (simp add: queued_def fun_eq_iff)

end
