(* ===== verification/Persist.thy ===== *)
theory Persist
  imports Go_Model
begin

text \<open>
  The persistence interface \<open>persistStore\<close> (\<open>backend.go\<close>) and its SQLite implementation
  (\<open>internal/memory/sqlite.go\<close>). A table with a primary key and \<open>INSERT OR REPLACE\<close> /
  \<open>DELETE ... WHERE key = ?\<close> is a map; a row is the JSON the marshaller made, and a value that does
  not marshal leaves the table alone. Failures of the database itself are not modelled: every
  caller in the backend ignores them.
\<close>

section \<open>The interface of one table\<close>

locale key_table =
  fixes get :: "'s \<Rightarrow> string \<Rightarrow> 'v option"
    and put :: "string \<Rightarrow> 'v \<Rightarrow> 's \<Rightarrow> 's"
    and del :: "string \<Rightarrow> 's \<Rightarrow> 's"
  assumes get_put: "get (put k v s) = (get s)(k \<mapsto> v)"
    and get_del: "get (del k s) = (get s)(k := None)"
begin

text \<open>A table that mirrors a map in memory keeps mirroring it when both are updated alike.\<close>

definition mirrors :: "(string \<Rightarrow> 'v option) \<Rightarrow> 's \<Rightarrow> bool" where
  "mirrors m s \<longleftrightarrow> get s = m"

lemma mirrors_put: "mirrors m s \<Longrightarrow> mirrors (m(k \<mapsto> v)) (put k v s)"
  by (simp add: mirrors_def get_put)

lemma mirrors_del: "mirrors m s \<Longrightarrow> mirrors (m(k := None)) (del k s)"
  by (simp add: mirrors_def get_del)

lemma put_same_overwrites: "get (put k v (put k w s)) = get (put k v s)"
  by (simp add: get_put)

end

section \<open>The SQLite store\<close>

definition put_job_row :: "string \<Rightarrow> string \<Rightarrow> pstore \<Rightarrow> pstore" where
  "put_job_row jid data p = p\<lparr>p_jobs := (p_jobs p)(jid \<mapsto> data)\<rparr>"

definition SaveJob :: "deps \<Rightarrow> job \<Rightarrow> pstore \<Rightarrow> pstore" where
  "SaveJob D j p =
     (case marshal_job D j of None \<Rightarrow> p | Some data \<Rightarrow> put_job_row (j_id j) data p)"

definition DeleteJob :: "string \<Rightarrow> pstore \<Rightarrow> pstore" where
  "DeleteJob jid p = p\<lparr>p_jobs := (p_jobs p)(jid := None)\<rparr>"

definition put_dead_row :: "string \<Rightarrow> string \<Rightarrow> pstore \<Rightarrow> pstore" where
  "put_dead_row jid data p = p\<lparr>p_dead_jobs := (p_dead_jobs p)(jid \<mapsto> data)\<rparr>"

definition SaveDeadJob :: "deps \<Rightarrow> job \<Rightarrow> pstore \<Rightarrow> pstore" where
  "SaveDeadJob D j p =
     (case marshal_job D j of None \<Rightarrow> p | Some data \<Rightarrow> put_dead_row (j_id j) data p)"

definition DeleteDeadJob :: "string \<Rightarrow> pstore \<Rightarrow> pstore" where
  "DeleteDeadJob jid p = p\<lparr>p_dead_jobs := (p_dead_jobs p)(jid := None)\<rparr>"

definition SaveCron :: "deps \<Rightarrow> cron_job \<Rightarrow> pstore \<Rightarrow> pstore" where
  "SaveCron D c p =
     (case marshal_cron D c of None \<Rightarrow> p
      | Some data \<Rightarrow> p\<lparr>p_crons := (p_crons p)(c_name c \<mapsto> data)\<rparr>)"

definition DeleteCronRow :: "string \<Rightarrow> pstore \<Rightarrow> pstore" where
  "DeleteCronRow name p = p\<lparr>p_crons := (p_crons p)(name := None)\<rparr>"

definition SaveWorkflow :: "deps \<Rightarrow> string \<Rightarrow> workflow_state \<Rightarrow> pstore \<Rightarrow> pstore" where
  "SaveWorkflow D jid w p =
     (case marshal_workflow D w of None \<Rightarrow> p
      | Some data \<Rightarrow> p\<lparr>p_workflows := (p_workflows p)(jid \<mapsto> data)\<rparr>)"

definition DeleteWorkflow :: "string \<Rightarrow> pstore \<Rightarrow> pstore" where
  "DeleteWorkflow jid p = p\<lparr>p_workflows := (p_workflows p)(jid := None)\<rparr>"

definition SaveUniqueKey :: "string \<Rightarrow> string \<Rightarrow> pstore \<Rightarrow> pstore" where
  "SaveUniqueKey fingerprint jobID p =
     p\<lparr>p_unique_keys := (p_unique_keys p)(fingerprint \<mapsto> jobID)\<rparr>"

definition DeleteUniqueKey :: "string \<Rightarrow> pstore \<Rightarrow> pstore" where
  "DeleteUniqueKey fingerprint p =
     p\<lparr>p_unique_keys := (p_unique_keys p)(fingerprint := None)\<rparr>"

definition SaveQueueState :: "string \<Rightarrow> string \<Rightarrow> pstore \<Rightarrow> pstore" where
  "SaveQueueState name status p = p\<lparr>p_queue_state := (p_queue_state p)(name \<mapsto> status)\<rparr>"

definition initSchema :: pstore where
  "initSchema = \<lparr>p_jobs = Map.empty, p_dead_jobs = Map.empty, p_crons = Map.empty,
     p_workflows = Map.empty, p_unique_keys = Map.empty, p_queue_state = Map.empty\<rparr>"

interpretation jobs_table: key_table p_jobs put_job_row DeleteJob
  by unfold_locales (simp_all add: put_job_row_def DeleteJob_def)

interpretation dead_table: key_table p_dead_jobs put_dead_row DeleteDeadJob
  by unfold_locales (simp_all add: put_dead_row_def DeleteDeadJob_def)

interpretation unique_table: key_table p_unique_keys SaveUniqueKey DeleteUniqueKey
  by unfold_locales (simp_all add: SaveUniqueKey_def DeleteUniqueKey_def)

section \<open>Loading\<close>

text \<open>\<open>persistedState\<close>: the maps \<open>LoadAll\<close> builds; a row that does not unmarshal is skipped.\<close>

record persisted_state =
  ps_jobs :: "string \<rightharpoonup> job"
  ps_dead_jobs :: "string \<rightharpoonup> job"
  ps_crons :: "string \<rightharpoonup> cron_job"
  ps_workflows :: "string \<rightharpoonup> workflow_state"
  ps_unique_keys :: "string \<rightharpoonup> string"
  ps_queue_state :: "string \<rightharpoonup> string"

definition LoadAll :: "deps \<Rightarrow> pstore \<Rightarrow> persisted_state" where
  "LoadAll D p = \<lparr>
     ps_jobs = (\<lambda>jid. Option.bind (p_jobs p jid) (unmarshal_job D)),
     ps_dead_jobs = (\<lambda>jid. Option.bind (p_dead_jobs p jid) (unmarshal_job D)),
     ps_crons = (\<lambda>n. Option.bind (p_crons p n) (unmarshal_cron D)),
     ps_workflows = (\<lambda>jid. Option.bind (p_workflows p jid) (unmarshal_workflow D)),
     ps_unique_keys = p_unique_keys p,
     ps_queue_state = p_queue_state p\<rparr>"

text \<open>
  \<open>encoding/json\<close> on the job struct: marshalling succeeds and unmarshalling gives the job back
  (the fields here are the exported ones; raw messages hold valid JSON).
\<close>

definition job_codec :: "deps \<Rightarrow> bool" where
  "job_codec D \<longleftrightarrow> (\<forall>j. \<exists>d. marshal_job D j = Some d \<and> unmarshal_job D d = Some j)"

lemma SaveJob_sel [simp]:
  "p_dead_jobs (SaveJob D j p) = p_dead_jobs p" "p_crons (SaveJob D j p) = p_crons p"
  "p_workflows (SaveJob D j p) = p_workflows p" "p_unique_keys (SaveJob D j p) = p_unique_keys p"
  "p_queue_state (SaveJob D j p) = p_queue_state p"
  by (simp_all add: SaveJob_def put_job_row_def split: option.splits)

lemma p_jobs_SaveDeadJob [simp]: "p_jobs (SaveDeadJob D j p) = p_jobs p"
  by (simp add: SaveDeadJob_def put_dead_row_def split: option.splits)

lemma p_jobs_SaveWorkflow [simp]: "p_jobs (SaveWorkflow D jid w p) = p_jobs p"
  by (simp add: SaveWorkflow_def split: option.splits)

lemma p_jobs_other [simp]:
  "p_jobs (DeleteDeadJob jid p) = p_jobs p" "p_jobs (SaveUniqueKey f jid p) = p_jobs p"
  "p_jobs (DeleteUniqueKey f p) = p_jobs p" "p_jobs (SaveQueueState n s p) = p_jobs p"
  "p_jobs (DeleteCronRow n p) = p_jobs p"
  by (simp_all add: DeleteDeadJob_def SaveUniqueKey_def DeleteUniqueKey_def SaveQueueState_def
    DeleteCronRow_def)

lemma p_jobs_SaveCron [simp]: "p_jobs (SaveCron D c p) = p_jobs p"
  by (simp add: SaveCron_def split: option.splits)

text \<open>What is saved last under an ID is what a restart loads.\<close>

lemma load_SaveJob:
  assumes "job_codec D"
  shows "ps_jobs (LoadAll D (SaveJob D j p)) = (ps_jobs (LoadAll D p))(j_id j \<mapsto> j)"
proof -
  obtain d where d: "marshal_job D j = Some d" "unmarshal_job D d = Some j"
    using assms unfolding job_codec_def by blast
  then have "p_jobs (SaveJob D j p) = (p_jobs p)(j_id j \<mapsto> d)"
    by (simp add: SaveJob_def jobs_table.get_put)
  then show ?thesis using d by (auto simp: LoadAll_def fun_eq_iff)
qed

lemma load_DeleteJob: "ps_jobs (LoadAll D (DeleteJob jid p)) = (ps_jobs (LoadAll D p))(jid := None)"
  by (auto simp: LoadAll_def jobs_table.get_del fun_eq_iff)

section \<open>\<open>if b.persist != nil { ... }\<close>\<close>

definition persist :: "(pstore \<Rightarrow> pstore) \<Rightarrow> backend \<Rightarrow> backend" where
  "persist f b = b\<lparr>b_persist := map_option f (b_persist b)\<rparr>"

lemma persist_sel [simp]:
  "b_store (persist f b) = b_store b" "b_next (persist f b) = b_next b"
  "b_uuid (persist f b) = b_uuid b" "b_jobs (persist f b) = b_jobs b"
  "b_queue_state (persist f b) = b_queue_state b" "b_dead_jobs (persist f b) = b_dead_jobs b"
  "b_crons (persist f b) = b_crons b" "b_workflows (persist f b) = b_workflows b"
  "b_workers (persist f b) = b_workers b" "b_unique_keys (persist f b) = b_unique_keys b"
  "b_queue_idx (persist f b) = b_queue_idx b"
  "b_retention_completed (persist f b) = b_retention_completed b"
  "b_retention_cancelled (persist f b) = b_retention_cancelled b"
  "b_retention_discarded (persist f b) = b_retention_discarded b"
  "b_persist (persist f b) = map_option f (b_persist b)"
  by (simp_all add: persist_def)

end
