(* ===== verification/Backend_Jobs.thy ===== *)
theory Backend_Jobs
  imports Job_Queue Persist
begin

text \<open>
  \<open>internal/memory/jobs.go\<close> and the constructor of \<open>backend.go\<close>: \<open>New\<close>, \<open>Push\<close>, \<open>PushBatch\<close>, \<open>Info\<close>,
  \<open>Cancel\<close> and the unique-key bookkeeping. An operation takes the instant \<open>now\<close> every \<open>time.Now()\<close>
  in it reads and returns its result with the new state.
\<close>

type_synonym 'a op = "backend \<Rightarrow> (go_error + 'a) \<times> backend"

section \<open>Construction\<close>

definition empty_backend :: backend where
  "empty_backend = \<lparr>b_store = (\<lambda>_. empty_job), b_next = 0, b_uuid = 0, b_jobs = Map.empty,
     b_queue_state = Map.empty, b_dead_jobs = Map.empty, b_crons = Map.empty,
     b_workflows = Map.empty, b_workers = Map.empty, b_unique_keys = Map.empty,
     b_queue_idx = Map.empty, b_retention_completed = 3600000000000,
     b_retention_cancelled = 86400000000000, b_retention_discarded = 86400000000000,
     b_persist = None\<rparr>"

definition WithRetention :: "int \<Rightarrow> int \<Rightarrow> int \<Rightarrow> backend \<Rightarrow> backend" where
  "WithRetention completed cancelled discarded b =
     b\<lparr>b_retention_completed := completed, b_retention_cancelled := cancelled,
       b_retention_discarded := discarded\<rparr>"

text \<open>
  \<open>LoadAll\<close> allocates one struct per row; the loop of \<open>New\<close> then adds the available jobs to the index
  in the order \<open>ord\<close> Go's map iteration takes.
\<close>

fun load_refs :: "(string \<rightharpoonup> job) \<Rightarrow> string list \<Rightarrow> backend \<Rightarrow> (string \<rightharpoonup> ref) \<times> backend" where
  "load_refs m [] b = (Map.empty, b)"
| "load_refs m (jid # ids) b =
     (case m jid of
        None \<Rightarrow> load_refs m ids b
      | Some j \<Rightarrow>
          (let (r, b1) = alloc j b; (refs, b2) = load_refs m ids b1 in (refs(jid \<mapsto> r), b2)))"

fun index_loaded :: "string list \<Rightarrow> backend \<Rightarrow> backend" where
  "index_loaded [] b = b"
| "index_loaded (jid # ids) b =
     (case b_jobs b jid of
        None \<Rightarrow> index_loaded ids b
      | Some r \<Rightarrow> index_loaded ids
          (if j_state (deref b r) = StateAvailable then addToQueueIndex r b else b))"

definition New :: "deps \<Rightarrow> int \<times> int \<times> int \<Rightarrow> pstore option \<Rightarrow> string list \<Rightarrow> string list \<Rightarrow> backend" where
  "New D ret store ord dead_ord =
     (let (c, x, d) = ret; b = (WithRetention c x d empty_backend)\<lparr>b_persist := store\<rparr> in
      case store of
        None \<Rightarrow> b
      | Some p \<Rightarrow>
          (let ps = LoadAll D p;
               (jobs, b1) = load_refs (ps_jobs ps) ord b;
               (dead, b2) = load_refs (ps_dead_jobs ps) dead_ord b1
           in index_loaded ord
                (b2\<lparr>b_jobs := jobs, b_dead_jobs := dead, b_crons := ps_crons ps,
                    b_workflows := ps_workflows ps, b_unique_keys := ps_unique_keys ps,
                    b_queue_state := ps_queue_state ps\<rparr>)))"

section \<open>Unique keys\<close>

definition fingerprint_part :: "job \<Rightarrow> string \<Rightarrow> string" where
  "fingerprint_part job key =
     (if key = ''type'' then ''type:'' @ j_type job @ '';''
      else if key = ''queue'' then ''queue:'' @ j_queue job @ '';''
      else if key = ''args'' then
        (case j_args job of None \<Rightarrow> '''' | Some a \<Rightarrow> ''args:'' @ a @ '';'')
      else if key = ''meta'' then
        (case j_meta job of None \<Rightarrow> '''' | Some m \<Rightarrow> ''meta:'' @ m @ '';'')
      else '''')"

definition computeFingerprint :: "unique_policy \<Rightarrow> job \<Rightarrow> string" where
  "computeFingerprint policy job =
     (let keys = (if up_keys policy = [] then [''type'', ''queue''] else up_keys policy)
      in concat (map (fingerprint_part job) keys))"

definition shouldCheckUnique :: "deps \<Rightarrow> job \<Rightarrow> unique_policy \<Rightarrow> bool" where
  "shouldCheckUnique D existingJob policy =
     (if up_states policy = [] then \<not> is_terminal D (j_state existingJob)
      else j_state existingJob \<in> set (up_states policy))"

definition cleanupUniqueKey :: "job \<Rightarrow> backend \<Rightarrow> backend" where
  "cleanupUniqueKey job b =
     (case j_unique job of
        None \<Rightarrow> b
      | Some policy \<Rightarrow>
          (let fingerprint = computeFingerprint policy job in
           if b_unique_keys b fingerprint = Some (j_id job)
           then b\<lparr>b_unique_keys := (b_unique_keys b)(fingerprint := None)\<rparr> else b))"

section \<open>Push\<close>

text \<open>The ID and the fields \<open>Push\<close> sets before anything else.\<close>

definition push_prepare :: "deps \<Rightarrow> int \<Rightarrow> job \<Rightarrow> backend \<Rightarrow> job \<times> backend" where
  "push_prepare D now job b =
     (let (jid, b) = (if j_id job = '''' then (new_uuid D (b_uuid b), b\<lparr>b_uuid := Suc (b_uuid b)\<rparr>)
                     else (j_id job, b))
      in (job\<lparr>j_id := jid, j_created_at := format_time D now, j_attempt := 0\<rparr>, b))"

text \<open>
  The conflict with an existing job: \<open>Some r\<close> returns \<open>r\<close> from \<open>Push\<close>, \<open>None\<close> goes on with the push. A
  policy that is none of \<open>reject\<close>, \<open>ignore\<close>, \<open>replace\<close> falls through the switch.
\<close>

definition push_conflict ::
    "deps \<Rightarrow> int \<Rightarrow> unique_policy \<Rightarrow> string \<Rightarrow> string \<Rightarrow> backend \<Rightarrow> (go_error + job) option \<times> backend" where
  "push_conflict D now policy fingerprint existingID b =
     (case b_jobs b existingID of
        None \<Rightarrow> (None, b)
      | Some r \<Rightarrow>
          if \<not> shouldCheckUnique D (deref b r) policy then (None, b)
          else
            (let conflict =
               (if up_on_conflict policy = '''' then ''reject'' else up_on_conflict policy) in
             if conflict = ''reject'' then (Some (Inl (DuplicateError existingID fingerprint)), b)
             else if conflict = ''ignore'' then
               (let b' = update_job r (\<lambda>j. j\<lparr>j_is_existing := True\<rparr>) b
                in (Some (Inr (deref b' r)), b'))
             else if conflict = ''replace'' then
               (if is_cancellable D (j_state (deref b r)) then
                  (let b' = update_job r (\<lambda>j. j\<lparr>j_state := StateCancelled,
                              j_cancelled_at := format_time D now\<rparr>) b
                   in (None, persist (SaveJob D (deref b' r)) b'))
                else (None, b))
             else (None, b)))"

definition push_unique ::
    "deps \<Rightarrow> int \<Rightarrow> job \<Rightarrow> backend \<Rightarrow> (go_error + job) option \<times> backend" where
  "push_unique D now job b =
     (case j_unique job of
        None \<Rightarrow> (None, b)
      | Some policy \<Rightarrow>
          (let fingerprint = computeFingerprint policy job;
               (early, b1) = (case b_unique_keys b fingerprint of
                  None \<Rightarrow> (None, b)
                | Some existingID \<Rightarrow> push_conflict D now policy fingerprint existingID b)
           in case early of
                Some r \<Rightarrow> (Some r, b1)
              | None \<Rightarrow> (None, persist (SaveUniqueKey fingerprint (j_id job))
                  (b1\<lparr>b_unique_keys := (b_unique_keys b1)(fingerprint \<mapsto> j_id job)\<rparr>))))"

definition starts_scheduled :: "deps \<Rightarrow> int \<Rightarrow> job \<Rightarrow> bool" where
  "starts_scheduled D now job =
     (j_scheduled_at job \<noteq> '''' \<and>
      (case parse_time D (j_scheduled_at job) of None \<Rightarrow> False | Some t \<Rightarrow> now < t))"

definition push_store :: "deps \<Rightarrow> int \<Rightarrow> job \<Rightarrow> backend \<Rightarrow> job \<times> backend" where
  "push_store D now job b =
     (let scheduled = starts_scheduled D now job;
          job = job\<lparr>j_state := (if scheduled then StateScheduled else StateAvailable),
                    j_enqueued_at := format_time D now\<rparr>;
          (r, b1) = alloc job b;
          b2 = b1\<lparr>b_jobs := (b_jobs b1)(j_id job \<mapsto> r)\<rparr>;
          b3 = (if scheduled then b2 else addToQueueIndex r b2)
      in (job, persist (SaveJob D job) b3))"

definition Push :: "deps \<Rightarrow> int \<Rightarrow> job \<Rightarrow> job op" where
  "Push D now job b =
     (let (job, b1) = push_prepare D now job b;
          (early, b2) = push_unique D now job b1
      in case early of
           Some r \<Rightarrow> (r, b2)
         | None \<Rightarrow> (let (job, b3) = push_store D now job b2 in (Inr job, b3)))"

section \<open>PushBatch\<close>

fun validate_all :: "deps \<Rightarrow> job list \<Rightarrow> go_error option" where
  "validate_all D [] = None"
| "validate_all D (j # js) =
     (case validate_enqueue D (j_type j) (j_args j) of
        Some e \<Rightarrow> Some e | None \<Rightarrow> validate_all D js)"

fun push_each :: "deps \<Rightarrow> int \<Rightarrow> job list \<Rightarrow> job list op" where
  "push_each D now [] b = (Inr [], b)"
| "push_each D now (j # js) b =
     (case Push D now j b of
        (Inl e, b1) \<Rightarrow> (Inl e, b1)
      | (Inr pushed, b1) \<Rightarrow>
          (case push_each D now js b1 of
             (Inl e, b2) \<Rightarrow> (Inl e, b2)
           | (Inr rest, b2) \<Rightarrow> (Inr (pushed # rest), b2)))"

definition PushBatch :: "deps \<Rightarrow> int \<Rightarrow> job list \<Rightarrow> job list op" where
  "PushBatch D now js b =
     (case validate_all D js of Some e \<Rightarrow> (Inl e, b) | None \<Rightarrow> push_each D now js b)"

section \<open>Info and Cancel\<close>

definition Info :: "string \<Rightarrow> backend \<Rightarrow> go_error + job" where
  "Info jobID b =
     (case b_jobs b jobID of
        Some r \<Rightarrow> Inr (deref b r)
      | None \<Rightarrow>
          (case b_dead_jobs b jobID of
             Some r \<Rightarrow> Inr (deref b r)
           | None \<Rightarrow> Inl (NotFoundError ''Job'' jobID)))"

definition Cancel :: "deps \<Rightarrow> int \<Rightarrow> string \<Rightarrow> job op" where
  "Cancel D now jobID b =
     (case b_jobs b jobID of
        None \<Rightarrow> (Inl (NotFoundError ''Job'' jobID), b)
      | Some r \<Rightarrow>
          if \<not> is_cancellable D (j_state (deref b r))
          then (Inl (ConflictError ''Cannot cancel job''), b)
          else
            (let b1 = update_job r (\<lambda>j. j\<lparr>j_state := StateCancelled,
                        j_cancelled_at := format_time D now\<rparr>) b;
                 b2 = cleanupUniqueKey (deref b1 r) b1;
                 b3 = persist (SaveJob D (deref b2 r)) b2
             in (Inr (deref b3 r), b3)))"

end
