(* ===== verification/Backend_Workflows.thy ===== *)
theory Backend_Workflows
  imports Backend_Jobs
begin

text \<open>
  \<open>internal/memory/workflows.go\<close>: creating, reading, cancelling and advancing workflows. The
  workflow struct is reached through \<open>b.workflows\<close> only, and an entry is never replaced by another
  struct, so the map holds it by value. A function that releases the lock half way is the
  composition of its locked sections.
\<close>

text \<open>What the API returns of a workflow; the totals are shown as steps for a chain, as jobs else.\<close>

record workflow_view =
  v_id :: string
  v_name :: string
  v_type :: string
  v_state :: string
  v_created_at :: string
  v_completed_at :: string
  v_steps_total :: "nat option"
  v_steps_completed :: "nat option"
  v_jobs_total :: "nat option"
  v_jobs_completed :: "nat option"
  v_callbacks :: "workflow_callbacks option"

definition workflow_view_of :: "workflow_state \<Rightarrow> workflow_view" where
  "workflow_view_of w = \<lparr>v_id = w_id w, v_name = w_name w, v_type = w_type w, v_state = w_state w,
     v_created_at = w_created_at w, v_completed_at = w_completed_at w,
     v_steps_total = (if w_type w = ''chain'' then Some (w_total w) else None),
     v_steps_completed = (if w_type w = ''chain'' then Some (w_completed w) else None),
     v_jobs_total = (if w_type w = ''chain'' then None else Some (w_total w)),
     v_jobs_completed = (if w_type w = ''chain'' then None else Some (w_completed w)),
     v_callbacks = w_callbacks w\<rparr>"

definition workflowJobToJob :: "workflow_job_request \<Rightarrow> string \<Rightarrow> nat \<Rightarrow> job" where
  "workflowJobToJob step workflowID stepIdx =
     (let queue = (case wj_options step of
            Some opt \<Rightarrow> if eo_queue opt \<noteq> '''' then eo_queue opt else ''default''
          | None \<Rightarrow> ''default'');
          retry = (case wj_options step of
            Some opt \<Rightarrow> (case eo_retry_policy opt of Some p \<Rightarrow> Some p | None \<Rightarrow> eo_retry opt)
          | None \<Rightarrow> None)
      in empty_job\<lparr>j_type := wj_type step, j_args := wj_args step, j_queue := queue,
           j_workflow_id := workflowID, j_workflow_step := int stepIdx,
           j_retry := retry, j_max_attempts := map_option rp_max_attempts retry\<rparr>)"

section \<open>Creating\<close>

definition new_workflow_state :: "deps \<Rightarrow> int \<Rightarrow> string \<Rightarrow> workflow_request \<Rightarrow> workflow_state" where
  "new_workflow_state D now wfID req =
     (let jobs = (if wr_type req = ''chain'' then wr_steps req else wr_jobs req)
      in \<lparr>w_id = wfID, w_name = wr_name req, w_type = wr_type req, w_state = ''running'',
          w_total = length jobs, w_completed = 0, w_failed = 0,
          w_created_at = format_time D now, w_completed_at = '''', w_job_defs = jobs,
          w_callbacks = wr_callbacks req, w_job_ids = [], w_results = Map.empty\<rparr>)"

text \<open>\<open>jobs[0]\<close> of an empty chain is an index out of range.\<close>

definition jobs_to_enqueue :: "workflow_state \<Rightarrow> go_error + job list" where
  "jobs_to_enqueue w =
     (if w_type w = ''chain'' then
        (case w_job_defs w of
           [] \<Rightarrow> Inl (GoPanic ''index out of range [0] with length 0'')
         | step # _ \<Rightarrow> Inr [workflowJobToJob step (w_id w) 0])
      else Inr (map (\<lambda>(i, step). workflowJobToJob step (w_id w) i)
                 (enumerate 0 (w_job_defs w))))"

definition save_workflow :: "deps \<Rightarrow> string \<Rightarrow> workflow_state \<Rightarrow> backend \<Rightarrow> backend" where
  "save_workflow D wid w b =
     persist (SaveWorkflow D wid w) (b\<lparr>b_workflows := (b_workflows b)(wid \<mapsto> w)\<rparr>)"

definition CreateWorkflow :: "deps \<Rightarrow> int \<Rightarrow> workflow_request \<Rightarrow> workflow_view op" where
  "CreateWorkflow D now req b =
     (let wfID = new_uuid D (b_uuid b);
          state = new_workflow_state D now wfID req;
          b1 = save_workflow D wfID state (b\<lparr>b_uuid := Suc (b_uuid b)\<rparr>)
      in case jobs_to_enqueue state of
           Inl e \<Rightarrow> (Inl e, b1)
         | Inr js \<Rightarrow>
             (case push_each D now js b1 of
                (Inl e, b2) \<Rightarrow> (Inl e, b2)
              | (Inr created, b2) \<Rightarrow>
                  (case b_workflows b2 wfID of
                     None \<Rightarrow> (Inr (workflow_view_of state), b2)
                   | Some st \<Rightarrow> (Inr (workflow_view_of state),
                       save_workflow D wfID
                         (st\<lparr>w_job_ids := w_job_ids st @ map j_id created\<rparr>) b2))))"

definition GetWorkflow :: "string \<Rightarrow> backend \<Rightarrow> go_error + workflow_view" where
  "GetWorkflow wid b =
     (case b_workflows b wid of
        None \<Rightarrow> Inl (NotFoundError ''Workflow'' wid)
      | Some w \<Rightarrow> Inr (workflow_view_of w))"

section \<open>Cancelling\<close>

definition jobs_to_cancel :: "deps \<Rightarrow> backend \<Rightarrow> string list \<Rightarrow> string list" where
  "jobs_to_cancel D b ids =
     filter (\<lambda>jid. case b_jobs b jid of
               None \<Rightarrow> False | Some r \<Rightarrow> \<not> is_terminal D (j_state (deref b r))) ids"

fun cancel_each :: "deps \<Rightarrow> int \<Rightarrow> string list \<Rightarrow> backend \<Rightarrow> backend" where
  "cancel_each D now [] b = b"
| "cancel_each D now (jid # ids) b = cancel_each D now ids (snd (Cancel D now jid b))"

definition CancelWorkflow :: "deps \<Rightarrow> int \<Rightarrow> string \<Rightarrow> workflow_view op" where
  "CancelWorkflow D now wid b =
     (case b_workflows b wid of
        None \<Rightarrow> (Inl (NotFoundError ''Workflow'' wid), b)
      | Some w \<Rightarrow>
          if w_state w = ''completed'' \<or> w_state w = ''failed'' \<or> w_state w = ''cancelled''
          then (Inl (ConflictError ''Cannot cancel workflow''), b)
          else
            (let ids = jobs_to_cancel D b (w_job_ids w);
                 w' = w\<lparr>w_state := ''cancelled'', w_completed_at := format_time D now\<rparr>;
                 b1 = save_workflow D wid w' b
             in (Inr ((workflow_view_of w')\<lparr>v_callbacks := None\<rparr>), cancel_each D now ids b1)))"

section \<open>Advancing\<close>

definition callback_for :: "workflow_callbacks \<Rightarrow> bool \<Rightarrow> workflow_callback option" where
  "callback_for cs failed =
     (case wcs_on_complete cs of
        Some c \<Rightarrow> Some c
      | None \<Rightarrow> if failed then wcs_on_failure cs else wcs_on_success cs)"

definition callback_job :: "workflow_callback \<Rightarrow> job" where
  "callback_job c = empty_job\<lparr>j_type := wc_type c, j_args := wc_args c,
     j_queue := (case wc_queue c of Some q \<Rightarrow> if q \<noteq> '''' then q else ''default''
                 | None \<Rightarrow> ''default'')\<rparr>"

definition fireWorkflowCallbacks :: "deps \<Rightarrow> int \<Rightarrow> workflow_state \<Rightarrow> bool \<Rightarrow> backend \<Rightarrow> backend" where
  "fireWorkflowCallbacks D now w failed b =
     (case w_callbacks w of
        None \<Rightarrow> b
      | Some cs \<Rightarrow>
          (case callback_for cs failed of
             None \<Rightarrow> b
           | Some c \<Rightarrow> snd (Push D now (callback_job c) b)))"

definition parent_results :: "workflow_state \<Rightarrow> nat \<Rightarrow> string list" where
  "parent_results w stepIdx = List.map_filter (\<lambda>i. w_results w (int i)) [0..<stepIdx]"

definition enqueueChainStep :: "deps \<Rightarrow> int \<Rightarrow> string \<Rightarrow> workflow_state \<Rightarrow> nat \<Rightarrow> backend \<Rightarrow> backend" where
  "enqueueChainStep D now wid w stepIdx b =
     (if length (w_job_defs w) \<le> stepIdx then b
      else
        (let job = (workflowJobToJob (w_job_defs w ! stepIdx) (w_id w) stepIdx)
                     \<lparr>j_parent_results := parent_results w stepIdx\<rparr>
         in case Push D now job b of
              (Inl _, b1) \<Rightarrow> b1
            | (Inr created, b1) \<Rightarrow>
                b1\<lparr>b_workflows := (b_workflows b1)(wid := map_option
                    (\<lambda>w. w\<lparr>w_job_ids := w_job_ids w @ [j_id created]\<rparr>) (b_workflows b1 wid))\<rparr>))"

text \<open>The counters and the new state, before anything is enqueued.\<close>

definition count_result :: "workflow_state \<Rightarrow> int \<Rightarrow> string option \<Rightarrow> bool \<Rightarrow> workflow_state" where
  "count_result w stepIdx result failed =
     (let w1 = (case result of
                  None \<Rightarrow> w | Some d \<Rightarrow> w\<lparr>w_results := (w_results w)(stepIdx \<mapsto> d)\<rparr>)
      in if failed then w1\<lparr>w_failed := Suc (w_failed w1)\<rparr>
         else w1\<lparr>w_completed := Suc (w_completed w1)\<rparr>)"

definition finish :: "deps \<Rightarrow> int \<Rightarrow> string \<Rightarrow> workflow_state \<Rightarrow> workflow_state" where
  "finish D now s w = w\<lparr>w_state := s, w_completed_at := format_time D now\<rparr>"

definition AdvanceWorkflow ::
    "deps \<Rightarrow> int \<Rightarrow> string \<Rightarrow> string \<Rightarrow> string option \<Rightarrow> bool \<Rightarrow> backend \<Rightarrow> backend" where
  "AdvanceWorkflow D now workflowID jobID result failed b =
     (case b_workflows b workflowID of
        None \<Rightarrow> b
      | Some w \<Rightarrow>
          if w_state w \<noteq> ''running'' then b
          else (case b_jobs b jobID of
             None \<Rightarrow> b
           | Some r \<Rightarrow>
               (let w1 = count_result w (j_workflow_step (deref b r)) result failed in
                if w_type w1 = ''chain'' then
                  (if failed then
                     (let w2 = finish D now ''failed'' w1 in
                      fireWorkflowCallbacks D now w2 True (save_workflow D workflowID w2 b))
                   else if w_completed w1 < w_total w1 then
                     enqueueChainStep D now workflowID w1 (w_completed w1)
                       (save_workflow D workflowID w1 b)
                   else
                     (let w2 = finish D now ''completed'' w1 in
                      fireWorkflowCallbacks D now w2 False (save_workflow D workflowID w2 b)))
                else if w_total w1 \<le> w_completed w1 + w_failed w1 then
                  (let w2 = finish D now (if 0 < w_failed w1 then ''failed'' else ''completed'') w1
                   in fireWorkflowCallbacks D now w2 (0 < w_failed w1)
                        (save_workflow D workflowID w2 b))
                else save_workflow D workflowID w1 b)))"

end
