(* ===== verification/Backend_Workers.thy ===== *)
theory Backend_Workers
  imports Backend_Workflows
begin

text \<open>\<open>internal/memory/workers.go\<close>: \<open>Fetch\<close>, \<open>Ack\<close>, \<open>Nack\<close>, \<open>Heartbeat\<close> and \<open>SetWorkerState\<close>.\<close>

section \<open>Fetch\<close>

definition claim_job :: "deps \<Rightarrow> int \<Rightarrow> string \<Rightarrow> int \<Rightarrow> job \<Rightarrow> job" where
  "claim_job D now workerID visMs job =
     job\<lparr>j_state := StateActive, j_started_at := format_time D now, j_worker_id := workerID,
         j_attempt := j_attempt job + 1, j_visibility_timeout_ms := Some visMs\<rparr>"

text \<open>
  The inner loop: pop the front of the queue while it is not empty and fewer than \<open>count\<close> jobs are
  fetched; \<open>room\<close> is \<open>count - len(fetched)\<close>, the list argument is \<open>idx.available\<close>.
\<close>

fun fetch_loop ::
    "deps \<Rightarrow> int \<Rightarrow> string \<Rightarrow> int \<Rightarrow> string \<Rightarrow> nat \<Rightarrow> ref list \<Rightarrow> backend \<Rightarrow> job list \<times> backend" where
  "fetch_loop D now workerID visMs q room [] b = ([], b)"
| "fetch_loop D now workerID visMs q 0 (r # rs) b = ([], b)"
| "fetch_loop D now workerID visMs q (Suc room) (r # rs) b =
     (let b1 = b\<lparr>b_queue_idx := (b_queue_idx b)(q \<mapsto> rs)\<rparr>;
          b2 = update_job r (claim_job D now workerID visMs) b1;
          b3 = persist (SaveJob D (deref b2 r)) b2;
          (fetched, b4) = fetch_loop D now workerID visMs q room rs b3
      in (deref b3 r # fetched, b4))"

fun fetch_queues ::
    "deps \<Rightarrow> int \<Rightarrow> string \<Rightarrow> int \<Rightarrow> nat \<Rightarrow> string list \<Rightarrow> backend \<Rightarrow> job list \<times> backend" where
  "fetch_queues D now workerID visMs room [] b = ([], b)"
| "fetch_queues D now workerID visMs room (q # qs) b =
     (if room = 0 then ([], b)
      else if b_queue_state b q = Some ''paused'' then fetch_queues D now workerID visMs room qs b
      else (case b_queue_idx b q of
         None \<Rightarrow> fetch_queues D now workerID visMs room qs b
       | Some available \<Rightarrow>
           (let (fetched, b1) = fetch_loop D now workerID visMs q room available b;
                (rest, b2) = fetch_queues D now workerID visMs (room - length fetched) qs b1
            in (fetched @ rest, b2))))"

definition record_fetch :: "deps \<Rightarrow> int \<Rightarrow> string \<Rightarrow> string list \<Rightarrow> backend \<Rightarrow> backend" where
  "record_fetch D now workerID ids b =
     (let w = (case b_workers b workerID of
          Some w \<Rightarrow> w\<lparr>wk_active_jobs := wk_active_jobs w @ ids\<rparr>
        | None \<Rightarrow> \<lparr>wk_id = workerID, wk_state = ''active'', wk_directive = ''continue'',
            wk_active_jobs = ids, wk_last_heartbeat = format_time D now\<rparr>)
      in b\<lparr>b_workers := (b_workers b)(workerID \<mapsto> w)\<rparr>)"

definition Fetch :: "deps \<Rightarrow> int \<Rightarrow> string list \<Rightarrow> int \<Rightarrow> string \<Rightarrow> int \<Rightarrow> backend \<Rightarrow> job list \<times> backend" where
  "Fetch D now queues cnt workerID visibilityTimeoutMs b =
     (let cnt = (if cnt \<le> 0 then 1 else cnt);
          visMs = (if visibilityTimeoutMs \<le> 0 then default_visibility_ms D
                   else visibilityTimeoutMs);
          (fetched, b1) = fetch_queues D now workerID visMs (nat cnt) queues b
      in (fetched, record_fetch D now workerID (map j_id fetched) b1))"

section \<open>Ack\<close>

definition removeJobFromWorker :: "string \<Rightarrow> worker_state \<Rightarrow> worker_state" where
  "removeJobFromWorker jobID w =
     w\<lparr>wk_active_jobs := remove_first (\<lambda>jid. jid = jobID) (wk_active_jobs w)\<rparr>"

text \<open>\<open>if worker, ok := b.workers[workerID]; ok { removeJobFromWorker(worker, jobID) }\<close>\<close>

definition release_from_worker :: "string \<Rightarrow> string \<Rightarrow> backend \<Rightarrow> backend" where
  "release_from_worker workerID jobID b =
     (case b_workers b workerID of
        None \<Rightarrow> b
      | Some w \<Rightarrow> b\<lparr>b_workers := (b_workers b)(workerID \<mapsto> removeJobFromWorker jobID w)\<rparr>)"

definition delete_persisted_key :: "job \<Rightarrow> backend \<Rightarrow> backend" where
  "delete_persisted_key job b =
     (case j_unique job of
        None \<Rightarrow> b
      | Some policy \<Rightarrow> persist (DeleteUniqueKey (computeFingerprint policy job)) b)"

record ack_response =
  a_acknowledged :: bool
  a_id :: string
  a_state :: job_state
  a_completed_at :: string

definition Ack :: "deps \<Rightarrow> int \<Rightarrow> string \<Rightarrow> string option \<Rightarrow> ack_response op" where
  "Ack D now jobID result b =
     (case b_jobs b jobID of
        None \<Rightarrow> (Inl (NotFoundError ''Job'' jobID), b)
      | Some r \<Rightarrow>
          if j_state (deref b r) \<noteq> StateActive
          then (Inl (ConflictError ''Job is not in active state.''), b)
          else
            (let b1 = update_job r (\<lambda>j. j\<lparr>j_state := StateCompleted,
                        j_completed_at := format_time D now,
                        j_result := (case result of None \<Rightarrow> j_result j | Some d \<Rightarrow> Some d)\<rparr>) b;
                 b2 = release_from_worker (j_worker_id (deref b1 r)) jobID b1;
                 b3 = cleanupUniqueKey (deref b2 r) b2;
                 b4 = delete_persisted_key (deref b3 r) (persist (SaveJob D (deref b3 r)) b3);
                 workflowID = j_workflow_id (deref b4 r);
                 b5 = (if workflowID \<noteq> ''''
                       then AdvanceWorkflow D now workflowID jobID result False b4 else b4)
             in (Inr \<lparr>a_acknowledged = True, a_id = jobID, a_state = StateCompleted,
                   a_completed_at = j_completed_at (deref b5 r)\<rparr>, b5)))"

section \<open>Nack\<close>

record nack_response =
  n_id :: string
  n_state :: job_state
  n_attempt :: int
  n_max_attempts :: int
  n_discarded_at :: string
  n_next_attempt_at :: string

definition nack_error :: "deps \<Rightarrow> job_error option \<Rightarrow> job \<Rightarrow> job" where
  "nack_error D jobErr job =
     (case jobErr of
        None \<Rightarrow> job
      | Some e \<Rightarrow>
          (let errJSON = (case marshal_error D e of
                 Some d \<Rightarrow> d | None \<Rightarrow> ''{\"message\":\"marshal error\"}'')
           in job\<lparr>j_error := Some errJSON, j_errors := j_errors job @ [errJSON]\<rparr>))"

definition job_retry_policy :: "deps \<Rightarrow> job \<Rightarrow> retry_policy" where
  "job_retry_policy D job = (case j_retry job of Some p \<Rightarrow> p | None \<Rightarrow> default_retry D)"

definition job_max_attempts :: "deps \<Rightarrow> job \<Rightarrow> int" where
  "job_max_attempts D job =
     (case j_max_attempts job of Some m \<Rightarrow> m
      | None \<Rightarrow> rp_max_attempts (job_retry_policy D job))"

text \<open>Out of attempts: to the dead letter queue, or only discarded.\<close>

definition nack_exhausted :: "deps \<Rightarrow> int \<Rightarrow> ref \<Rightarrow> string \<Rightarrow> nack_response \<Rightarrow> nack_response op" where
  "nack_exhausted D now r jobID resp b =
     (let onExhaustion = rp_on_exhaustion (job_retry_policy D (deref b r));
          b1 = update_job r (\<lambda>j. j\<lparr>j_state := StateDiscarded\<rparr>) b
      in if onExhaustion = '''' \<or> onExhaustion = ''dead_letter'' then
           (let deadCopy = deref b1 r;
                (d, b2) = alloc deadCopy b1;
                b3 = b2\<lparr>b_dead_jobs := (b_dead_jobs b2)(jobID \<mapsto> d)\<rparr>;
                b4 = cleanupUniqueKey (deref b3 r) b3;
                b5 = delete_persisted_key (deref b4 r)
                       (persist (SaveDeadJob D deadCopy) (persist (SaveJob D (deref b4 r)) b4));
                workflowID = j_workflow_id (deref b5 r);
                b6 = (if workflowID \<noteq> ''''
                      then AdvanceWorkflow D now workflowID jobID None True b5 else b5)
            in (Inr (resp\<lparr>n_state := StateDiscarded, n_discarded_at := format_time D now\<rparr>), b6))
         else
           (let b2 = cleanupUniqueKey (deref b1 r) b1;
                b3 = delete_persisted_key (deref b2 r) (persist (SaveJob D (deref b2 r)) b2)
            in (Inr (resp\<lparr>n_state := StateDiscarded\<rparr>), b3)))"

definition Nack :: "deps \<Rightarrow> int \<Rightarrow> string \<Rightarrow> job_error option \<Rightarrow> bool \<Rightarrow> nack_response op" where
  "Nack D now jobID jobErr requeue b =
     (case b_jobs b jobID of
        None \<Rightarrow> (Inl (NotFoundError ''Job'' jobID), b)
      | Some r \<Rightarrow>
          if j_state (deref b r) \<noteq> StateActive
          then (Inl (ConflictError ''Job is not in active state.''), b)
          else
            (let b1 = update_job r (nack_error D jobErr) b;
                 job = deref b1 r;
                 maxAttempts = job_max_attempts D job;
                 resp = \<lparr>n_id = jobID, n_state = StateOther '''', n_attempt = j_attempt job,
                   n_max_attempts = maxAttempts, n_discarded_at = '''', n_next_attempt_at = ''''\<rparr>;
                 b2 = release_from_worker (j_worker_id job) jobID b1
             in if maxAttempts \<le> j_attempt job then nack_exhausted D now r jobID resp b2
                else if requeue then
                  (let b3 = addToQueueIndex r (update_job r (\<lambda>j. j\<lparr>j_state := StateAvailable\<rparr>) b2);
                       b4 = persist (SaveJob D (deref b3 r)) b3
                   in (Inr (resp\<lparr>n_state := StateAvailable\<rparr>), b4))
                else
                  (let retryAt = now + calculate_backoff D (job_retry_policy D job) (j_attempt job);
                       b3 = update_job r (\<lambda>j. j\<lparr>j_state := StateRetryable,
                              j_scheduled_at := format_time D retryAt\<rparr>) b2;
                       b4 = persist (SaveJob D (deref b3 r)) b3
                   in (Inr (resp\<lparr>n_state := StateRetryable,
                         n_next_attempt_at := format_time D retryAt\<rparr>), b4))))"

section \<open>Heartbeat\<close>

record heartbeat_response =
  h_state :: string
  h_directive :: string
  h_jobs_extended :: "string list"
  h_server_time :: string

fun extend_jobs :: "int \<Rightarrow> string list \<Rightarrow> backend \<Rightarrow> string list \<times> backend" where
  "extend_jobs visMs [] b = ([], b)"
| "extend_jobs visMs (jid # ids) b =
     (case b_jobs b jid of
        None \<Rightarrow> extend_jobs visMs ids b
      | Some r \<Rightarrow>
          if j_state (deref b r) \<noteq> StateActive then extend_jobs visMs ids b
          else
            (let b1 = update_job r (\<lambda>j. j\<lparr>j_visibility_timeout_ms := Some visMs\<rparr>) b;
                 (extended, b2) = extend_jobs visMs ids b1
             in (jid # extended, b2)))"

fun test_directive :: "deps \<Rightarrow> backend \<Rightarrow> string list \<Rightarrow> string \<Rightarrow> string" where
  "test_directive D b [] directive = directive"
| "test_directive D b (jid # ids) directive =
     (case b_jobs b jid of
        None \<Rightarrow> test_directive D b ids directive
      | Some r \<Rightarrow>
          (case j_meta (deref b r) of
             None \<Rightarrow> test_directive D b ids directive
           | Some m \<Rightarrow>
               (case meta_string D m ''test_directive'' of
                  None \<Rightarrow> test_directive D b ids directive
                | Some s \<Rightarrow> if s = '''' then test_directive D b ids directive else s)))"

definition Heartbeat ::
    "deps \<Rightarrow> int \<Rightarrow> string \<Rightarrow> string list \<Rightarrow> int \<Rightarrow> backend \<Rightarrow> heartbeat_response \<times> backend" where
  "Heartbeat D now workerID activeJobs visibilityTimeoutMs b =
     (let worker = (case b_workers b workerID of
            Some w \<Rightarrow> w
          | None \<Rightarrow> \<lparr>wk_id = workerID, wk_state = ''active'', wk_directive = ''continue'',
              wk_active_jobs = [], wk_last_heartbeat = ''''\<rparr>);
          worker = worker\<lparr>wk_last_heartbeat := format_time D now, wk_active_jobs := activeJobs\<rparr>;
          b1 = b\<lparr>b_workers := (b_workers b)(workerID \<mapsto> worker)\<rparr>;
          (extended, b2) = extend_jobs visibilityTimeoutMs activeJobs b1;
          directive = (if wk_directive worker = '''' then ''continue'' else wk_directive worker)
      in (\<lparr>h_state = ''active'', h_directive = test_directive D b2 activeJobs directive,
           h_jobs_extended = extended, h_server_time = format_time D now\<rparr>, b2))"

definition SetWorkerState :: "string \<Rightarrow> string \<Rightarrow> backend \<Rightarrow> backend" where
  "SetWorkerState workerID state b =
     (let worker = (case b_workers b workerID of
            Some w \<Rightarrow> w
          | None \<Rightarrow> \<lparr>wk_id = workerID, wk_state = ''active'', wk_directive = '''',
              wk_active_jobs = [], wk_last_heartbeat = ''''\<rparr>)
      in b\<lparr>b_workers := (b_workers b)(workerID \<mapsto> worker\<lparr>wk_directive := state\<rparr>)\<rparr>)"

end
