(* ===== verification/Backend_Scheduler.thy ===== *)
theory Backend_Scheduler
  imports Backend_Workers
begin

text \<open>
  The background operations of \<open>internal/memory/scheduler.go\<close> with the cron registry
  (\<open>cron.go\<close>). A loop \<open>for _, job := range b.jobs\<close> visits the keys in an order Go does not fix: the
  order is the argument \<open>ord\<close>, and a theorem holds for every \<open>ord\<close> that lists the keys of the map
  once each (\<open>visits\<close>).
\<close>

definition visits :: "string list \<Rightarrow> (string \<rightharpoonup> 'v) \<Rightarrow> bool" where
  "visits ord m \<longleftrightarrow> distinct ord \<and> set ord = dom m"

text \<open>\<open>for id, job := range b.jobs\<close>: the keys in order; one deleted meanwhile is not visited.\<close>

fun for_jobs :: "(string \<Rightarrow> ref \<Rightarrow> backend \<Rightarrow> backend) \<Rightarrow> string list \<Rightarrow> backend \<Rightarrow> backend" where
  "for_jobs f [] b = b"
| "for_jobs f (jid # ids) b =
     for_jobs f ids (case b_jobs b jid of None \<Rightarrow> b | Some r \<Rightarrow> f jid r b)"

section \<open>Promotion\<close>

text \<open>The time a waiting job is due: its \<open>ScheduledAt\<close> is set, parses, and is not after \<open>now\<close>.\<close>

definition due :: "deps \<Rightarrow> int \<Rightarrow> job \<Rightarrow> bool" where
  "due D now job =
     (j_scheduled_at job \<noteq> '''' \<and>
      (case parse_time D (j_scheduled_at job) of None \<Rightarrow> False | Some t \<Rightarrow> \<not> now < t))"

definition promote_scheduled_job :: "deps \<Rightarrow> int \<Rightarrow> string \<Rightarrow> ref \<Rightarrow> backend \<Rightarrow> backend" where
  "promote_scheduled_job D now jid r b =
     (if j_state (deref b r) = StateScheduled \<and> due D now (deref b r) then
        (let b1 = addToQueueIndex r (update_job r (\<lambda>j. j\<lparr>j_state := StateAvailable\<rparr>) b)
         in persist (SaveJob D (deref b1 r)) b1)
      else b)"

definition PromoteScheduled :: "deps \<Rightarrow> int \<Rightarrow> string list \<Rightarrow> backend \<Rightarrow> backend" where
  "PromoteScheduled D now ord b = for_jobs (promote_scheduled_job D now) ord b"

definition promote_retry_job :: "deps \<Rightarrow> int \<Rightarrow> string \<Rightarrow> ref \<Rightarrow> backend \<Rightarrow> backend" where
  "promote_retry_job D now jid r b =
     (if j_state (deref b r) = StateRetryable \<and> due D now (deref b r) then
        (let b1 = addToQueueIndex r
               (update_job r (\<lambda>j. j\<lparr>j_state := StateAvailable, j_scheduled_at := ''''\<rparr>) b)
         in persist (SaveJob D (deref b1 r)) b1)
      else b)"

definition PromoteRetries :: "deps \<Rightarrow> int \<Rightarrow> string list \<Rightarrow> backend \<Rightarrow> backend" where
  "PromoteRetries D now ord b = for_jobs (promote_retry_job D now) ord b"

section \<open>Stalled jobs\<close>

text \<open>\<open>startedTime.Add(timeout)\<close>, where both are known.\<close>

definition visibility_deadline :: "deps \<Rightarrow> job \<Rightarrow> int option" where
  "visibility_deadline D job =
     (case j_visibility_timeout_ms job of
        None \<Rightarrow> None
      | Some ms \<Rightarrow>
          if j_started_at job = '''' then None
          else map_option (\<lambda>t. t + ms * 1000000) (parse_time D (j_started_at job)))"

definition requeue_stalled_job :: "deps \<Rightarrow> int \<Rightarrow> string \<Rightarrow> ref \<Rightarrow> backend \<Rightarrow> backend" where
  "requeue_stalled_job D now jid r b =
     (if j_state (deref b r) \<noteq> StateActive then b
      else (case visibility_deadline D (deref b r) of
         None \<Rightarrow> b
       | Some deadline \<Rightarrow>
           if \<not> deadline < now then b
           else
             (let workerID = j_worker_id (deref b r);
                  b1 = addToQueueIndex r (update_job r (\<lambda>j. j\<lparr>j_state := StateAvailable,
                         j_started_at := '''', j_worker_id := ''''\<rparr>) b);
                  b2 = persist (SaveJob D (deref b1 r)) b1
              in release_from_worker workerID (j_id (deref b2 r)) b2)))"

definition RequeueStalled :: "deps \<Rightarrow> int \<Rightarrow> string list \<Rightarrow> backend \<Rightarrow> backend" where
  "RequeueStalled D now ord b = for_jobs (requeue_stalled_job D now) ord b"

section \<open>Retention\<close>

text \<open>\<open>now.Sub(t) > retention\<close> for a time string \<open>s\<close> that is set and parses.\<close>

definition expired :: "deps \<Rightarrow> int \<Rightarrow> int \<Rightarrow> string \<Rightarrow> bool" where
  "expired D now retention s =
     (s \<noteq> '''' \<and> (case parse_time D s of None \<Rightarrow> False | Some t \<Rightarrow> retention < now - t))"

definition drop_job :: "string \<Rightarrow> backend \<Rightarrow> backend" where
  "drop_job jid b = persist (DeleteJob jid) (b\<lparr>b_jobs := (b_jobs b)(jid := None)\<rparr>)"

definition drop_dead_job :: "string \<Rightarrow> backend \<Rightarrow> backend" where
  "drop_dead_job jid b =
     persist (DeleteDeadJob jid) (b\<lparr>b_dead_jobs := (b_dead_jobs b)(jid := None)\<rparr>)"

definition purge_job :: "deps \<Rightarrow> int \<Rightarrow> string \<Rightarrow> ref \<Rightarrow> backend \<Rightarrow> backend" where
  "purge_job D now jid r b =
     (let job = deref b r in
      if j_state job = StateCompleted \<and> j_completed_at job \<noteq> '''' then
        (if expired D now (b_retention_completed b) (j_completed_at job)
         then drop_job jid b else b)
      else if j_state job = StateCancelled \<and> j_cancelled_at job \<noteq> '''' then
        (if expired D now (b_retention_cancelled b) (j_cancelled_at job)
         then drop_job jid b else b)
      else if j_state job = StateDiscarded \<and> j_completed_at job \<noteq> '''' then
        (if expired D now (b_retention_discarded b) (j_completed_at job)
         then drop_dead_job jid (drop_job jid b) else b)
      else b)"

definition PurgeExpired :: "deps \<Rightarrow> int \<Rightarrow> string list \<Rightarrow> backend \<Rightarrow> backend" where
  "PurgeExpired D now ord b = for_jobs (purge_job D now) ord b"

section \<open>Cron\<close>

definition cron_expr :: "cron_job \<Rightarrow> string" where
  "cron_expr c = (if c_expression c = '''' then c_schedule c else c_expression c)"

text \<open>
  With a timezone the expression is parsed with a \<open>CRON_TZ=\<close> prefix first and, when that fails,
  without it; \<open>load_location\<close> is \<open>time.LoadLocation(tz).String()\<close>.
\<close>

definition cron_schedule_of :: "deps \<Rightarrow> cron_job \<Rightarrow> go_error + (int \<Rightarrow> int)" where
  "cron_schedule_of D c =
     (let expr = cron_expr c;
          parsed = (if c_timezone c \<noteq> '''' then
              (case load_location D (c_timezone c) of
                 None \<Rightarrow> Inl (InvalidRequestError ''Invalid timezone'')
               | Some loc \<Rightarrow>
                   (case cron_next D (''CRON_TZ='' @ loc @ '' '' @ expr) of
                      Some s \<Rightarrow> Inr (Some s) | None \<Rightarrow> Inr (cron_next D expr)))
            else Inr (cron_next D expr))
      in case parsed of
           Inl e \<Rightarrow> Inl e
         | Inr None \<Rightarrow> Inl (InvalidRequestError ''Invalid cron expression'')
         | Inr (Some s) \<Rightarrow> Inr s)"

definition RegisterCron :: "deps \<Rightarrow> int \<Rightarrow> cron_job \<Rightarrow> cron_job op" where
  "RegisterCron D now c b =
     (case cron_schedule_of D c of
        Inl e \<Rightarrow> (Inl e, b)
      | Inr schedule_next \<Rightarrow>
          (let expr = cron_expr c;
               c' = c\<lparr>c_created_at := format_time D now,
                      c_next_run_at := format_time D (schedule_next now),
                      c_schedule := expr, c_expression := expr,
                      c_overlap_policy := (if c_overlap_policy c = '''' then ''allow''
                                           else c_overlap_policy c),
                      c_enabled := True\<rparr>
           in (Inr c', persist (SaveCron D c') (b\<lparr>b_crons := (b_crons b)(c_name c \<mapsto> c')\<rparr>))))"

text \<open>\<open>ListCron\<close> collects in map order and sorts by name.\<close>

definition ListCron :: "string list \<Rightarrow> backend \<Rightarrow> cron_job list" where
  "ListCron ord b = sort_key c_name (List.map_filter (b_crons b) ord)"

definition DeleteCron :: "string \<Rightarrow> cron_job op" where
  "DeleteCron name b =
     (case b_crons b name of
        None \<Rightarrow> (Inl (NotFoundError ''Cron job'' name), b)
      | Some c \<Rightarrow>
          (Inr c, persist (DeleteCronRow name) (b\<lparr>b_crons := (b_crons b)(name := None)\<rparr>)))"

definition updateCronNextRun :: "deps \<Rightarrow> int \<Rightarrow> cron_job \<Rightarrow> backend \<Rightarrow> backend" where
  "updateCronNextRun D now c b =
     (case cron_next D (cron_expr c) of
        None \<Rightarrow> b
      | Some schedule_next \<Rightarrow>
          (case b_crons b (c_name c) of
             None \<Rightarrow> b
           | Some stored \<Rightarrow>
               (let stored' = stored\<lparr>c_last_run_at := format_time D now,
                                     c_next_run_at := format_time D (schedule_next now)\<rparr>
                in persist (SaveCron D stored')
                     (b\<lparr>b_crons := (b_crons b)(c_name c \<mapsto> stored')\<rparr>))))"

text \<open>Is an unfinished job of this cron among the jobs?\<close>

definition cron_overlaps :: "deps \<Rightarrow> backend \<Rightarrow> cron_job \<Rightarrow> string list \<Rightarrow> bool" where
  "cron_overlaps D b c ord =
     list_ex (\<lambda>jid. case b_jobs b jid of
         None \<Rightarrow> False
       | Some r \<Rightarrow>
           (case j_meta (deref b r) of
              None \<Rightarrow> False
            | Some m \<Rightarrow> meta_string D m ''cron_name'' = Some (c_name c) \<and>
                \<not> is_terminal D (j_state (deref b r)))) ord"

definition cron_due :: "deps \<Rightarrow> int \<Rightarrow> cron_job \<Rightarrow> bool" where
  "cron_due D now c =
     (c_enabled c \<and> c_next_run_at c \<noteq> '''' \<and>
      (case parse_time D (c_next_run_at c) of None \<Rightarrow> False | Some t \<Rightarrow> \<not> now < t))"

definition cron_job_to_push :: "deps \<Rightarrow> cron_job \<Rightarrow> job" where
  "cron_job_to_push D c =
     (let (ty, args, q) = (case c_template c of
            None \<Rightarrow> ('''', None, '''')
          | Some t \<Rightarrow> (ct_type t, ct_args t,
              (case ct_queue t of None \<Rightarrow> '''' | Some q \<Rightarrow> q)));
          queue = (if q = '''' then ''default'' else q)
      in empty_job\<lparr>j_type := ty, j_args := args, j_queue := queue,
           j_meta := (if c_overlap_policy c = ''skip'' then marshal_cron_meta D (c_name c)
                      else None)\<rparr>)"

text \<open>
  One cron of the copied list; \<open>ord_of\<close> gives the order in which \<open>b.jobs\<close> is visited at that point.
\<close>

definition fire_cron ::
    "deps \<Rightarrow> int \<Rightarrow> (backend \<Rightarrow> string list) \<Rightarrow> cron_job \<Rightarrow> backend \<Rightarrow> backend" where
  "fire_cron D now ord_of c b =
     (if \<not> cron_due D now c then b
      else if c_overlap_policy c = ''skip'' \<and> cron_overlaps D b c (ord_of b)
      then updateCronNextRun D now c b
      else updateCronNextRun D now c (snd (Push D now (cron_job_to_push D c) b)))"

definition FireCronJobs ::
    "deps \<Rightarrow> int \<Rightarrow> (backend \<Rightarrow> string list) \<Rightarrow> string list \<Rightarrow> backend \<Rightarrow> backend" where
  "FireCronJobs D now ord_of cron_ord b =
     fold (fire_cron D now ord_of) (List.map_filter (b_crons b) cron_ord) b"

end
