(* ===== verification/Backend_Admin.thy ===== *)
theory Backend_Admin
  imports Backend_Scheduler
begin

text \<open>
  Queues (\<open>internal/memory/queues.go\<close>), the dead letter queue (\<open>deadletter.go\<close>), the listings
  (\<open>admin.go\<close>) and the checkpoint store (\<open>checkpoint.go\<close>).
\<close>

section \<open>Queues\<close>

record queue_info =
  qi_name :: string
  qi_status :: string

record stats =
  s_available :: nat
  s_active :: nat
  s_completed :: nat
  s_scheduled :: nat
  s_retryable :: nat
  s_dead :: nat

record queue_stats =
  qs_queue :: string
  qs_status :: string
  qs_stats :: stats

definition queue_status :: "backend \<Rightarrow> string \<Rightarrow> string" where
  "queue_status b name =
     (if b_queue_state b name = Some ''paused'' then ''paused'' else ''active'')"

text \<open>The jobs a map of pointers holds, in the order visited.\<close>

definition jobs_in_order :: "backend \<Rightarrow> (string \<rightharpoonup> ref) \<Rightarrow> string list \<Rightarrow> job list" where
  "jobs_in_order b m ord = map (deref b) (List.map_filter m ord)"

text \<open>\<open>queueMap\<close> is a set of names; \<open>remdups\<close> visits it in some order.\<close>

definition ListQueues :: "string list \<Rightarrow> backend \<Rightarrow> queue_info list" where
  "ListQueues ord b =
     map (\<lambda>name. \<lparr>qi_name = name, qi_status = queue_status b name\<rparr>)
       (remdups (map j_queue (jobs_in_order b (b_jobs b) ord)))"

definition count_state :: "job list \<Rightarrow> string \<Rightarrow> job_state \<Rightarrow> nat" where
  "count_state js name st = length (filter (\<lambda>j. j_queue j = name \<and> j_state j = st) js)"

definition QueueStats :: "string list \<Rightarrow> string list \<Rightarrow> string \<Rightarrow> backend \<Rightarrow> queue_stats" where
  "QueueStats ord dead_ord name b =
     (let js = jobs_in_order b (b_jobs b) ord; ds = jobs_in_order b (b_dead_jobs b) dead_ord
      in \<lparr>qs_queue = name, qs_status = queue_status b name,
          qs_stats = \<lparr>s_available = count_state js name StateAvailable,
            s_active = count_state js name StateActive,
            s_completed = count_state js name StateCompleted,
            s_scheduled = count_state js name StateScheduled,
            s_retryable = count_state js name StateRetryable,
            s_dead = count_state ds name StateDiscarded\<rparr>\<rparr>)"

definition PauseQueue :: "string \<Rightarrow> backend \<Rightarrow> backend" where
  "PauseQueue name b = persist (SaveQueueState name ''paused'')
     (b\<lparr>b_queue_state := (b_queue_state b)(name \<mapsto> ''paused'')\<rparr>)"

definition ResumeQueue :: "string \<Rightarrow> backend \<Rightarrow> backend" where
  "ResumeQueue name b = persist (SaveQueueState name ''active'')
     (b\<lparr>b_queue_state := (b_queue_state b)(name \<mapsto> ''active'')\<rparr>)"

section \<open>Pages\<close>

text \<open>
  The tail of the three listings: nothing past the end, else \<open>xs[offset:end]\<close> with \<open>end\<close> cut at the
  length. A slice expression whose bounds are negative or cross panics.
\<close>

definition page_of :: "int \<Rightarrow> int \<Rightarrow> 'a list \<Rightarrow> go_error + 'a list" where
  "page_of limit offset xs =
     (let total = int (length xs) in
      if total \<le> offset then Inr []
      else
        (let hi = (if total < offset + limit then total else offset + limit) in
         if offset < 0 \<or> hi < offset then Inl (GoPanic ''slice bounds out of range'')
         else Inr (go_slice (nat offset) (nat hi) xs)))"

section \<open>Dead letters\<close>

text \<open>
  \<open>sort.Slice\<close> is not stable: \<open>perm\<close> is the order it leaves, any permutation of the jobs that is
  sorted by descending \<open>CompletedAt\<close> (\<open>sorted_desc\<close>).
\<close>

definition sorted_desc :: "(job \<Rightarrow> string) \<Rightarrow> job list \<Rightarrow> job list \<Rightarrow> bool" where
  "sorted_desc key js perm \<longleftrightarrow>
     mset perm = mset js \<and> sorted_wrt (\<lambda>x y. \<not> key x < key y) perm"

definition ListDeadLetter :: "int \<Rightarrow> int \<Rightarrow> job list \<Rightarrow> (go_error + job list) \<times> nat" where
  "ListDeadLetter limit offset sorted_jobs = (page_of limit offset sorted_jobs, length sorted_jobs)"

definition revive :: "deps \<Rightarrow> int \<Rightarrow> job \<Rightarrow> job" where
  "revive D now j = j\<lparr>j_state := StateAvailable, j_attempt := 0, j_error := None, j_errors := [],
     j_enqueued_at := format_time D now\<rparr>"

definition RetryDeadLetter :: "deps \<Rightarrow> int \<Rightarrow> string \<Rightarrow> job op" where
  "RetryDeadLetter D now jobID b =
     (case b_dead_jobs b jobID of
        None \<Rightarrow> (Inl (NotFoundError ''Dead letter job'' jobID), b)
      | Some r \<Rightarrow>
          (let b1 = update_job r (revive D now)
                 (b\<lparr>b_dead_jobs := (b_dead_jobs b)(jobID := None)\<rparr>);
               b2 = addToQueueIndex r (b1\<lparr>b_jobs := (b_jobs b1)(jobID \<mapsto> r)\<rparr>);
               b3 = persist (SaveJob D (deref b2 r)) (persist (DeleteDeadJob jobID) b2)
           in (Inr (deref b3 r), b3)))"

definition DeleteDeadLetter :: "string \<Rightarrow> unit op" where
  "DeleteDeadLetter jobID b =
     (case b_dead_jobs b jobID of
        None \<Rightarrow> (Inl (NotFoundError ''Dead letter job'' jobID), b)
      | Some _ \<Rightarrow> (Inr (), drop_job jobID (drop_dead_job jobID b)))"

section \<open>Listings\<close>

record job_list_filters =
  f_state :: "job_state option"
  f_queue :: string
  f_type :: string
  f_worker_id :: string

definition matches_filters :: "job_list_filters \<Rightarrow> job \<Rightarrow> bool" where
  "matches_filters f j =
     ((case f_state f of None \<Rightarrow> True | Some s \<Rightarrow> j_state j = s) \<and>
      (f_queue f = '''' \<or> j_queue j = f_queue f) \<and>
      (f_type f = '''' \<or> j_type j = f_type f) \<and>
      (f_worker_id f = '''' \<or> j_worker_id j = f_worker_id f))"

text \<open>The jobs \<open>ListJobs\<close> collects before it sorts them by \<open>CreatedAt\<close>.\<close>

definition filtered_jobs :: "job_list_filters \<Rightarrow> string list \<Rightarrow> backend \<Rightarrow> job list" where
  "filtered_jobs f ord b = filter (matches_filters f) (jobs_in_order b (b_jobs b) ord)"

definition ListJobs :: "int \<Rightarrow> int \<Rightarrow> job list \<Rightarrow> (go_error + job list) \<times> nat" where
  "ListJobs limit offset sorted_jobs = (page_of limit offset sorted_jobs, length sorted_jobs)"

record worker_info =
  wi_id :: string
  wi_state :: string
  wi_directive :: string
  wi_active_jobs :: nat
  wi_last_heartbeat :: string

record worker_summary =
  ws_total :: nat
  ws_running :: nat
  ws_quiet :: nat
  ws_stale :: nat

definition worker_info_of :: "worker_state \<Rightarrow> worker_info" where
  "worker_info_of w = \<lparr>wi_id = wk_id w, wi_state = wk_state w, wi_directive = wk_directive w,
     wi_active_jobs = length (wk_active_jobs w), wi_last_heartbeat = wk_last_heartbeat w\<rparr>"

definition ListWorkers ::
    "int \<Rightarrow> int \<Rightarrow> string list \<Rightarrow> backend \<Rightarrow> (go_error + worker_info list) \<times> worker_summary" where
  "ListWorkers limit offset ord b =
     (let workers = sort_key wi_id (map worker_info_of (List.map_filter (b_workers b) ord));
          quiet = length (filter (\<lambda>w. wi_directive w = ''quiet'') workers)
      in (page_of limit offset workers,
          \<lparr>ws_total = length workers, ws_running = length workers - quiet,
           ws_quiet = quiet, ws_stale = 0\<rparr>))"

section \<open>Checkpoints\<close>

record checkpoint_entry =
  ck_job_id :: string
  ck_state :: string
  ck_sequence :: int
  ck_created_at :: int

type_synonym checkpoint_store = "string \<rightharpoonup> checkpoint_entry"

definition SaveCheckpoint ::
    "int \<Rightarrow> string \<Rightarrow> string \<Rightarrow> checkpoint_store \<Rightarrow> checkpoint_store" where
  "SaveCheckpoint now jobID state stores =
     (let seqno = (case stores jobID of None \<Rightarrow> 1 | Some e \<Rightarrow> ck_sequence e + 1)
      in stores(jobID \<mapsto> \<lparr>ck_job_id = jobID, ck_state = state, ck_sequence = seqno,
           ck_created_at = now\<rparr>))"

definition GetCheckpoint :: "string \<Rightarrow> checkpoint_store \<Rightarrow> go_error + checkpoint_entry" where
  "GetCheckpoint jobID stores =
     (case stores jobID of
        None \<Rightarrow> Inl (PlainError (''checkpoint for job '' @ jobID @ '' not found''))
      | Some e \<Rightarrow> Inr e)"

definition DeleteCheckpoint :: "string \<Rightarrow> checkpoint_store \<Rightarrow> checkpoint_store" where
  "DeleteCheckpoint jobID stores = stores(jobID := None)"

end
