(* ===== verification/Backend_Lifecycle.thy ===== *)
theory Backend_Lifecycle
  imports Backend_Admin
begin

text \<open>
  What every operation of the backend keeps: the well-formedness of the job heap and the queue
  index (\<open>backend_inv\<close>) and the job life cycle (\<open>evolves\<close>). Each operation is a sequence of a few primitive
  changes; the primitives are treated once, and an operation's lemma strings them together with
  \<open>keeps_trans\<close>. \<open>backend_step\<close> is the transition system of all operations.
\<close>

section \<open>The invariant\<close>

text \<open>
  \<^item> the maps hold allocated structs under their own IDs;
  \<^item> a dead letter is a struct of its own: no live job, not queued;
  \<^item> a queue's index has no pointer twice, is sorted, and holds jobs of that queue that are
    available or were cancelled while they waited;
  \<^item> an available job is in the index of its queue.
\<close>

definition inv_maps :: "backend \<Rightarrow> bool" where
  "inv_maps b \<longleftrightarrow>
     (\<forall>i r. b_jobs b i = Some r \<longrightarrow> r < b_next b \<and> j_id (deref b r) = i) \<and>
     (\<forall>i r. b_dead_jobs b i = Some r \<longrightarrow> r < b_next b \<and> j_id (deref b r) = i \<and>
        r \<notin> ran (b_jobs b) \<and> (\<forall>q. r \<notin> set (queued b q)))"

definition waiting_states :: "job_state set" where
  "waiting_states = {StateAvailable, StateCancelled}"

definition inv_queue :: "backend \<Rightarrow> string \<Rightarrow> bool" where
  "inv_queue b q \<longleftrightarrow>
     distinct (queued b q) \<and>
     sorted (map (\<lambda>r. index_key (deref b r)) (queued b q)) \<and>
     (\<forall>r \<in> set (queued b q). r < b_next b \<and> j_queue (deref b r) = q \<and>
        j_state (deref b r) \<in> waiting_states)"

definition inv_available :: "backend \<Rightarrow> bool" where
  "inv_available b \<longleftrightarrow>
     (\<forall>i r. b_jobs b i = Some r \<longrightarrow> j_state (deref b r) = StateAvailable \<longrightarrow>
        r \<in> set (queued b (j_queue (deref b r))))"

definition backend_inv :: "backend \<Rightarrow> bool" where
  "backend_inv b \<longleftrightarrow> inv_maps b \<and> (\<forall>q. inv_queue b q) \<and> inv_available b"

lemma inv_queue_cong:
  assumes "inv_queue b q" "queued b' q = queued b q" "b_next b \<le> b_next b'"
    and "\<And>x. x \<in> set (queued b q) \<Longrightarrow> deref b' x = deref b x"
  shows "inv_queue b' q"
proof -
  have "map (\<lambda>x. index_key (deref b' x)) (queued b' q) =
      map (\<lambda>x. index_key (deref b x)) (queued b q)"
    using assms(2,4) by simp
  then show ?thesis
    using assms unfolding inv_queue_def by (simp only:) (metis order.strict_trans2)
qed

section \<open>The life cycle\<close>

text \<open>
  The transitions the code makes of one job struct. The edge from \<open>StateCancelled\<close> to \<open>StateActive\<close> is
  a cancelled job still in the index when a worker fetches; \<open>openapi.yaml\<close> calls the state terminal.
\<close>

definition transition :: "job_state \<Rightarrow> job_state \<Rightarrow> bool" where
  "transition s t \<longleftrightarrow> (s, t) \<in> {
     (StateScheduled, StateAvailable), (StateRetryable, StateAvailable),
     (StateAvailable, StateActive), (StateCancelled, StateActive),
     (StateActive, StateCompleted), (StateActive, StateRetryable),
     (StateActive, StateDiscarded), (StateActive, StateAvailable),
     (StateAvailable, StateCancelled), (StateScheduled, StateCancelled),
     (StatePending, StateCancelled), (StateActive, StateCancelled),
     (StateRetryable, StateCancelled)}"

text \<open>
  From \<open>b\<close> to \<open>b'\<close> the structs that were allocated moved along transitions; only a dead letter may
  also be made available again.
\<close>

definition evolves :: "backend \<Rightarrow> backend \<Rightarrow> bool" where
  "evolves b b' \<longleftrightarrow> b_next b \<le> b_next b' \<and> ran (b_dead_jobs b') \<subseteq> ran (b_dead_jobs b) \<union> {b_next b..} \<and>
     (\<forall>r < b_next b. r \<notin> ran (b_dead_jobs b) \<longrightarrow>
        transition\<^sup>*\<^sup>* (j_state (deref b r)) (j_state (deref b' r)))"

definition keeps :: "backend \<Rightarrow> backend \<Rightarrow> bool" where
  "keeps b b' \<longleftrightarrow> backend_inv b' \<and> evolves b b'"

lemma evolves_refl [simp]: "evolves b b"
  by (simp add: evolves_def)

lemma evolves_trans:
  assumes "evolves a b" "evolves b c"
  shows "evolves a c"
proof -
  have "transition\<^sup>*\<^sup>* (j_state (deref a r)) (j_state (deref c r))"
    if "r < b_next a" "r \<notin> ran (b_dead_jobs a)" for r
  proof -
    have "r < b_next b" "r \<notin> ran (b_dead_jobs b)"
      using assms(1) that by (auto simp: evolves_def)
    then show ?thesis
      using assms that by (meson evolves_def rtranclp_trans)
  qed
  moreover have "ran (b_dead_jobs c) \<subseteq> ran (b_dead_jobs a) \<union> {b_next a..}"
    using assms unfolding evolves_def by fastforce
  ultimately show ?thesis using assms by (auto simp: evolves_def)
qed

lemma keeps_trans [trans]: "keeps a b \<Longrightarrow> keeps b c \<Longrightarrow> keeps a c"
  by (auto simp: keeps_def intro: evolves_trans)

lemma keeps_inv: "keeps a b \<Longrightarrow> backend_inv b"
  by (simp add: keeps_def)

lemma keeps_refl: "backend_inv b \<Longrightarrow> keeps b b"
  by (simp add: keeps_def)

section \<open>Changes outside the heap, the job maps and the index\<close>

definition same_core :: "backend \<Rightarrow> backend \<Rightarrow> bool" where
  "same_core b b' \<longleftrightarrow> b_store b' = b_store b \<and> b_next b' = b_next b \<and> b_jobs b' = b_jobs b \<and>
     b_dead_jobs b' = b_dead_jobs b \<and> b_queue_idx b' = b_queue_idx b"

lemma same_core_queued: "same_core b b' \<Longrightarrow> queued b' = queued b"
  by (simp add: same_core_def queued_def fun_eq_iff)

lemma keeps_same_core:
  assumes "backend_inv b" "same_core b b'"
  shows "keeps b b'"
  using assms same_core_queued [OF assms(2)]
  by (auto simp: same_core_def keeps_def backend_inv_def inv_maps_def inv_queue_def inv_available_def
    evolves_def)

lemma same_core_persist [simp]: "same_core b (persist f b)"
  by (simp add: same_core_def)

lemma same_core_cleanup [simp]: "same_core b (cleanupUniqueKey j b)"
  by (simp add: same_core_def cleanupUniqueKey_def Let_def split: option.splits)

lemma same_core_release [simp]: "same_core b (release_from_worker w i b)"
  by (simp add: same_core_def release_from_worker_def split: option.splits)

lemma same_core_delete_key [simp]: "same_core b (delete_persisted_key j b)"
  by (simp add: same_core_def delete_persisted_key_def split: option.splits)

lemma same_core_save_workflow [simp]: "same_core b (save_workflow D wid w b)"
  by (simp add: same_core_def save_workflow_def)

lemma same_core_trans: "same_core a b \<Longrightarrow> same_core b c \<Longrightarrow> same_core a c"
  by (simp add: same_core_def)

lemma same_core_refl [simp]: "same_core b b"
  by (simp add: same_core_def)

text \<open>Appending a change of that kind to a sequence.\<close>

lemma keeps_then_same:
  assumes "keeps a b" "same_core b c"
  shows "keeps a c"
  using keeps_trans [OF assms(1) keeps_same_core [OF keeps_inv [OF assms(1)] assms(2)]] .

section \<open>Writing fields of a job\<close>

text \<open>The fields the index and the maps depend on.\<close>

definition frame_ok :: "job \<Rightarrow> job \<Rightarrow> bool" where
  "frame_ok j j' \<longleftrightarrow> j_id j' = j_id j \<and> j_queue j' = j_queue j \<and> index_key j' = index_key j"

lemma keeps_update_job:
  assumes "backend_inv b" and "frame_ok (deref b r) (f (deref b r))"
    and "transition\<^sup>*\<^sup>* (j_state (deref b r)) (j_state (f (deref b r)))"
    and queued: "r \<in> set (queued b (j_queue (deref b r))) \<Longrightarrow>
      j_state (f (deref b r)) \<in> waiting_states"
    and available: "j_state (f (deref b r)) = StateAvailable \<Longrightarrow>
      j_state (deref b r) = StateAvailable"
  shows "keeps b (update_job r f b)"
proof -
  let ?b = "update_job r f b"
  have key: "(\<lambda>x. index_key (deref ?b x)) = (\<lambda>x. index_key (deref b x))"
    using assms(2) by (auto simp: frame_ok_def)
  have maps: "inv_maps ?b"
    using assms(1,2) by (auto simp: backend_inv_def inv_maps_def frame_ok_def)
  have "inv_queue ?b q" for q
  proof -
    have iq: "inv_queue b q" using assms(1) by (simp add: backend_inv_def)
    then have "sorted (map (\<lambda>x. index_key (deref ?b x)) (queued ?b q))"
      unfolding key by (simp add: inv_queue_def)
    moreover have "\<forall>x \<in> set (queued ?b q). x < b_next ?b \<and> j_queue (deref ?b x) = q \<and>
        j_state (deref ?b x) \<in> waiting_states"
      using iq assms(2) queued by (auto simp: inv_queue_def frame_ok_def)
    ultimately show ?thesis using iq by (simp add: inv_queue_def)
  qed
  moreover have "inv_available ?b"
    using assms(1,2) available by (auto simp: backend_inv_def inv_available_def frame_ok_def)
  moreover have "evolves b ?b"
    using assms(3) by (simp add: evolves_def)
  ultimately show ?thesis using maps by (simp add: keeps_def backend_inv_def)
qed

lemma inv_not_queued:
  assumes "backend_inv b" "j_state (deref b r) \<notin> waiting_states"
  shows "r \<notin> set (queued b q)"
  using assms by (auto simp: backend_inv_def inv_queue_def)

text \<open>A struct in no index: any transition that does not make it available.\<close>

lemma keeps_update_active:
  assumes "backend_inv b" "j_state (deref b r) = StateActive"
    and "frame_ok (deref b r) (f (deref b r))"
    and "j_state (f (deref b r)) \<in> {StateActive, StateCompleted, StateRetryable, StateDiscarded}"
  shows "keeps b (update_job r f b)"
proof (rule keeps_update_job [where f = f and r = r, OF assms(1,3)])
  show "transition\<^sup>*\<^sup>* (j_state (deref b r)) (j_state (f (deref b r)))"
    using assms(2,4) by (auto simp: transition_def)
  show "j_state (f (deref b r)) \<in> waiting_states" if "r \<in> set (queued b (j_queue (deref b r)))"
    using that inv_not_queued [OF assms(1), of r] assms(2) by (simp add: waiting_states_def)
  show "j_state (deref b r) = StateAvailable" if "j_state (f (deref b r)) = StateAvailable"
    using that assms(4) by simp
qed

lemma keeps_cancel:
  assumes "backend_inv b" "j_state (deref b r) \<in> {StateAvailable, StateScheduled, StatePending, StateActive,
      StateRetryable}"
  shows "keeps b (update_job r (\<lambda>j. j\<lparr>j_state := StateCancelled, j_cancelled_at := s\<rparr>) b)"
  by (rule keeps_update_job [OF assms(1)])
     (use assms(2) in \<open>auto simp: frame_ok_def index_key_def job_priority_def transition_def
        waiting_states_def\<close>)

section \<open>Entering and leaving the index\<close>

text \<open>The invariant but for one struct, which is about to enter its index.\<close>

definition inv_except :: "ref \<Rightarrow> backend \<Rightarrow> bool" where
  "inv_except r b \<longleftrightarrow> inv_maps b \<and> (\<forall>q. inv_queue b q) \<and>
     (\<forall>i x. b_jobs b i = Some x \<longrightarrow> x \<noteq> r \<longrightarrow> j_state (deref b x) = StateAvailable \<longrightarrow>
        x \<in> set (queued b (j_queue (deref b x))))"

lemma inv_except_available:
  assumes "inv_except r b"
    and "j_state (deref b r) = StateAvailable \<Longrightarrow> r \<in> set (queued b (j_queue (deref b r)))"
  shows "inv_available b"
  using assms unfolding inv_except_def inv_available_def by blast

lemma inv_enter_index:
  assumes "inv_except r b" "r < b_next b" "r \<notin> ran (b_dead_jobs b)"
    and notq: "\<And>q. r \<notin> set (queued b q)" and "j_state (deref b r) = StateAvailable"
  shows "backend_inv (addToQueueIndex r b)"
proof -
  let ?b = "addToQueueIndex r b"
  have queued: "queued ?b q = (if q = j_queue (deref b r)
      then index_insert (b_store b) r (queued b q) else queued b q)" for q
    using assms(5) by (simp add: queued_addToQueueIndex)
  have setq: "set (queued ?b q) =
      (if q = j_queue (deref b r) then insert r (set (queued b q)) else set (queued b q))" for q
    by (simp add: queued)
  have iq: "inv_queue b q" for q using assms(1) by (simp add: inv_except_def)
  have "inv_maps ?b"
    using assms(1,3) unfolding inv_except_def inv_maps_def
    by (auto simp: setq ran_def split: if_splits)
  moreover have "inv_queue ?b q" for q
  proof -
    have sorted: "sorted (map (\<lambda>x. index_key (deref b x)) (queued b q))"
      using iq [of q] by (simp add: inv_queue_def)
    have "sorted (map (\<lambda>x. index_key (deref b x)) (queued ?b q))"
      unfolding queued using sorted qidx.ins_sorted [OF sorted, of r] by (metis (full_types))
    moreover have "distinct (queued ?b q)"
      using iq [of q] notq [of q] by (auto simp: queued inv_queue_def qidx.ins_distinct)
    ultimately show ?thesis
      using iq [of q] assms(2,5)
      by (auto simp: inv_queue_def setq waiting_states_def split: if_splits)
  qed
  moreover have "inv_available ?b"
  proof -
    have "x \<in> set (queued ?b (j_queue (deref ?b x)))"
      if "b_jobs ?b i = Some x" "j_state (deref ?b x) = StateAvailable" for i x
    proof -
      have "x = r \<or> x \<in> set (queued b (j_queue (deref b x)))"
        using assms(1) \<open>b_jobs ?b i = Some x\<close> \<open>j_state (deref ?b x) = StateAvailable\<close>
        unfolding inv_except_def by auto
      then show ?thesis by (auto simp: setq)
    qed
    then show ?thesis by (simp add: inv_available_def)
  qed
  ultimately show ?thesis by (simp add: backend_inv_def)
qed

text \<open>A write to a struct that is in no index.\<close>

lemma inv_except_update:
  assumes "backend_inv b" "frame_ok (deref b r) (f (deref b r))" "\<And>q. r \<notin> set (queued b q)"
  shows "inv_except r (update_job r f b)"
proof -
  let ?b = "update_job r f b"
  have key: "(\<lambda>x. index_key (deref ?b x)) = (\<lambda>x. index_key (deref b x))"
    using assms(2) by (auto simp: frame_ok_def)
  have "inv_queue ?b q" for q
    using assms(1) assms(3)[of q] unfolding backend_inv_def inv_queue_def key by auto
  then show ?thesis
    using assms(1,2) by (auto simp: inv_except_def backend_inv_def inv_maps_def inv_available_def frame_ok_def)
qed

text \<open>A live job that is not waiting becomes available and enters its index.\<close>

lemma keeps_make_available:
  assumes "backend_inv b" and live: "b_jobs b i = Some r"
    and "frame_ok (deref b r) (f (deref b r))" and "j_state (f (deref b r)) = StateAvailable"
    and "j_state (deref b r) \<in> {StateScheduled, StateRetryable, StateActive}"
  shows "keeps b (addToQueueIndex r (update_job r f b))"
proof -
  have notq: "r \<notin> set (queued b q)" for q
    using inv_not_queued [OF assms(1), of r q] assms(5) by (auto simp: waiting_states_def)
  have r: "r < b_next b" "r \<notin> ran (b_dead_jobs b)"
    using assms(1) live by (auto simp: backend_inv_def inv_maps_def ran_def)
  have "backend_inv (addToQueueIndex r (update_job r f b))"
    by (rule inv_enter_index [OF inv_except_update [where f = f and r = r, OF assms(1,3) notq]])
       (use r notq assms(4) in auto)
  moreover have "evolves b (addToQueueIndex r (update_job r f b))"
    using assms(4,5) by (auto simp: evolves_def transition_def)
  ultimately show ?thesis by (simp add: keeps_def)
qed

text \<open>A new struct enters the jobs; \<open>addToQueueIndex\<close> does nothing unless it is available.\<close>

lemma addToQueueIndex_id: "j_state (deref b r) \<noteq> StateAvailable \<Longrightarrow> addToQueueIndex r b = b"
  by (simp add: addToQueueIndex_def Let_def)

lemma queued_alloc [simp]: "queued (snd (alloc j b)) = queued b"
  by (simp add: alloc_def queued_def fun_eq_iff)

definition insert_job :: "job \<Rightarrow> backend \<Rightarrow> backend" where
  "insert_job j b = (let (r, b1) = alloc j b
     in addToQueueIndex r (b1\<lparr>b_jobs := (b_jobs b1)(j_id j \<mapsto> r)\<rparr>))"

lemma inv_fresh:
  assumes "backend_inv b"
  shows "b_next b \<notin> set (queued b q)" "b_next b \<notin> ran (b_dead_jobs b)" "b_next b \<notin> ran (b_jobs b)"
  using assms by (auto simp: backend_inv_def inv_queue_def inv_maps_def ran_def)

lemma keeps_insert_job:
  assumes "backend_inv b"
  shows "keeps b (insert_job j b)"
proof -
  let ?r = "b_next b"
  let ?b = "b\<lparr>b_store := (b_store b)(?r := j), b_next := Suc ?r, b_jobs := (b_jobs b)(j_id j \<mapsto> ?r)\<rparr>"
  have eq: "insert_job j b = addToQueueIndex ?r ?b"
    by (simp add: insert_job_def alloc_def)
  have queued: "queued ?b = queued b" by (simp add: queued_def fun_eq_iff)
  note fresh = inv_fresh [OF assms]
  have iq: "inv_queue ?b q" for q
  proof -
    have "x \<noteq> ?r" if "x \<in> set (queued b q)" for x using that fresh(1)[of q] by auto
    moreover have "inv_queue b q" using assms by (simp add: backend_inv_def)
    ultimately show ?thesis by (auto intro: inv_queue_cong [of b] simp: queued)
  qed
  have maps: "inv_maps ?b"
    using assms fresh by (auto simp: backend_inv_def inv_maps_def queued ran_def intro: less_SucI)
  have exc: "inv_except ?r ?b"
    using assms iq maps by (auto simp: inv_except_def backend_inv_def inv_available_def queued)
  have "backend_inv (addToQueueIndex ?r ?b)"
  proof (cases "j_state j = StateAvailable")
    case True
    then show ?thesis
      using inv_enter_index [OF exc] fresh by (simp add: queued)
  next
    case False
    have "backend_inv ?b"
      unfolding backend_inv_def
    proof (intro conjI allI)
      show "inv_available ?b"
        by (rule inv_except_available [OF exc]) (simp add: False)
    qed (rule maps iq)+
    then show ?thesis using False by (simp add: addToQueueIndex_id)
  qed
  moreover have "evolves b (addToQueueIndex ?r ?b)"
    by (auto simp: evolves_def)
  ultimately show ?thesis by (simp add: keeps_def eq)
qed

text \<open>Popping the front of a queue and claiming the job.\<close>

lemma keeps_pop_claim:
  assumes "backend_inv b" and idx: "b_queue_idx b q = Some (r # rs)"
    and "frame_ok (deref b r) (f (deref b r))" and active: "j_state (f (deref b r)) = StateActive"
  shows "keeps b (update_job r f (b\<lparr>b_queue_idx := (b_queue_idx b)(q \<mapsto> rs)\<rparr>))"
proof -
  let ?p = "b\<lparr>b_queue_idx := (b_queue_idx b)(q \<mapsto> rs)\<rparr>"
  let ?b = "update_job r f ?p"
  have old: "queued b q = r # rs" using idx by (simp add: queued_def)
  have queued: "queued ?p q' = (if q' = q then rs else queued b q')" for q'
    by (simp add: queued_def)
  have iq: "inv_queue b q'" for q' using assms(1) by (simp add: backend_inv_def)
  have r: "j_queue (deref b r) = q" "r \<notin> set rs" "j_state (deref b r) \<in> waiting_states"
    using iq [of q] by (simp_all add: inv_queue_def old)
  have notin: "r \<notin> set (queued ?b q')" for q'
    using iq [of q'] r unfolding queued_update_job queued inv_queue_def by (auto split: if_splits)
  have key: "(\<lambda>x. index_key (deref ?b x)) = (\<lambda>x. index_key (deref b x))"
    using assms(3) by (auto simp: frame_ok_def)
  have "inv_queue ?b q'" for q'
    using iq [of q'] notin [of q'] unfolding inv_queue_def key
    by (auto simp: queued old split: if_splits)
  moreover have "inv_maps ?b"
  proof -
    have "set rs \<subseteq> set (queued b q)" by (auto simp: old)
    then show ?thesis
      using assms(1,3) unfolding backend_inv_def inv_maps_def
      by (auto simp: queued frame_ok_def split: if_splits)
  qed
  moreover have "inv_available ?b"
  proof -
    have "x \<in> set (queued ?b (j_queue (deref ?b x)))"
      if "b_jobs ?b i = Some x" "j_state (deref ?b x) = StateAvailable" for i x
    proof -
      have "x \<noteq> r" using that(2) active by auto
      moreover have "x \<in> set (queued b (j_queue (deref b x)))"
        using assms(1) that \<open>x \<noteq> r\<close> by (auto simp: backend_inv_def inv_available_def)
      ultimately show ?thesis using old by (auto simp: queued)
    qed
    then show ?thesis by (simp add: inv_available_def)
  qed
  moreover have "evolves b ?b"
    using r active by (auto simp: evolves_def transition_def waiting_states_def)
  ultimately show ?thesis by (simp add: keeps_def backend_inv_def)
qed

text \<open>A copy of a struct becomes a dead letter.\<close>

lemma keeps_bury:
  assumes "backend_inv b" "j_id j = i"
  shows "keeps b (let (d, b1) = alloc j b in b1\<lparr>b_dead_jobs := (b_dead_jobs b1)(i \<mapsto> d)\<rparr>)"
proof -
  let ?r = "b_next b"
  let ?b = "b\<lparr>b_store := (b_store b)(?r := j), b_next := Suc ?r,
    b_dead_jobs := (b_dead_jobs b)(i \<mapsto> ?r)\<rparr>"
  have queued: "queued ?b = queued b" by (simp add: queued_def fun_eq_iff)
  note fresh = inv_fresh [OF assms(1)]
  have "inv_queue ?b q" for q
  proof -
    have "x \<noteq> ?r" if "x \<in> set (queued b q)" for x using that fresh(1)[of q] by auto
    moreover have "inv_queue b q" using assms by (simp add: backend_inv_def)
    ultimately show ?thesis by (auto intro: inv_queue_cong [of b] simp: queued)
  qed
  moreover have "inv_maps ?b"
    using assms fresh by (auto simp: backend_inv_def inv_maps_def queued ran_def intro: less_SucI)
  moreover have "inv_available ?b"
    using assms fresh(3) by (auto simp: backend_inv_def inv_available_def queued ran_def)
  moreover have "evolves b ?b"
    by (auto simp: evolves_def ran_def)
  ultimately show ?thesis by (simp add: keeps_def backend_inv_def alloc_def)
qed

text \<open>A dead letter is taken out and made available.\<close>

lemma keeps_revive:
  assumes "backend_inv b" and dead: "b_dead_jobs b i = Some r"
    and "j_id (f (deref b r)) = i" and "j_state (f (deref b r)) = StateAvailable"
  shows "keeps b (addToQueueIndex r ((update_job r f
     (b\<lparr>b_dead_jobs := (b_dead_jobs b)(i := None)\<rparr>))\<lparr>b_jobs := (b_jobs b)(i \<mapsto> r)\<rparr>))"
proof -
  let ?b = "(update_job r f (b\<lparr>b_dead_jobs := (b_dead_jobs b)(i := None)\<rparr>))
    \<lparr>b_jobs := (b_jobs b)(i \<mapsto> r)\<rparr>"
  have queued: "queued ?b = queued b" by (simp add: queued_def fun_eq_iff)
  have r: "r < b_next b" "r \<notin> ran (b_jobs b)" "\<And>q. r \<notin> set (queued b q)" "j_id (deref b r) = i"
    using assms(1) dead by (auto simp: backend_inv_def inv_maps_def)
  have iq: "inv_queue ?b q" for q
  proof -
    have "x \<noteq> r" if "x \<in> set (queued b q)" for x using that r(3)[of q] by auto
    moreover have "inv_queue b q" using assms by (simp add: backend_inv_def)
    ultimately show ?thesis by (auto intro: inv_queue_cong [of b] simp: queued)
  qed
  have other: "b_dead_jobs b k \<noteq> Some r" if "k \<noteq> i" for k
    using assms(1) r(4) that by (auto simp: backend_inv_def inv_maps_def)
  have maps: "inv_maps ?b"
    using assms(1,3) r other by (auto simp: backend_inv_def inv_maps_def queued ran_def)
  have exc: "inv_except r ?b"
    using assms(1) iq maps r(2)
    by (auto simp: inv_except_def backend_inv_def inv_available_def queued)
  have "backend_inv (addToQueueIndex r ?b)"
    by (rule inv_enter_index [OF exc]) (use r other assms(4) in \<open>auto simp: queued ran_def\<close>)
  moreover have "evolves b (addToQueueIndex r ?b)"
    using dead by (auto simp: evolves_def ran_def split: if_splits)
  ultimately show ?thesis by (simp add: keeps_def)
qed

text \<open>Entries leave the maps.\<close>

lemma keeps_drop:
  assumes "backend_inv b"
  shows "keeps b (b\<lparr>b_jobs := (b_jobs b)(i := None)\<rparr>)"
    and "keeps b (b\<lparr>b_dead_jobs := (b_dead_jobs b)(i := None)\<rparr>)"
  using assms
  by (auto simp: keeps_def backend_inv_def inv_maps_def inv_queue_def inv_available_def evolves_def
    queued_def ran_def split: if_splits)

end
