(* ===== verification/Backend_Invariant.thy ===== *)
theory Backend_Invariant
  imports Backend_Lifecycle
begin

text \<open>
  Every operation of the backend keeps the invariant and moves job structs only along the
  transitions of the life cycle: one lemma \<open>keeps b (op b)\<close> per operation, strung together from the
  primitives of \<open>Backend_Lifecycle\<close>; the transition system of all operations, and the interface
  \<open>guarded_system\<close> through which the facts about every reachable state and every run are drawn.
\<close>

named_theorems keeps_ops "operations that keep the invariant and follow the life cycle"

section \<open>Fields the bookkeeping leaves alone\<close>

lemma release_sel [simp]:
  "b_store (release_from_worker w i b) = b_store b"
  "b_next (release_from_worker w i b) = b_next b"
  "b_jobs (release_from_worker w i b) = b_jobs b"
  "b_dead_jobs (release_from_worker w i b) = b_dead_jobs b"
  "b_queue_idx (release_from_worker w i b) = b_queue_idx b"
  using same_core_release [of b w i] by (simp_all add: same_core_def)

lemma cleanup_sel [simp]:
  "b_store (cleanupUniqueKey j b) = b_store b"
  "b_next (cleanupUniqueKey j b) = b_next b"
  "b_jobs (cleanupUniqueKey j b) = b_jobs b"
  "b_dead_jobs (cleanupUniqueKey j b) = b_dead_jobs b"
  "b_queue_idx (cleanupUniqueKey j b) = b_queue_idx b"
  using same_core_cleanup [of b j] by (simp_all add: same_core_def)

lemma delete_key_sel [simp]:
  "b_store (delete_persisted_key j b) = b_store b"
  "b_next (delete_persisted_key j b) = b_next b"
  "b_jobs (delete_persisted_key j b) = b_jobs b"
  "b_dead_jobs (delete_persisted_key j b) = b_dead_jobs b"
  "b_queue_idx (delete_persisted_key j b) = b_queue_idx b"
  using same_core_delete_key [of b j] by (simp_all add: same_core_def)

lemma save_workflow_sel [simp]:
  "b_store (save_workflow D wid w b) = b_store b"
  "b_next (save_workflow D wid w b) = b_next b"
  "b_jobs (save_workflow D wid w b) = b_jobs b"
  "b_dead_jobs (save_workflow D wid w b) = b_dead_jobs b"
  "b_queue_idx (save_workflow D wid w b) = b_queue_idx b"
  "b_workflows (save_workflow D wid w b) = (b_workflows b)(wid \<mapsto> w)"
  by (simp_all add: save_workflow_def)

text \<open>A bookkeeping change at the end, or at the start, of a sequence.\<close>

lemmas then_same = keeps_then_same [rotated]

lemma same_then:
  assumes "backend_inv a" "same_core a b" "backend_inv b \<Longrightarrow> keeps b c"
  shows "keeps a c"
  using keeps_trans keeps_same_core [OF assms(1,2)] assms(3) keeps_inv by blast

lemma keeps_step:
  assumes "keeps a b" "backend_inv b \<Longrightarrow> keeps b c"
  shows "keeps a c"
  using assms keeps_trans keeps_inv by blast

section \<open>Push\<close>

lemma keeps_same_fields:
  assumes "backend_inv b" "frame_ok (deref b r) (f (deref b r))"
    and "j_state (f (deref b r)) = j_state (deref b r)"
  shows "keeps b (update_job r f b)"
proof (rule keeps_update_job [where f = f and r = r, OF assms(1,2)])
  show "j_state (f (deref b r)) \<in> waiting_states"
    if "r \<in> set (queued b (j_queue (deref b r)))"
    using inv_not_queued [OF assms(1), of r] that assms(3) by auto
qed (use assms(3) in auto)

lemma frame_ok_simps [simp]:
  "frame_ok j (j\<lparr>j_state := s\<rparr>)" "frame_ok j (j\<lparr>j_is_existing := e\<rparr>)"
  "frame_ok j (j\<lparr>j_visibility_timeout_ms := v\<rparr>)"
  "frame_ok j (j\<lparr>j_state := s, j_cancelled_at := c\<rparr>)"
  "frame_ok j (j\<lparr>j_state := s, j_scheduled_at := c\<rparr>)"
  "frame_ok j (j\<lparr>j_state := s, j_completed_at := c, j_result := res\<rparr>)"
  "frame_ok j (j\<lparr>j_state := s, j_started_at := c, j_worker_id := w\<rparr>)"
  "frame_ok j (nack_error D err j)" "frame_ok j (claim_job D now w ms j)"
  by (simp_all add: frame_ok_def index_key_def job_priority_def nack_error_def claim_job_def Let_def
    split: option.splits)

lemma keeps_cancel_documented:
  assumes "backend_inv b" "states_documented D" "is_cancellable D (j_state (deref b r))"
  shows "keeps b (update_job r (\<lambda>j. j\<lparr>j_state := StateCancelled, j_cancelled_at := s\<rparr>) b)"
  using assms by (intro keeps_cancel) (auto simp: states_documentedD)

lemma same_core_push_prepare: "same_core b (snd (push_prepare D now j b))"
  by (simp add: push_prepare_def same_core_def)

lemma keeps_push_conflict:
  assumes "states_documented D" "backend_inv b"
  shows "keeps b (snd (push_conflict D now policy fp i b))"
  using assms
  by (auto simp: push_conflict_def Let_def keeps_refl split: option.splits
    intro!: keeps_same_fields then_same [OF same_core_persist] keeps_cancel_documented)

lemma keeps_push_unique:
  assumes "states_documented D" "backend_inv b"
  shows "keeps b (snd (push_unique D now j b))"
proof (cases "j_unique j")
  case None
  then show ?thesis using assms by (simp add: push_unique_def keeps_refl)
next
  case (Some policy)
  define fp where "fp = computeFingerprint policy j"
  define c where "c = (case b_unique_keys b fp of None \<Rightarrow> (None, b)
    | Some i \<Rightarrow> push_conflict D now policy fp i b)"
  have "keeps b (snd c)"
    using assms by (auto simp: c_def keeps_refl keeps_push_conflict split: option.splits)
  then have "keeps b (persist g (snd c\<lparr>b_unique_keys := u\<rparr>))" for g u
    by (rule keeps_then_same) (simp add: same_core_def)
  then show ?thesis
    using \<open>keeps b (snd c)\<close>
    by (simp add: push_unique_def Some Let_def case_prod_beta flip: fp_def c_def split: option.splits)
qed

lemma push_store_insert:
  "snd (push_store D now j b) = (let j' = fst (push_store D now j b)
     in persist (SaveJob D j') (insert_job j' b))"
  by (simp add: push_store_def insert_job_def alloc_def Let_def addToQueueIndex_id)

lemma keeps_Push [keeps_ops]:
  assumes "states_documented D" "backend_inv b"
  shows "keeps b (snd (Push D now j b))"
proof -
  obtain j1 b1 where p: "push_prepare D now j b = (j1, b1)" by fastforce
  obtain early b2 where u: "push_unique D now j1 b1 = (early, b2)" by fastforce
  have "same_core b b1" using same_core_push_prepare [of b D now j] p by simp
  then have "keeps b b2"
    using keeps_push_unique [OF assms(1), of b1 now j1] u assms(2)
    by (auto intro: same_then)
  then have "keeps b (snd (push_store D now j1 b2))"
    unfolding push_store_insert Let_def
    by (intro keeps_then_same [OF _ same_core_persist]) (rule keeps_step [OF _ keeps_insert_job])
  then show ?thesis
    using \<open>keeps b b2\<close> by (simp add: Push_def p u case_prod_beta split: option.splits)
qed

lemma keeps_push_each [keeps_ops]:
  assumes "states_documented D"
  shows "backend_inv b \<Longrightarrow> keeps b (snd (push_each D now js b))"
proof (induction js arbitrary: b)
  case Nil
  then show ?case by (simp add: keeps_refl)
next
  case (Cons j js)
  have one: "keeps b (snd (Push D now j b))" by (rule keeps_Push [OF assms Cons.prems])
  then have "keeps b (snd (push_each D now js (snd (Push D now j b))))"
    by (rule keeps_step) (rule Cons.IH)
  with one show ?case
    by (cases "Push D now j b") (auto split: sum.splits prod.splits)
qed

lemma keeps_PushBatch [keeps_ops]:
  "states_documented D \<Longrightarrow> backend_inv b \<Longrightarrow> keeps b (snd (PushBatch D now js b))"
  by (simp add: PushBatch_def keeps_refl keeps_push_each split: option.splits)

lemma keeps_Cancel [keeps_ops]:
  assumes "states_documented D" "backend_inv b"
  shows "keeps b (snd (Cancel D now i b))"
  using assms
  by (auto simp: Cancel_def Let_def keeps_refl split: option.splits
    intro!: then_same [OF same_core_persist] then_same [OF same_core_cleanup]
      keeps_cancel_documented)

section \<open>Workflows\<close>

lemma keeps_fire [keeps_ops]:
  assumes "states_documented D" "backend_inv b"
  shows "keeps b (fireWorkflowCallbacks D now w failed b)"
  using assms by (auto simp: fireWorkflowCallbacks_def keeps_refl keeps_Push split: option.splits)

lemma keeps_chain_step [keeps_ops]:
  assumes "states_documented D" "backend_inv b"
  shows "keeps b (enqueueChainStep D now wid w i b)"
proof -
  let ?j = "(workflowJobToJob (w_job_defs w ! i) (w_id w) i)\<lparr>j_parent_results := parent_results w i\<rparr>"
  have one: "keeps b (snd (Push D now ?j b))" by (rule keeps_Push [OF assms])
  then have "keeps b ((snd (Push D now ?j b))\<lparr>b_workflows := m\<rparr>)" for m
    by (rule keeps_then_same) (simp add: same_core_def)
  with one show ?thesis
    using assms(2)
    by (cases "Push D now ?j b") (auto simp: enqueueChainStep_def keeps_refl Let_def split: sum.splits)
qed

lemma keeps_AdvanceWorkflow [keeps_ops]:
  assumes "states_documented D" "backend_inv b"
  shows "keeps b (AdvanceWorkflow D now wid i res failed b)"
proof -
  have save: "keeps b (save_workflow D wid w b)" for w
    by (rule keeps_same_core [OF assms(2)]) simp
  then have "keeps b (fireWorkflowCallbacks D now w' failed' (save_workflow D wid w b))"
    and "keeps b (enqueueChainStep D now wid w' n (save_workflow D wid w b))" for w w' failed' n
    by (blast intro: keeps_step keeps_fire keeps_chain_step assms(1))+
  then show ?thesis
    using save assms(2) by (simp add: AdvanceWorkflow_def Let_def keeps_refl split: option.splits)
qed

lemma keeps_CreateWorkflow [keeps_ops]:
  assumes "states_documented D" "backend_inv b"
  shows "keeps b (snd (CreateWorkflow D now req b))"
proof -
  define wid where "wid = new_uuid D (b_uuid b)"
  define st where "st = new_workflow_state D now wid req"
  define b1 where "b1 = save_workflow D wid st (b\<lparr>b_uuid := Suc (b_uuid b)\<rparr>)"
  have b1: "keeps b b1"
    by (rule keeps_same_core [OF assms(2)]) (simp add: b1_def same_core_def)
  have each: "keeps b (snd (push_each D now js b1))" for js
    by (rule keeps_step [OF b1]) (rule keeps_push_each [OF assms(1)])
  have "keeps b (save_workflow D wid w (snd (push_each D now js b1)))" for js w
    by (rule keeps_then_same [OF each [of js]]) simp
  with b1 each have "keeps b (snd (case jobs_to_enqueue st of
      Inl e \<Rightarrow> (Inl e, b1)
    | Inr js \<Rightarrow> (case push_each D now js b1 of
        (Inl e, b2) \<Rightarrow> (Inl e, b2)
      | (Inr created, b2) \<Rightarrow> (case b_workflows b2 wid of
          None \<Rightarrow> (Inr (workflow_view_of st), b2)
        | Some w \<Rightarrow> (Inr (workflow_view_of st),
            save_workflow D wid (w\<lparr>w_job_ids := w_job_ids w @ map j_id created\<rparr>) b2)))))"
    by (auto split: sum.splits prod.splits option.splits) (metis snd_conv)+
  then show ?thesis
    unfolding CreateWorkflow_def Let_def b1_def st_def wid_def .
qed

lemma keeps_cancel_each [keeps_ops]:
  assumes "states_documented D"
  shows "backend_inv b \<Longrightarrow> keeps b (cancel_each D now ids b)"
  by (induction ids arbitrary: b) (auto simp: keeps_refl intro: keeps_step keeps_Cancel [OF assms])

lemma keeps_CancelWorkflow [keeps_ops]:
  assumes "states_documented D" "backend_inv b"
  shows "keeps b (snd (CancelWorkflow D now wid b))"
  using assms
  by (auto simp: CancelWorkflow_def Let_def keeps_refl split: option.splits
    intro!: same_then [OF assms(2) same_core_save_workflow] keeps_cancel_each)

section \<open>Workers\<close>

lemma keeps_fetch_loop:
  "backend_inv b \<Longrightarrow> b_queue_idx b q = Some xs \<Longrightarrow> keeps b (snd (fetch_loop D now w ms q room xs b))"
proof (induction D now w ms q room xs b rule: fetch_loop.induct)
  case (3 D now w ms q room r rs b)
  define b2 where "b2 = update_job r (claim_job D now w ms) (b\<lparr>b_queue_idx := (b_queue_idx b)(q \<mapsto> rs)\<rparr>)"
  define b3 where "b3 = persist (SaveJob D (deref b2 r)) b2"
  have "keeps b b2"
    unfolding b2_def by (rule keeps_pop_claim [OF "3.prems"]) (simp_all add: claim_job_def frame_ok_def
      index_key_def job_priority_def)
  then have b3: "keeps b b3" unfolding b3_def by (rule keeps_then_same) simp
  moreover have "b_queue_idx b3 q = Some rs" by (simp add: b3_def b2_def)
  then have "keeps b3 (snd (fetch_loop D now w ms q room rs b3))"
    using "3.IH" [OF refl refl refl] keeps_inv [OF b3] by (simp add: b3_def b2_def)
  ultimately have "keeps b (snd (fetch_loop D now w ms q room rs b3))" by (rule keeps_trans)
  then show ?case by (simp add: Let_def case_prod_beta b3_def b2_def)
qed (simp_all add: keeps_refl)

lemma keeps_fetch_queues:
  "backend_inv b \<Longrightarrow> keeps b (snd (fetch_queues D now w ms room qs b))"
  by (induction qs arbitrary: room b)
     (auto simp: keeps_refl Let_def case_prod_beta split: option.splits
       intro: keeps_step [OF keeps_fetch_loop])

lemma same_core_record_fetch [simp]: "same_core b (record_fetch D now w ids b)"
  by (simp add: record_fetch_def same_core_def)

lemma keeps_Fetch [keeps_ops]: "backend_inv b \<Longrightarrow> keeps b (snd (Fetch D now qs n w ms b))"
  by (auto simp: Fetch_def Let_def case_prod_beta
    intro!: then_same [OF same_core_record_fetch] keeps_fetch_queues)

lemma keeps_Ack [keeps_ops]:
  assumes "states_documented D" "backend_inv b"
  shows "keeps b (snd (Ack D now i res b))"
proof (cases "b_jobs b i")
  case None
  then show ?thesis using assms(2) by (simp add: Ack_def keeps_refl)
next
  case (Some r)
  show ?thesis
  proof (cases "j_state (deref b r) = StateActive")
    case False
    then show ?thesis using assms(2) Some by (simp add: Ack_def keeps_refl)
  next
    case True
    define f :: "job \<Rightarrow> job" where "f = (\<lambda>j. j\<lparr>j_state := StateCompleted, j_completed_at := format_time D now,
      j_result := (case res of None \<Rightarrow> j_result j | Some d \<Rightarrow> Some d)\<rparr>)"
    define b1 where "b1 = update_job r f b"
    define b4 where "b4 = (let b2 = release_from_worker (j_worker_id (deref b1 r)) i b1;
        b3 = cleanupUniqueKey (deref b2 r) b2
      in delete_persisted_key (deref b3 r) (persist (SaveJob D (deref b3 r)) b3))"
    have "keeps b b1"
      unfolding b1_def by (rule keeps_update_active [OF assms(2) True]) (simp_all add: f_def)
    moreover have "same_core b1 b4" by (simp add: same_core_def b4_def Let_def)
    ultimately have b4: "keeps b b4" by (rule keeps_then_same)
    then have "keeps b (AdvanceWorkflow D now wid i res False b4)" for wid
      by (rule keeps_step) (rule keeps_AdvanceWorkflow [OF assms(1)])
    with b4 show ?thesis
      by (simp add: Ack_def Some True Let_def b4_def b1_def f_def)
  qed
qed

lemma keeps_nack_exhausted:
  assumes "states_documented D" "backend_inv b" "j_state (deref b r) = StateActive" "j_id (deref b r) = i"
  shows "keeps b (snd (nack_exhausted D now r i resp b))"
proof -
  define b1 where "b1 = update_job r (\<lambda>j. j\<lparr>j_state := StateDiscarded\<rparr>) b"
  define b3 where "b3 = (let (d, b2) = alloc (deref b1 r) b1
    in b2\<lparr>b_dead_jobs := (b_dead_jobs b2)(i \<mapsto> d)\<rparr>)"
  have b1: "keeps b b1"
    unfolding b1_def by (rule keeps_update_active [OF assms(2,3)]) simp_all
  have "keeps b b3"
    unfolding b3_def by (rule keeps_step [OF b1], rule keeps_bury) (simp_all add: b1_def assms(4))
  then have cont: "keeps b c" if "same_core b3 c" for c
    using that by (rule keeps_then_same)
  then have adv: "keeps b (AdvanceWorkflow D now wid i None True c)" if "same_core b3 c" for c wid
    using that by (blast intro: keeps_step keeps_AdvanceWorkflow assms(1))
  have dis: "keeps b c" if "same_core b1 c" for c
    using b1 that by (rule keeps_then_same)
  show ?thesis
    unfolding nack_exhausted_def Let_def case_prod_beta b1_def [symmetric]
    by (simp, intro conjI impI;
        ((rule adv, simp add: same_core_def b3_def Let_def case_prod_beta; fail)
         | (rule cont, simp add: same_core_def b3_def Let_def case_prod_beta; fail)
         | (rule dis, simp add: same_core_def; fail)))
qed

lemma nack_error_sel [simp]:
  "j_id (nack_error D e j) = j_id j" "j_state (nack_error D e j) = j_state j"
  "j_queue (nack_error D e j) = j_queue j" "j_attempt (nack_error D e j) = j_attempt j"
  "j_workflow_id (nack_error D e j) = j_workflow_id j" "j_unique (nack_error D e j) = j_unique j"
  "j_retry (nack_error D e j) = j_retry j" "j_max_attempts (nack_error D e j) = j_max_attempts j"
  "j_worker_id (nack_error D e j) = j_worker_id j"
  by (simp_all add: nack_error_def Let_def split: option.splits)

lemma keeps_Nack [keeps_ops]:
  assumes "states_documented D" "backend_inv b"
  shows "keeps b (snd (Nack D now i err requeue b))"
proof (cases "\<exists>r. b_jobs b i = Some r \<and> j_state (deref b r) = StateActive")
  case False
  then show ?thesis using assms(2) by (auto simp: Nack_def keeps_refl split: option.splits)
next
  case True
  then obtain r where r: "b_jobs b i = Some r" "j_state (deref b r) = StateActive" by blast
  then have jid: "j_id (deref b r) = i" using assms(2) by (auto simp: backend_inv_def inv_maps_def)
  define b2 where "b2 = release_from_worker (j_worker_id (deref (update_job r (nack_error D err) b) r)) i
    (update_job r (nack_error D err) b)"
  have upd: "keeps b (update_job r (nack_error D err) b)"
    by (rule keeps_update_active [OF assms(2) r(2)]) (simp_all add: r)
  then have b2: "keeps b b2"
    unfolding b2_def by (rule keeps_then_same) simp
  have b2r: "deref b2 r = nack_error D err (deref b r)" "b_jobs b2 = b_jobs b"
    by (simp_all add: b2_def)
  note inv2 = keeps_inv [OF b2]
  have exh: "keeps b (snd (nack_exhausted D now r i resp b2))" for resp
    by (rule keeps_trans [OF b2 keeps_nack_exhausted [OF assms(1) inv2]]) (simp_all add: b2r r jid)
  have requeued: "keeps b (persist g (addToQueueIndex r (update_job r (\<lambda>j. j\<lparr>j_state := StateAvailable\<rparr>) b2)))"
    for g
    by (rule keeps_then_same [OF keeps_trans [OF b2 keeps_make_available
        [where r = r and i = i and f = "\<lambda>j. j\<lparr>j_state := StateAvailable\<rparr>", OF inv2]]])
       (simp_all add: b2r r)
  have retried: "keeps b (persist g (update_job r (\<lambda>j. j\<lparr>j_state := StateRetryable,
      j_scheduled_at := t\<rparr>) b2))" for g t
    by (rule keeps_then_same [OF keeps_trans [OF b2 keeps_update_active
        [where r = r and f = "\<lambda>j. j\<lparr>j_state := StateRetryable, j_scheduled_at := t\<rparr>", OF inv2]]])
       (simp_all add: b2r r)
  show ?thesis
    unfolding Nack_def Let_def r option.case b2_def [symmetric]
    by (simp add: exh requeued retried)
qed

lemma keeps_extend_jobs: "backend_inv b \<Longrightarrow> keeps b (snd (extend_jobs ms ids b))"
proof (induction ids arbitrary: b)
  case (Cons i ids)
  have "keeps b (update_job r (\<lambda>j. j\<lparr>j_visibility_timeout_ms := Some ms\<rparr>) b)" for r
    by (rule keeps_same_fields [OF Cons.prems]) simp_all
  then have "keeps b (snd (extend_jobs ms ids
      (update_job r (\<lambda>j. j\<lparr>j_visibility_timeout_ms := Some ms\<rparr>) b)))" for r
    by (rule keeps_step) (rule Cons.IH)
  then show ?case
    using Cons by (simp add: Let_def case_prod_beta split: option.splits)
qed (simp add: keeps_refl)

lemma keeps_Heartbeat [keeps_ops]: "backend_inv b \<Longrightarrow> keeps b (snd (Heartbeat D now w ids ms b))"
  unfolding Heartbeat_def Let_def case_prod_beta snd_conv
  by (rule same_then [OF _ _ keeps_extend_jobs]) (simp_all add: same_core_def)

lemma keeps_SetWorkerState [keeps_ops]: "backend_inv b \<Longrightarrow> keeps b (SetWorkerState w s b)"
  by (rule keeps_same_core) (simp_all add: SetWorkerState_def same_core_def Let_def)

section \<open>Background operations\<close>

lemma keeps_for_jobs:
  assumes "\<And>i r b. backend_inv b \<Longrightarrow> b_jobs b i = Some r \<Longrightarrow> keeps b (f i r b)"
  shows "backend_inv b \<Longrightarrow> keeps b (for_jobs f ord b)"
proof (induction ord arbitrary: b)
  case (Cons i ids)
  have "keeps b (case b_jobs b i of None \<Rightarrow> b | Some r \<Rightarrow> f i r b)"
    using Cons.prems by (auto simp: keeps_refl assms split: option.splits)
  then show ?case by (simp add: keeps_step [OF _ Cons.IH])
qed (simp add: keeps_refl)

lemma keeps_PromoteScheduled [keeps_ops]:
  assumes "backend_inv b" shows "keeps b (PromoteScheduled D now ord b)"
  unfolding PromoteScheduled_def
proof (rule keeps_for_jobs [OF _ assms])
  fix i r and b :: backend assume b: "backend_inv b" "b_jobs b i = Some r"
  have "keeps b (persist g (addToQueueIndex r (update_job r (\<lambda>j. j\<lparr>j_state := StateAvailable\<rparr>) b)))"
    if "j_state (deref b r) = StateScheduled" for g
    by (rule keeps_then_same [OF keeps_make_available [where f = "\<lambda>j. j\<lparr>j_state := StateAvailable\<rparr>", OF b]])
       (simp_all add: that)
  then show "keeps b (promote_scheduled_job D now i r b)"
    by (simp add: promote_scheduled_job_def Let_def keeps_refl b)
qed

lemma keeps_PromoteRetries [keeps_ops]:
  assumes "backend_inv b" shows "keeps b (PromoteRetries D now ord b)"
  unfolding PromoteRetries_def
proof (rule keeps_for_jobs [OF _ assms])
  fix i r and b :: backend assume b: "backend_inv b" "b_jobs b i = Some r"
  have "keeps b (persist g (addToQueueIndex r
      (update_job r (\<lambda>j. j\<lparr>j_state := StateAvailable, j_scheduled_at := ''''\<rparr>) b)))"
    if "j_state (deref b r) = StateRetryable" for g
    by (rule keeps_then_same [OF keeps_make_available
          [where f = "\<lambda>j. j\<lparr>j_state := StateAvailable, j_scheduled_at := ''''\<rparr>", OF b]])
       (simp_all add: that)
  then show "keeps b (promote_retry_job D now i r b)"
    by (simp add: promote_retry_job_def Let_def keeps_refl b)
qed

lemma keeps_RequeueStalled [keeps_ops]:
  assumes "backend_inv b" shows "keeps b (RequeueStalled D now ord b)"
  unfolding RequeueStalled_def
proof (rule keeps_for_jobs [OF _ assms])
  fix i r and b :: backend assume b: "backend_inv b" "b_jobs b i = Some r"
  let ?f = "\<lambda>j. j\<lparr>j_state := StateAvailable, j_started_at := '''', j_worker_id := ''''\<rparr>"
  have "keeps b (release_from_worker w k (persist g (addToQueueIndex r (update_job r ?f b))))"
    if "j_state (deref b r) = StateActive" for g w k
    by (rule keeps_then_same [OF keeps_make_available [where f = ?f, OF b]])
       (simp_all add: that same_core_def)
  then show "keeps b (requeue_stalled_job D now i r b)"
    by (simp add: requeue_stalled_job_def Let_def keeps_refl b split: option.split)
qed

lemma keeps_drop_job [keeps_ops]: "backend_inv b \<Longrightarrow> keeps b (drop_job i b)"
  unfolding drop_job_def by (rule keeps_then_same [OF keeps_drop(1) same_core_persist])

lemma keeps_drop_dead_job [keeps_ops]: "backend_inv b \<Longrightarrow> keeps b (drop_dead_job i b)"
  unfolding drop_dead_job_def by (rule keeps_then_same [OF keeps_drop(2) same_core_persist])

lemma keeps_PurgeExpired [keeps_ops]:
  assumes "backend_inv b" shows "keeps b (PurgeExpired D now ord b)"
  unfolding PurgeExpired_def
  by (rule keeps_for_jobs [OF _ assms])
     (auto simp: purge_job_def Let_def keeps_refl keeps_drop_job
       intro: keeps_step [OF keeps_drop_job keeps_drop_dead_job])

lemma same_core_cron [simp]:
  "same_core b (snd (RegisterCron D now c b))" "same_core b (snd (DeleteCron name b))"
  "same_core b (updateCronNextRun D now c b)"
  by (simp_all add: RegisterCron_def DeleteCron_def updateCronNextRun_def same_core_def Let_def
    split: sum.splits option.splits)

lemma keeps_fire_cron:
  assumes "states_documented D" "backend_inv b"
  shows "keeps b (fire_cron D now ord_of c b)"
proof -
  have "keeps b (updateCronNextRun D now c (snd (Push D now j b)))" for j
    by (rule keeps_then_same [OF keeps_Push [OF assms] same_core_cron(3)])
  then show ?thesis using assms(2) by (simp add: fire_cron_def keeps_refl keeps_same_core)
qed

lemma keeps_FireCronJobs [keeps_ops]:
  assumes "states_documented D" "backend_inv b"
  shows "keeps b (FireCronJobs D now ord_of cron_ord b)"
proof -
  have "keeps b (fold (fire_cron D now ord_of) cs b)" if "backend_inv b" for cs b
    using that
    by (induction cs arbitrary: b)
       (auto simp: keeps_refl intro: keeps_step [OF keeps_fire_cron [OF assms(1)]])
  then show ?thesis using assms(2) by (simp add: FireCronJobs_def)
qed

section \<open>Administration\<close>

lemma keeps_PauseQueue [keeps_ops]: "backend_inv b \<Longrightarrow> keeps b (PauseQueue q b)"
  by (rule keeps_same_core) (simp_all add: PauseQueue_def same_core_def)

lemma keeps_ResumeQueue [keeps_ops]: "backend_inv b \<Longrightarrow> keeps b (ResumeQueue q b)"
  by (rule keeps_same_core) (simp_all add: ResumeQueue_def same_core_def)

lemma keeps_RetryDeadLetter [keeps_ops]:
  assumes "backend_inv b"
  shows "keeps b (snd (RetryDeadLetter D now i b))"
proof (cases "b_dead_jobs b i")
  case None
  then show ?thesis using assms by (simp add: RetryDeadLetter_def keeps_refl)
next
  case (Some r)
  have i: "j_id (deref b r) = i" using assms Some by (auto simp: backend_inv_def inv_maps_def)
  let ?b = "addToQueueIndex r ((update_job r (revive D now)
     (b\<lparr>b_dead_jobs := (b_dead_jobs b)(i := None)\<rparr>))\<lparr>b_jobs := (b_jobs b)(i \<mapsto> r)\<rparr>)"
  have "keeps b ?b"
    by (rule keeps_revive [OF assms Some]) (simp_all add: revive_def i)
  then have "keeps b (persist g (persist h ?b))" for g h
    by (rule keeps_then_same) (simp add: same_core_def)
  then show ?thesis by (simp add: RetryDeadLetter_def Some Let_def)
qed

lemma keeps_DeleteDeadLetter [keeps_ops]:
  "backend_inv b \<Longrightarrow> keeps b (snd (DeleteDeadLetter i b))"
  by (auto simp: DeleteDeadLetter_def keeps_refl split: option.splits
    intro: keeps_step [OF keeps_drop_dead_job keeps_drop_job])

section \<open>The transition system\<close>

text \<open>
  One step is one operation, called by the HTTP or gRPC handlers or by the background scheduler
  under the backend's lock, at any instant and with any arguments.
\<close>

inductive backend_step :: "deps \<Rightarrow> backend \<Rightarrow> backend \<Rightarrow> bool" for D where
  step_Push: "backend_step D b (snd (Push D now j b))"
| step_PushBatch: "backend_step D b (snd (PushBatch D now js b))"
| step_Cancel: "backend_step D b (snd (Cancel D now i b))"
| step_Fetch: "backend_step D b (snd (Fetch D now qs n w ms b))"
| step_Ack: "backend_step D b (snd (Ack D now i res b))"
| step_Nack: "backend_step D b (snd (Nack D now i err requeue b))"
| step_Heartbeat: "backend_step D b (snd (Heartbeat D now w ids ms b))"
| step_SetWorkerState: "backend_step D b (SetWorkerState w s b)"
| step_CreateWorkflow: "backend_step D b (snd (CreateWorkflow D now req b))"
| step_CancelWorkflow: "backend_step D b (snd (CancelWorkflow D now wid b))"
| step_AdvanceWorkflow: "backend_step D b (AdvanceWorkflow D now wid i res failed b)"
| step_PromoteScheduled: "backend_step D b (PromoteScheduled D now ord b)"
| step_PromoteRetries: "backend_step D b (PromoteRetries D now ord b)"
| step_RequeueStalled: "backend_step D b (RequeueStalled D now ord b)"
| step_PurgeExpired: "backend_step D b (PurgeExpired D now ord b)"
| step_RegisterCron: "backend_step D b (snd (RegisterCron D now c b))"
| step_DeleteCron: "backend_step D b (snd (DeleteCron name b))"
| step_FireCronJobs: "backend_step D b (FireCronJobs D now ord_of cron_ord b)"
| step_PauseQueue: "backend_step D b (PauseQueue q b)"
| step_ResumeQueue: "backend_step D b (ResumeQueue q b)"
| step_RetryDeadLetter: "backend_step D b (snd (RetryDeadLetter D now i b))"
| step_DeleteDeadLetter: "backend_step D b (snd (DeleteDeadLetter i b))"

lemma keeps_backend_step:
  assumes "states_documented D" "backend_inv b" "backend_step D b b'"
  shows "keeps b b'"
  using assms(3,1,2) by (cases; simp add: keeps_ops keeps_same_core)

text \<open>
  The interface of a system whose steps preserve an invariant and each move along a preorder: what
  holds of one step holds of every run.
\<close>

locale guarded_system =
  fixes good :: "'s \<Rightarrow> bool" and step :: "'s \<Rightarrow> 's \<Rightarrow> bool" and moves :: "'s \<Rightarrow> 's \<Rightarrow> bool"
  assumes step_good: "good s \<Longrightarrow> step s t \<Longrightarrow> good t"
    and step_moves: "good s \<Longrightarrow> step s t \<Longrightarrow> moves s t"
    and moves_refl: "moves s s"
    and moves_trans: "moves s t \<Longrightarrow> moves t u \<Longrightarrow> moves s u"
begin

lemma run_good_moves: "step\<^sup>*\<^sup>* s t \<Longrightarrow> good s \<Longrightarrow> good t \<and> moves s t"
  by (induction rule: rtranclp_induct) (auto intro: step_good step_moves moves_refl moves_trans)

lemma run_good: "step\<^sup>*\<^sup>* s t \<Longrightarrow> good s \<Longrightarrow> good t"
  by (simp add: run_good_moves)

lemma run_moves: "step\<^sup>*\<^sup>* s t \<Longrightarrow> good s \<Longrightarrow> moves s t"
  by (simp add: run_good_moves)

end

text \<open>States of a backend whose module classifies states as documented.\<close>

definition documented_step :: "deps \<Rightarrow> backend \<Rightarrow> backend \<Rightarrow> bool" where
  "documented_step D b b' \<longleftrightarrow> states_documented D \<and> backend_step D b b'"

interpretation backend_run: guarded_system backend_inv "documented_step D" evolves for D
  by unfold_locales
     (auto simp: documented_step_def keeps_def intro: evolves_trans dest: keeps_backend_step)

lemma documented_run:
  assumes "states_documented D" "(backend_step D)\<^sup>*\<^sup>* b b'"
  shows "(documented_step D)\<^sup>*\<^sup>* b b'"
  using assms(2) by (induction rule: rtranclp_induct)
    (auto simp: documented_step_def assms(1) intro: rtranclp.rtrancl_into_rtrancl)

lemma backend_run_inv:
  assumes "states_documented D" "(backend_step D)\<^sup>*\<^sup>* b b'" "backend_inv b"
  shows "backend_inv b'" and "evolves b b'"
  using backend_run.run_good_moves [OF documented_run [OF assms(1,2)] assms(3)] by simp_all

lemma inv_New: "backend_inv (New D ret None ord dead_ord)"
  by (simp add: New_def WithRetention_def empty_backend_def case_prod_beta backend_inv_def
    inv_maps_def inv_queue_def inv_available_def queued_def)

end
