(* ===== verification/Backend_Samples.thy ===== *)
theory Backend_Samples
  imports Backend_Invariant
begin

text \<open>
  A concrete instance of the code outside the repository, and the states a new backend reaches with it,
  on which the properties of the backend are instantiated: a time is written as a letter for its sign
  and one mark per unit.
\<close>

definition sample_deps :: deps where
  "sample_deps = \<lparr>
     new_uuid = (\<lambda>n. replicate (Suc n) (CHR ''u'')),
     format_time = (\<lambda>t. (if t < 0 then CHR ''-'' else CHR ''t'') # replicate (nat \<bar>t\<bar>) (CHR ''1'')),
     parse_time = (\<lambda>s. case s of [] \<Rightarrow> None
       | c # cs \<Rightarrow> if c = CHR ''t'' then Some (int (length cs)) else Some (- int (length cs))),
     is_terminal = (\<lambda>s. s \<in> {StateCompleted, StateCancelled, StateDiscarded}),
     is_cancellable = (\<lambda>s. s \<in> {StateAvailable, StateScheduled, StatePending, StateActive, StateRetryable}),
     default_retry = \<lparr>rp_max_attempts = 1, rp_on_exhaustion = ''dead_letter'', rp_initial_interval = ''PT1S'',
       rp_max_interval = ''PT5M'', rp_backoff_coefficient = 0, rp_jitter = False\<rparr>,
     calculate_backoff = (\<lambda>p n. n),
     default_visibility_ms = 30000,
     validate_enqueue = (\<lambda>ty args. if ty = '''' then Some (ValidationError ''type'') else None),
     marshal_job = (\<lambda>j. Some (j_id j)),
     unmarshal_job = (\<lambda>s. Some (empty_job\<lparr>j_id := s, j_state := StateAvailable\<rparr>)),
     marshal_cron = (\<lambda>c. Some (c_name c)),
     unmarshal_cron = (\<lambda>s. None),
     marshal_workflow = (\<lambda>w. Some (w_id w)),
     unmarshal_workflow = (\<lambda>s. None),
     marshal_error = (\<lambda>e. Some (je_message e)),
     meta_string = (\<lambda>m k. if k = ''cron_name'' then Some m else None),
     marshal_cron_meta = (\<lambda>n. Some n),
     cron_next = (\<lambda>e. if e = '''' then None
        else Some (\<lambda>t. if take 8 e = ''CRON_TZ='' then t + 2 else t + 1)),
     load_location = (\<lambda>s. Some s)\<rparr>"

lemma sample_documented: "states_documented sample_deps"
  by (simp add: states_documented_def sample_deps_def)

lemma sample_time: "parse_time sample_deps (format_time sample_deps t) = Some t"
  by (simp add: sample_deps_def)

lemma sample_time_roundtrip: "time_roundtrip sample_deps"
  by (simp add: time_roundtrip_def sample_deps_def)

definition sample_new :: backend where
  "sample_new = New sample_deps (1, 1, 1) None [] []"

lemma sample_new_inv: "backend_inv sample_new"
  unfolding sample_new_def by (rule inv_New)

definition sample_job :: "string \<Rightarrow> job" where
  "sample_job i = empty_job\<lparr>j_id := i, j_type := ''email'', j_queue := ''q''\<rparr>"

definition sample_unique :: "string \<Rightarrow> job" where
  "sample_unique i = (sample_job i)\<lparr>j_unique := Some \<lparr>up_keys = [], up_on_conflict = ''reject'', up_states = [], up_period = ''''\<rparr>\<rparr>"

text \<open>One job waiting, and one job taken by a worker.\<close>

definition sample_waiting :: backend where
  "sample_waiting = snd (Push sample_deps 1 (sample_job ''a'') sample_new)"

definition sample_active :: backend where
  "sample_active = snd (Fetch sample_deps 2 [''q''] 1 ''w'' 0 sample_waiting)"

lemma sample_waiting_inv: "backend_inv sample_waiting"
  unfolding sample_waiting_def by (rule keeps_inv [OF keeps_Push [OF sample_documented sample_new_inv]])

lemma sample_active_inv: "backend_inv sample_active"
  unfolding sample_active_def by (rule keeps_inv [OF keeps_Fetch [OF sample_waiting_inv]])

lemma sample_waiting_facts:
  "b_jobs sample_waiting ''a'' = Some 0" "j_state (deref sample_waiting 0) = StateAvailable"
  "j_queue (deref sample_waiting 0) = ''q''" "b_queue_state sample_waiting ''q'' = None"
  "queued sample_waiting ''q'' = [0]" "b_unique_keys sample_waiting = Map.empty"
  "b_workflows sample_waiting = Map.empty" "b_dead_jobs sample_waiting = Map.empty"
  by (simp_all add: sample_waiting_def sample_new_def New_def Push_def push_prepare_def push_unique_def
    push_store_def starts_scheduled_def WithRetention_def empty_backend_def sample_job_def empty_job_def
    alloc_def addToQueueIndex_def index_insert_def slice_insert_def go_search_def queued_def Let_def)

lemma sample_active_facts:
  "b_jobs sample_active ''a'' = Some 0" "j_state (deref sample_active 0) = StateActive"
  "j_id (deref sample_active 0) = ''a''" "j_worker_id (deref sample_active 0) = ''w''"
  "j_started_at (deref sample_active 0) = format_time sample_deps 2"
  "j_visibility_timeout_ms (deref sample_active 0) = Some 30000"
  "j_attempt (deref sample_active 0) = 1" "j_workflow_id (deref sample_active 0) = ''''"
  "j_completed_at (deref sample_active 0) = ''''" "j_queue (deref sample_active 0) = ''q''"
  "j_max_attempts (deref sample_active 0) = None" "j_retry (deref sample_active 0) = None"
  "j_unique (deref sample_active 0) = None"
  "queued sample_active ''q'' = []" "b_workflows sample_active = Map.empty"
  by (simp_all add: sample_active_def sample_waiting_def sample_new_def New_def Push_def push_prepare_def
    push_unique_def push_store_def starts_scheduled_def WithRetention_def empty_backend_def sample_job_def
    empty_job_def alloc_def addToQueueIndex_def index_insert_def slice_insert_def go_search_def queued_def
    Fetch_def record_fetch_def claim_job_def sample_deps_def Let_def)

lemmas sample_unfold = sample_active_def sample_waiting_def sample_new_def New_def Push_def push_prepare_def
  push_unique_def push_store_def starts_scheduled_def WithRetention_def empty_backend_def sample_job_def
  empty_job_def alloc_def addToQueueIndex_def index_insert_def slice_insert_def go_search_def queued_def
  Fetch_def record_fetch_def claim_job_def Let_def

lemma sample_jobs: "b_jobs sample_active = [''a'' \<mapsto> 0]" "b_next sample_active = 1"
  "b_retention_completed sample_active = 1"
  by (simp_all add: sample_unfold sample_deps_def)

text \<open>One job that is scheduled for time 5.\<close>

definition sample_scheduled :: backend where
  "sample_scheduled = snd (Push sample_deps 1 ((sample_job ''a'')\<lparr>j_scheduled_at := format_time sample_deps 5\<rparr>) sample_new)"

lemma sample_scheduled_inv: "backend_inv sample_scheduled"
  unfolding sample_scheduled_def by (rule keeps_inv [OF keeps_Push [OF sample_documented sample_new_inv]])

lemma sample_scheduled_facts:
  "b_jobs sample_scheduled = [''a'' \<mapsto> 0]" "j_state (deref sample_scheduled 0) = StateScheduled"
  "j_scheduled_at (deref sample_scheduled 0) = format_time sample_deps 5"
  by (simp_all add: sample_scheduled_def sample_unfold sample_deps_def)

end
