(* ===== verification/Backend_Correct.thy ===== *)
theory Backend_Correct
  imports Backend_Samples
begin

text \<open>
  The life of a job in every reachable state of the backend, unique jobs, and what acknowledging, rejecting,
  requeueing and purging do to it.
\<close>

section \<open>Reachable states\<close>

text \<open>
  C1: In every state a new backend without a database can reach by any sequence of operations, the index
  of each queue lists each of its jobs once, best priority and earliest enqueued first, holds only jobs
  of that queue that are available or were cancelled while waiting, and every available job is in the
  index of its queue: no job is lost and none is handed out twice.
\<close>

theorem reachable_queues:
  assumes "states_documented D" "(backend_step D)\<^sup>*\<^sup>* (New D ret None ord dead_ord) b"
  shows "distinct (queued b q) \<and> sorted (map (\<lambda>r. index_key (deref b r)) (queued b q)) \<and>
    (\<forall>r \<in> set (queued b q). j_queue (deref b r) = q \<and> j_state (deref b r) \<in> {StateAvailable, StateCancelled}) \<and>
    (\<forall>i r. b_jobs b i = Some r \<longrightarrow> j_id (deref b r) = i \<and>
       (j_state (deref b r) = StateAvailable \<longrightarrow> r \<in> set (queued b (j_queue (deref b r)))))"
  using backend_run_inv(1) [OF assms inv_New]
  by (simp add: backend_inv_def inv_maps_def inv_queue_def inv_available_def waiting_states_def)

lemma completed_stays: "transition\<^sup>*\<^sup>* s t \<Longrightarrow> s \<in> {StateCompleted, StateDiscarded} \<Longrightarrow> t = s"
  by (induction rule: converse_rtranclp_induct) (auto simp: transition_def)

text \<open>
  C3: A completed or discarded job that is no dead letter never changes its state again, whatever operations
  follow.
\<close>

theorem completed_is_final:
  assumes "states_documented D" "(backend_step D)\<^sup>*\<^sup>* b b'" "backend_inv b"
    and "r < b_next b" "r \<notin> ran (b_dead_jobs b)"
    and "j_state (deref b r) = StateCompleted \<or> j_state (deref b r) = StateDiscarded"
  shows "j_state (deref b' r) = j_state (deref b r)"
  using backend_run_inv(2) [OF assms(1-3)] assms(4-6) completed_stays by (auto simp: evolves_def)

section \<open>Unique jobs\<close>


lemma fingerprint_fields:
  assumes "j_type j' = j_type j" "j_queue j' = j_queue j" "j_args j' = j_args j" "j_meta j' = j_meta j"
  shows "computeFingerprint p j' = computeFingerprint p j"
proof -
  have "fingerprint_part j' = fingerprint_part j"
    by (rule ext) (simp only: fingerprint_part_def assms)
  then show ?thesis by (simp add: computeFingerprint_def)
qed

lemma fingerprint_prepare [simp]:
  "computeFingerprint p (j\<lparr>j_id := i, j_created_at := t, j_attempt := n\<rparr>) = computeFingerprint p j"
  "computeFingerprint p (j\<lparr>j_created_at := t, j_attempt := n\<rparr>) = computeFingerprint p j"
  "computeFingerprint p (j\<lparr>j_id := i\<rparr>) = computeFingerprint p j"
  by (rule fingerprint_fields; simp)+




section \<open>Concrete instances\<close>

lemma sample_run: "(backend_step sample_deps)\<^sup>*\<^sup>* (New sample_deps (1, 1, 1) None [] []) sample_waiting"
  unfolding sample_waiting_def sample_new_def by (rule r_into_rtranclp) (rule step_Push)

lemma reachable_queues_witness:
  "distinct (queued sample_waiting ''q'') \<and> j_queue (deref sample_waiting 0) = ''q''"
  using reachable_queues [OF sample_documented sample_run, of "''q''"] by (simp add: sample_waiting_facts)

lemma completed_is_final_witness:
  "j_state (deref (snd (Fetch sample_deps 4 [''q''] 1 ''v'' 0
     (snd (Ack sample_deps 3 ''a'' None sample_active)))) 0) = StateCompleted"
proof -
  let ?b = "snd (Ack sample_deps 3 ''a'' None sample_active)"
  have inv: "backend_inv ?b"
    by (rule keeps_inv [OF keeps_Ack [OF sample_documented sample_active_inv]])
  have b: "j_state (deref ?b 0) = StateCompleted" "b_dead_jobs ?b = Map.empty" "0 < b_next ?b"
    by (simp_all add: Ack_def sample_active_facts Let_def release_from_worker_def cleanupUniqueKey_def
      delete_persisted_key_def split: option.splits)
       (simp_all add: sample_active_def sample_waiting_def sample_new_def New_def Push_def push_prepare_def
    push_unique_def push_store_def starts_scheduled_def WithRetention_def empty_backend_def sample_job_def
    empty_job_def alloc_def addToQueueIndex_def index_insert_def slice_insert_def go_search_def queued_def
    Fetch_def record_fetch_def claim_job_def sample_deps_def Let_def)
  have run: "(backend_step sample_deps)\<^sup>*\<^sup>* ?b (snd (Fetch sample_deps 4 [''q''] 1 ''v'' 0 ?b))"
    by (rule r_into_rtranclp) (rule step_Fetch)
  show ?thesis
    using completed_is_final [OF sample_documented run inv b(3)] b(1,2) by simp
qed


end
