(* ===== verification/Backend_Fetch.thy ===== *)
theory Backend_Fetch
  imports Backend_Samples
begin

text \<open>
  What workers get from the queues: the jobs \<open>Fetch\<close> hands out, their order, and what happens to a job that
  was cancelled while it waited. The lemmas of the first section describe the two loops of \<open>Fetch\<close>; the
  properties follow from them and the invariant of \<open>Backend_Lifecycle\<close>.
\<close>

section \<open>The loops\<close>

lemma fetch_loop_result:
  assumes "distinct xs" "b_queue_idx b q = Some xs"
  shows "fst (fetch_loop D now w ms q n xs b) = map (\<lambda>r. claim_job D now w ms (deref b r)) (take n xs)"
    and "b_store (snd (fetch_loop D now w ms q n xs b)) =
      (\<lambda>r. if r \<in> set (take n xs) then claim_job D now w ms (deref b r) else deref b r)"
    and "b_queue_idx (snd (fetch_loop D now w ms q n xs b)) = (b_queue_idx b)(q \<mapsto> drop n xs)"
    and "b_jobs (snd (fetch_loop D now w ms q n xs b)) = b_jobs b"
    and "b_queue_state (snd (fetch_loop D now w ms q n xs b)) = b_queue_state b"
proof -
  have "fst (fetch_loop D now w ms q n xs b) = map (\<lambda>r. claim_job D now w ms (deref b r)) (take n xs) \<and>
    b_store (snd (fetch_loop D now w ms q n xs b)) =
      (\<lambda>r. if r \<in> set (take n xs) then claim_job D now w ms (deref b r) else deref b r) \<and>
    b_queue_idx (snd (fetch_loop D now w ms q n xs b)) = (b_queue_idx b)(q \<mapsto> drop n xs) \<and>
    b_jobs (snd (fetch_loop D now w ms q n xs b)) = b_jobs b \<and>
    b_queue_state (snd (fetch_loop D now w ms q n xs b)) = b_queue_state b"
    using assms
  proof (induction D now w ms q n xs b rule: fetch_loop.induct)
    case (3 D now w ms q room r rs b)
    let ?b1 = "b\<lparr>b_queue_idx := (b_queue_idx b)(q \<mapsto> rs)\<rparr>"
    let ?b2 = "update_job r (claim_job D now w ms) ?b1"
    let ?b3 = "persist (SaveJob D (deref ?b2 r)) ?b2"
    have rs: "distinct rs" "r \<notin> set rs" using "3.prems"(1) by simp_all
    have same: "deref ?b3 x = deref b x" if "x \<in> set (take room rs)" for x
      using that rs(2) in_set_takeD by fastforce
    have IH: "fst (fetch_loop D now w ms q room rs ?b3) =
          map (\<lambda>r. claim_job D now w ms (deref ?b3 r)) (take room rs) \<and>
        b_store (snd (fetch_loop D now w ms q room rs ?b3)) =
          (\<lambda>r. if r \<in> set (take room rs) then claim_job D now w ms (deref ?b3 r) else deref ?b3 r) \<and>
        b_queue_idx (snd (fetch_loop D now w ms q room rs ?b3)) = (b_queue_idx ?b3)(q \<mapsto> drop room rs) \<and>
        b_jobs (snd (fetch_loop D now w ms q room rs ?b3)) = b_jobs ?b3 \<and>
        b_queue_state (snd (fetch_loop D now w ms q room rs ?b3)) = b_queue_state ?b3"
      by (rule "3.IH" [OF refl refl refl]) (use rs in simp_all)
    have r: "r \<notin> set (take room rs)" using rs(2) by (auto dest: in_set_takeD)
    note IHs = IH [THEN conjunct1] IH [THEN conjunct2, THEN conjunct1]
      IH [THEN conjunct2, THEN conjunct2]
    have store: "b_store (snd (fetch_loop D now w ms q room rs ?b3)) =
        (\<lambda>x. if x \<in> set (take (Suc room) (r # rs)) then claim_job D now w ms (deref b x) else deref b x)"
      unfolding IHs(2) using r by (simp add: fun_eq_iff)
    have first: "map (\<lambda>r. claim_job D now w ms (deref ?b3 r)) (take room rs) =
        map (\<lambda>r. claim_job D now w ms (deref b r)) (take room rs)"
      using same by (intro map_cong refl) simp
    show ?case
      unfolding fetch_loop.simps Let_def case_prod_beta fst_conv snd_conv store IHs(1) first
      using IHs(3) by simp
  qed auto
  then show "fst (fetch_loop D now w ms q n xs b) = map (\<lambda>r. claim_job D now w ms (deref b r)) (take n xs)"
    and "b_store (snd (fetch_loop D now w ms q n xs b)) =
      (\<lambda>r. if r \<in> set (take n xs) then claim_job D now w ms (deref b r) else deref b r)"
    and "b_queue_idx (snd (fetch_loop D now w ms q n xs b)) = (b_queue_idx b)(q \<mapsto> drop n xs)"
    and "b_jobs (snd (fetch_loop D now w ms q n xs b)) = b_jobs b"
    and "b_queue_state (snd (fetch_loop D now w ms q n xs b)) = b_queue_state b"
    by simp_all
qed

text \<open>The batch size \<open>Fetch\<close> uses, and the visibility timeout.\<close>

definition fetch_count :: "int \<Rightarrow> nat" where
  "fetch_count cnt = nat (if cnt \<le> 0 then 1 else cnt)"

definition fetch_visibility :: "deps \<Rightarrow> int \<Rightarrow> int" where
  "fetch_visibility D ms = (if ms \<le> 0 then default_visibility_ms D else ms)"

lemma Fetch_unfold:
  "Fetch D now qs cnt w ms b =
    (let (fs, b1) = fetch_queues D now w (fetch_visibility D ms) (fetch_count cnt) qs b
     in (fs, record_fetch D now w (map j_id fs) b1))"
  by (simp add: Fetch_def fetch_count_def fetch_visibility_def Let_def)

lemma record_fetch_sel [simp]:
  "b_store (record_fetch D now w ids b) = b_store b" "b_jobs (record_fetch D now w ids b) = b_jobs b"
  "b_queue_idx (record_fetch D now w ids b) = b_queue_idx b" "queued (record_fetch D now w ids b) = queued b"
  by (simp_all add: record_fetch_def queued_def fun_eq_iff)

lemma fetch_one_queue:
  assumes "backend_inv b" "b_queue_state b q \<noteq> Some ''paused''" "0 < n"
  shows "fst (fetch_queues D now w ms n [q] b) =
      map (\<lambda>r. claim_job D now w ms (deref b r)) (take n (queued b q))"
    and "queued (snd (fetch_queues D now w ms n [q] b)) q = drop n (queued b q)"
proof -
  have "distinct (queued b q)" using assms(1) by (simp add: backend_inv_def inv_queue_def)
  then have "fst (fetch_queues D now w ms n [q] b) =
        map (\<lambda>r. claim_job D now w ms (deref b r)) (take n (queued b q)) \<and>
      queued (snd (fetch_queues D now w ms n [q] b)) q = drop n (queued b q)"
    using assms(2,3)
    by (cases "b_queue_idx b q") (simp_all add: queued_def case_prod_beta Let_def fetch_loop_result)
  then show "fst (fetch_queues D now w ms n [q] b) =
      map (\<lambda>r. claim_job D now w ms (deref b r)) (take n (queued b q))"
    and "queued (snd (fetch_queues D now w ms n [q] b)) q = drop n (queued b q)" by simp_all
qed

lemma claim_job_sel [simp]:
  "j_id (claim_job D now w ms j) = j_id j" "index_key (claim_job D now w ms j) = index_key j"
  "j_queue (claim_job D now w ms j) = j_queue j"
  "j_state (claim_job D now w ms j) = StateActive" "j_worker_id (claim_job D now w ms j) = w"
  "j_attempt (claim_job D now w ms j) = j_attempt j + 1"
  by (simp_all add: claim_job_def index_key_def job_priority_def)

section \<open>One queue\<close>

text \<open>
  C2: A worker that fetches from one queue that is not paused gets its first jobs, at most as many as it asked
  for (one if it asked for none), best priority and then earliest enqueued first and no worse than any
  job left waiting; each is active under the worker's name with one attempt more, and the rest of the
  queue stays as it was.
\<close>

theorem fetch_takes_the_best:
  assumes "backend_inv b" "b_queue_state b q \<noteq> Some ''paused''"
  shows "fst (Fetch D now [q] cnt w ms b) =
      map (\<lambda>r. claim_job D now w (fetch_visibility D ms) (deref b r)) (take (fetch_count cnt) (queued b q)) \<and>
    queued (snd (Fetch D now [q] cnt w ms b)) q = drop (fetch_count cnt) (queued b q) \<and>
    sorted (map index_key (fst (Fetch D now [q] cnt w ms b))) \<and>
    (\<forall>f \<in> set (fst (Fetch D now [q] cnt w ms b)). \<forall>r \<in> set (drop (fetch_count cnt) (queued b q)).
       index_key f \<le> index_key (deref b r))"
proof -
  let ?n = "fetch_count cnt"
  have n: "0 < ?n" by (simp add: fetch_count_def)
  have fetched: "fst (Fetch D now [q] cnt w ms b) =
      map (\<lambda>r. claim_job D now w (fetch_visibility D ms) (deref b r)) (take ?n (queued b q))"
    using fetch_one_queue(1) [OF assms n]
    unfolding Fetch_unfold Let_def case_prod_beta fst_conv by blast
  moreover have "queued (snd (Fetch D now [q] cnt w ms b)) q = drop ?n (queued b q)"
    using fetch_one_queue(2) [OF assms n]
    unfolding Fetch_unfold Let_def case_prod_beta snd_conv record_fetch_sel by blast
  moreover have keys: "sorted (map (\<lambda>r. index_key (deref b r)) (queued b q))"
    using assms(1) by (simp add: backend_inv_def inv_queue_def)
  then have "sorted (map index_key (fst (Fetch D now [q] cnt w ms b)))"
    unfolding fetched by (simp add: o_def take_map [symmetric] sorted_wrt_take)
  moreover have "index_key (deref b r) \<le> index_key (deref b s)"
    if "r \<in> set (take ?n (queued b q))" "s \<in> set (drop ?n (queued b q))" for r s
    using qidx.prefix_before_rest [OF keys] that by blast
  then have "\<forall>f \<in> set (fst (Fetch D now [q] cnt w ms b)). \<forall>r \<in> set (drop ?n (queued b q)).
      index_key f \<le> index_key (deref b r)"
    unfolding fetched by auto
  ultimately show ?thesis by blast
qed

section \<open>Cancelled jobs\<close>

lemma cleanup_queue_state [simp]: "b_queue_state (cleanupUniqueKey j b) = b_queue_state b"
  by (simp add: cleanupUniqueKey_def Let_def split: option.splits)

lemma Cancel_result:
  assumes "b_jobs b i = Some r" "is_cancellable D (j_state (deref b r))"
  shows "fst (Cancel D now i b) = Inr ((deref b r)\<lparr>j_state := StateCancelled, j_cancelled_at := format_time D now\<rparr>)"
    and "b_store (snd (Cancel D now i b)) = (b_store b)(r :=
      (deref b r)\<lparr>j_state := StateCancelled, j_cancelled_at := format_time D now\<rparr>)"
    and "queued (snd (Cancel D now i b)) = queued b"
    and "b_jobs (snd (Cancel D now i b)) = b_jobs b"
    and "b_queue_state (snd (Cancel D now i b)) = b_queue_state b"
  using assms by (simp_all add: Cancel_def Let_def queued_def fun_eq_iff)

lemma available_queued:
  assumes "backend_inv b" "b_jobs b i = Some r" "j_state (deref b r) = StateAvailable"
  shows "r \<in> set (queued b (j_queue (deref b r)))" and "j_id (deref b r) = i"
  using assms by (auto simp: backend_inv_def inv_available_def inv_maps_def)

text \<open>
  C21: Cancelling an available job succeeds and reports it cancelled, but the job keeps its place in the queue: a
  worker that then fetches enough of the queue is handed the job, active again, although
  \<open>openapi.yaml\<close> calls the cancelled state terminal.
\<close>

theorem cancelled_job_runs:
  assumes "states_documented D" "backend_inv b" "b_jobs b i = Some r"
    and "j_state (deref b r) = StateAvailable" "q = j_queue (deref b r)"
    and "b_queue_state b q \<noteq> Some ''paused''" "length (queued b q) \<le> nat cnt"
  shows "(\<exists>j. fst (Cancel D now i b) = Inr j \<and> j_state j = StateCancelled) \<and>
    (\<exists>f \<in> set (fst (Fetch D now' [q] cnt w ms (snd (Cancel D now i b)))).
       j_id f = i \<and> j_state f = StateActive)"
proof -
  let ?b = "snd (Cancel D now i b)"
  have can: "is_cancellable D (j_state (deref b r))"
    using assms(1,4) by (simp add: states_documentedD)
  note cancel = Cancel_result [OF assms(3) can]
  have r: "r \<in> set (queued b q)" "j_id (deref b r) = i"
    using available_queued [OF assms(2-4)] assms(5) by simp_all
  have "backend_inv ?b" using keeps_Cancel [OF assms(1,2)] by (rule keeps_inv)
  moreover have "b_queue_state ?b q \<noteq> Some ''paused''" using assms(6) cancel(5) by simp
  ultimately have "fst (Fetch D now' [q] cnt w ms ?b) =
      map (\<lambda>r. claim_job D now' w (fetch_visibility D ms) (deref ?b r)) (take (fetch_count cnt) (queued ?b q))"
    using fetch_one_queue(1) [of ?b q "fetch_count cnt"]
    by (simp add: Fetch_unfold case_prod_beta fetch_count_def)
  moreover have "take (fetch_count cnt) (queued ?b q) = queued b q"
    using assms(7) cancel(3) by (cases "cnt \<le> 0") (simp_all add: fetch_count_def)
  ultimately have "claim_job D now' w (fetch_visibility D ms) (deref ?b r)
      \<in> set (fst (Fetch D now' [q] cnt w ms ?b))"
    using r(1) by simp
  moreover have "j_id (deref ?b r) = i" using r(2) cancel(2) by simp
  ultimately have "\<exists>f \<in> set (fst (Fetch D now' [q] cnt w ms ?b)). j_id f = i \<and> j_state f = StateActive"
    by (intro bexI [of _ "claim_job D now' w (fetch_visibility D ms) (deref ?b r)"]) simp_all
  then show ?thesis using cancel(1) by simp
qed

section \<open>Concrete instances\<close>

lemma fetch_takes_the_best_witness:
  "fst (Fetch sample_deps 2 [''q''] 5 ''w'' 0 sample_waiting) =
    [claim_job sample_deps 2 ''w'' 30000 (deref sample_waiting 0)]"
  using fetch_takes_the_best [OF sample_waiting_inv, of "''q''" sample_deps 2 5 "''w''" 0]
  by (simp add: sample_waiting_facts fetch_count_def fetch_visibility_def) (simp add: sample_deps_def)

lemma cancelled_job_runs_witness:
  "\<exists>f \<in> set (fst (Fetch sample_deps 3 [''q''] 1 ''w'' 0 (snd (Cancel sample_deps 2 ''a'' sample_waiting)))).
     j_id f = ''a'' \<and> j_state f = StateActive"
  using cancelled_job_runs [OF sample_documented sample_waiting_inv, of "''a''" 0 "''q''" 1 2 3 "''w''" 0]
  by (simp add: sample_waiting_facts)

end
