(* ===== verification/Backend_Outcomes.thy ===== *)
theory Backend_Outcomes
  imports Backend_Correct
begin

text \<open>
  What \<open>Ack\<close>, \<open>Nack\<close>, \<open>Heartbeat\<close>, \<open>RequeueStalled\<close> and \<open>PurgeExpired\<close> do to a job. Advancing a workflow only
  adds jobs, so it does not touch the job whose result it is told (\<open>added_jobs\<close>).
\<close>

section \<open>Operations that only add jobs\<close>

definition added_jobs :: "backend \<Rightarrow> backend \<Rightarrow> bool" where
  "added_jobs b b' \<longleftrightarrow> b_next b \<le> b_next b' \<and> (\<forall>r < b_next b. deref b' r = deref b r) \<and>
     b_unique_keys b' = b_unique_keys b \<and> b_workers b' = b_workers b \<and> b_dead_jobs b' = b_dead_jobs b \<and>
     dom (b_jobs b) \<subseteq> dom (b_jobs b')"

lemma added_refl [simp]: "added_jobs b b"
  by (simp add: added_jobs_def)

lemma added_trans: "added_jobs a b \<Longrightarrow> added_jobs b c \<Longrightarrow> added_jobs a c"
  unfolding added_jobs_def by (metis order.trans order.strict_trans2)

lemma added_save_workflow [simp]: "added_jobs b (save_workflow D wid w b)"
  by (simp add: added_jobs_def save_workflow_def)

lemma added_Push: "j_unique j = None \<Longrightarrow> added_jobs b (snd (Push D now j b))"
  by (auto simp: added_jobs_def Push_def push_prepare_def push_unique_def push_store_def alloc_def Let_def
    split: if_splits)

lemma added_fire: "added_jobs b (fireWorkflowCallbacks D now w failed b)"
  by (auto simp: fireWorkflowCallbacks_def callback_job_def empty_job_def intro!: added_Push
    split: option.splits)

lemma added_chain_step: "added_jobs b (enqueueChainStep D now wid w n b)"
proof -
  let ?j = "(workflowJobToJob (w_job_defs w ! n) (w_id w) n)\<lparr>j_parent_results := parent_results w n\<rparr>"
  have "added_jobs b (snd (Push D now ?j b))"
    by (rule added_Push) (simp add: workflowJobToJob_def empty_job_def Let_def)
  then show ?thesis
    by (cases "Push D now ?j b"; cases "fst (Push D now ?j b)")
       (auto simp: enqueueChainStep_def Let_def added_jobs_def)
qed

lemma added_AdvanceWorkflow: "added_jobs b (AdvanceWorkflow D now wid i res failed b)"
  by (auto simp: AdvanceWorkflow_def Let_def split: option.splits
    intro: added_trans [OF added_save_workflow added_fire] added_trans [OF added_save_workflow added_chain_step])

section \<open>Acknowledging\<close>

text \<open>
  C5: \<open>Ack\<close> of a job that is not active fails and changes nothing. \<open>Ack\<close> of an active job answers
  \<open>completed\<close>, completes exactly that job, with the result given and the time, takes it off its worker, and
  frees the unique key it holds.
\<close>

theorem ack_completes:
  assumes "backend_inv b" "b_jobs b i = Some r"
  shows "if j_state (deref b r) \<noteq> StateActive
    then Ack D now i res b = (Inl (ConflictError ''Job is not in active state.''), b)
    else (let b' = snd (Ack D now i res b) in
      fst (Ack D now i res b) = Inr \<lparr>a_acknowledged = True, a_id = i, a_state = StateCompleted,
        a_completed_at = format_time D now\<rparr> \<and>
      (\<forall>x < b_next b. deref b' x = (if x = r then (deref b r)\<lparr>j_state := StateCompleted,
         j_completed_at := format_time D now,
         j_result := (case res of None \<Rightarrow> j_result (deref b r) | Some d \<Rightarrow> Some d)\<rparr> else deref b x)) \<and>
      b_workers b' = (b_workers b)(j_worker_id (deref b r) :=
        map_option (removeJobFromWorker i) (b_workers b (j_worker_id (deref b r)))) \<and>
      (\<forall>p. j_unique (deref b r) = Some p \<longrightarrow>
         b_unique_keys b' (computeFingerprint p (deref b r)) \<noteq> Some i))"
proof (cases "j_state (deref b r) = StateActive")
  case False
  then show ?thesis using assms(2) by (simp add: Ack_def)
next
  case True
  have r: "r < b_next b" "j_id (deref b r) = i" using assms by (auto simp: backend_inv_def inv_maps_def)
  define b1 where "b1 = update_job r (\<lambda>j. j\<lparr>j_state := StateCompleted, j_completed_at := format_time D now,
    j_result := (case res of None \<Rightarrow> j_result j | Some d \<Rightarrow> Some d)\<rparr>) b"
  define b2 where "b2 = release_from_worker (j_worker_id (deref b1 r)) i b1"
  define b3 where "b3 = cleanupUniqueKey (deref b2 r) b2"
  define b4 where "b4 = delete_persisted_key (deref b3 r) (persist (SaveJob D (deref b3 r)) b3)"
  define b5 where "b5 = (if j_workflow_id (deref b4 r) \<noteq> ''''
    then AdvanceWorkflow D now (j_workflow_id (deref b4 r)) i res False b4 else b4)"
  have ack: "Ack D now i res b = (Inr \<lparr>a_acknowledged = True, a_id = i, a_state = StateCompleted,
      a_completed_at = j_completed_at (deref b5 r)\<rparr>, b5)"
    using True assms(2) by (simp add: Ack_def b1_def b2_def b3_def b4_def b5_def Let_def)
  have store: "b_store b4 = b_store b1" "b_next b4 = b_next b" by (simp_all add: b1_def b2_def b3_def b4_def)
  have added: "added_jobs b4 b5" by (simp add: b5_def added_AdvanceWorkflow)
  then have jobs: "deref b5 x = deref b1 x" if "x < b_next b" for x
    using that store by (simp add: added_jobs_def)
  have keys: "b_unique_keys b5 = b_unique_keys b3" "b_workers b5 = b_workers b2"
    using added by (simp_all add: added_jobs_def b4_def b3_def delete_persisted_key_def cleanupUniqueKey_def
      Let_def split: option.splits)
  have "b_unique_keys b3 (computeFingerprint p (deref b r)) \<noteq> Some i" if "j_unique (deref b r) = Some p" for p
  proof -
    have "computeFingerprint p (deref b2 r) = computeFingerprint p (deref b r)"
      by (rule fingerprint_fields) (simp_all add: b1_def b2_def)
    moreover have "j_unique (deref b2 r) = Some p" "j_id (deref b2 r) = i"
      using that r(2) by (simp_all add: b1_def b2_def)
    ultimately show ?thesis by (simp add: b3_def cleanupUniqueKey_def Let_def)
  qed
  moreover have "b_workers b2 = (b_workers b)(j_worker_id (deref b r) :=
      map_option (removeJobFromWorker i) (b_workers b (j_worker_id (deref b r))))"
    by (simp add: b2_def b1_def release_from_worker_def fun_eq_iff split: option.splits)
  ultimately show ?thesis
    using True r jobs by (simp add: ack keys Let_def) (simp add: b1_def)
qed

section \<open>Rejecting\<close>

lemma queued_persist [simp]: "queued (persist f b) = queued b"
  by (simp add: queued_def fun_eq_iff)

definition out_of_attempts :: "deps \<Rightarrow> job \<Rightarrow> bool" where
  "out_of_attempts D j \<longleftrightarrow> job_max_attempts D j \<le> j_attempt j"

definition goes_to_dead_letter :: "deps \<Rightarrow> job \<Rightarrow> bool" where
  "goes_to_dead_letter D j \<longleftrightarrow>
     (let x = rp_on_exhaustion (job_retry_policy D j) in x = '''' \<or> x = ''dead_letter'')"

lemma nack_error_policy [simp]:
  "job_retry_policy D (nack_error D e j) = job_retry_policy D j"
  "job_max_attempts D (nack_error D e j) = job_max_attempts D j"
proof -
  show policy: "job_retry_policy D (nack_error D e j) = job_retry_policy D j"
    by (simp add: job_retry_policy_def)
  show "job_max_attempts D (nack_error D e j) = job_max_attempts D j"
    unfolding job_max_attempts_def policy by simp
qed

lemma nack_exhausted_result:
  assumes "r < b_next b"
  shows "\<exists>resp'. fst (nack_exhausted D now r i resp b) = Inr resp' \<and> n_state resp' = StateDiscarded"
    and "deref (snd (nack_exhausted D now r i resp b)) r = (deref b r)\<lparr>j_state := StateDiscarded\<rparr>"
    and "goes_to_dead_letter D (deref b r) \<Longrightarrow> \<exists>d. b_dead_jobs (snd (nack_exhausted D now r i resp b)) i = Some d \<and>
      deref (snd (nack_exhausted D now r i resp b)) d = (deref b r)\<lparr>j_state := StateDiscarded\<rparr>"
    and "\<not> goes_to_dead_letter D (deref b r) \<Longrightarrow> b_dead_jobs (snd (nack_exhausted D now r i resp b)) = b_dead_jobs b"
proof -
  define b1 where "b1 = update_job r (\<lambda>j. j\<lparr>j_state := StateDiscarded\<rparr>) b"
  define b2 where "b2 = (snd (alloc (deref b1 r) b1))\<lparr>b_dead_jobs :=
    (b_dead_jobs b1)(i \<mapsto> fst (alloc (deref b1 r) b1))\<rparr>"
  define b3 where "b3 = cleanupUniqueKey (deref b2 r) b2"
  define b4 where "b4 = delete_persisted_key (deref b3 r)
    (persist (SaveDeadJob D (deref b1 r)) (persist (SaveJob D (deref b3 r)) b3))"
  define b5 where "b5 = (if j_workflow_id (deref b4 r) \<noteq> ''''
    then AdvanceWorkflow D now (j_workflow_id (deref b4 r)) i None True b4 else b4)"
  have dead: "nack_exhausted D now r i resp b = (Inr (resp\<lparr>n_state := StateDiscarded,
      n_discarded_at := format_time D now\<rparr>), b5)" if "goes_to_dead_letter D (deref b r)"
    using that by (simp add: nack_exhausted_def goes_to_dead_letter_def b1_def b2_def b3_def b4_def b5_def
      Let_def case_prod_beta alloc_def)
  have plain: "nack_exhausted D now r i resp b = (Inr (resp\<lparr>n_state := StateDiscarded\<rparr>),
      delete_persisted_key (deref (cleanupUniqueKey (deref b1 r) b1) r)
        (persist (SaveJob D (deref (cleanupUniqueKey (deref b1 r) b1) r)) (cleanupUniqueKey (deref b1 r) b1)))"
    if "\<not> goes_to_dead_letter D (deref b r)"
    using that by (simp add: nack_exhausted_def goes_to_dead_letter_def b1_def Let_def)
  have "added_jobs b4 b5" by (simp add: b5_def added_AdvanceWorkflow)
  then have b5: "deref b5 x = deref b2 x" "b_dead_jobs b5 = b_dead_jobs b2" if "x < Suc (b_next b)" for x
    using that by (simp_all add: added_jobs_def b4_def b3_def b2_def b1_def alloc_def)
  show "\<exists>resp'. fst (nack_exhausted D now r i resp b) = Inr resp' \<and> n_state resp' = StateDiscarded"
    by (cases "goes_to_dead_letter D (deref b r)") (simp_all add: dead plain)
  show "deref (snd (nack_exhausted D now r i resp b)) r = (deref b r)\<lparr>j_state := StateDiscarded\<rparr>"
  proof (cases "goes_to_dead_letter D (deref b r)")
    case True
    then show ?thesis using b5(1) [of r] assms by (simp add: dead) (simp add: b2_def b1_def alloc_def)
  next
    case False
    then show ?thesis by (simp add: plain) (simp add: b1_def)
  qed
  show "\<exists>d. b_dead_jobs (snd (nack_exhausted D now r i resp b)) i = Some d \<and>
      deref (snd (nack_exhausted D now r i resp b)) d = (deref b r)\<lparr>j_state := StateDiscarded\<rparr>"
    if "goes_to_dead_letter D (deref b r)"
    using b5 [of "b_next b"] that
    by (intro exI [of _ "b_next b"]) (simp add: dead, simp add: b2_def b1_def alloc_def)
  show "b_dead_jobs (snd (nack_exhausted D now r i resp b)) = b_dead_jobs b"
    if "\<not> goes_to_dead_letter D (deref b r)"
    using that by (simp add: plain) (simp add: b1_def)
qed

text \<open>
  C4: \<open>Nack\<close> of an active job records the error, then: out of attempts it discards the job, keeping a copy as a dead
  letter exactly when the retry policy says so; otherwise it makes the job available in its queue if
  a requeue was asked for, and else retryable at the time the backoff gives.
\<close>

theorem nack_outcome:
  assumes "backend_inv b" "b_jobs b i = Some r" "j_state (deref b r) = StateActive"
    and "j = nack_error D err (deref b r)" "b' = snd (Nack D now i err requeue b)"
  shows "\<exists>resp. fst (Nack D now i err requeue b) = Inr resp \<and> n_state resp = j_state (deref b' r) \<and>
    (if out_of_attempts D j then
       deref b' r = j\<lparr>j_state := StateDiscarded\<rparr> \<and>
       (if goes_to_dead_letter D j
        then \<exists>d. b_dead_jobs b' i = Some d \<and> deref b' d = j\<lparr>j_state := StateDiscarded\<rparr>
        else b_dead_jobs b' = b_dead_jobs b)
     else if requeue then deref b' r = j\<lparr>j_state := StateAvailable\<rparr> \<and> r \<in> set (queued b' (j_queue j))
     else deref b' r = j\<lparr>j_state := StateRetryable, j_scheduled_at :=
       format_time D (now + calculate_backoff D (job_retry_policy D j) (j_attempt j))\<rparr>)"
proof -
  have r: "r < b_next b" using assms(1,2) by (auto simp: backend_inv_def inv_maps_def)
  define b2 where "b2 = release_from_worker (j_worker_id (deref b r)) i (update_job r (nack_error D err) b)"
  have b2: "deref b2 r = j" "b_next b2 = b_next b" "b_dead_jobs b2 = b_dead_jobs b"
    by (simp_all add: b2_def assms(4))
  have same [simp]: "j_attempt j = j_attempt (deref b r)" "j_worker_id j = j_worker_id (deref b r)"
    "job_max_attempts D j = job_max_attempts D (deref b r)"
    "job_retry_policy D j = job_retry_policy D (deref b r)"
    by (simp_all add: assms(4))
  show ?thesis
  proof (cases "out_of_attempts D j")
    case True
    obtain resp where nack: "Nack D now i err requeue b = nack_exhausted D now r i resp b2"
      using assms(2,3) True by (simp add: Nack_def out_of_attempts_def b2_def Let_def)
    show ?thesis
      using nack_exhausted_result [of r b2 D now i resp] r True
      unfolding assms(5) nack b2 by (auto simp: b2)
  next
    case False
    show ?thesis
    proof (cases requeue)
      case rq: True
      then show ?thesis
        using False assms(2,3) unfolding assms(5)
        by (simp add: Nack_def out_of_attempts_def b2_def [symmetric] Let_def assms(4) [symmetric] b2
          queued_addToQueueIndex)
    next
      case rq: False
      then show ?thesis
        using False assms(2,3) unfolding assms(5)
        by (simp add: Nack_def out_of_attempts_def b2_def [symmetric] Let_def assms(4) [symmetric] b2)
    qed
  qed
qed

section \<open>Concrete instances\<close>

lemma ack_completes_witness:
  "fst (Ack sample_deps 3 ''a'' None sample_active) = Inr \<lparr>a_acknowledged = True, a_id = ''a'',
     a_state = StateCompleted, a_completed_at = format_time sample_deps 3\<rparr>"
  using ack_completes [OF sample_active_inv sample_active_facts(1), of sample_deps 3 None]
  by (simp add: sample_active_facts Let_def)

lemma nack_outcome_witness:
  "\<exists>resp. fst (Nack sample_deps 3 ''a'' None False sample_active) = Inr resp \<and>
     n_state resp = StateDiscarded \<and>
     (\<exists>d. b_dead_jobs (snd (Nack sample_deps 3 ''a'' None False sample_active)) ''a'' = Some d)"
proof -
  have "out_of_attempts sample_deps (deref sample_active 0)" "goes_to_dead_letter sample_deps (deref sample_active 0)"
    by (simp_all add: out_of_attempts_def goes_to_dead_letter_def job_max_attempts_def job_retry_policy_def
      sample_active_facts sample_deps_def Let_def)
  moreover have "nack_error sample_deps None (deref sample_active 0) = deref sample_active 0"
    by (simp add: nack_error_def)
  ultimately show ?thesis
    using nack_outcome [OF sample_active_inv sample_active_facts(1,2) refl refl, of sample_deps 3 None False]
    by auto
qed

end
