(* ===== verification/Backend_Maintenance.thy ===== *)
theory Backend_Maintenance
  imports Backend_Outcomes
begin

text \<open>
  The background operations: promotion of due jobs, requeueing of stalled ones and retention. A loop over
  \<open>b.jobs\<close> whose body only writes the job it visits changes every job once, in whatever order Go visits
  them (\<open>for_jobs_local\<close>).
\<close>

section \<open>Loops over the jobs\<close>

lemma for_jobs_local:
  assumes "\<And>i r b. b_jobs (f i r b) = b_jobs b"
    and "\<And>i r b. b_store (f i r b) = (b_store b)(r := g (b_store b r))"
    and "distinct ord" "\<And>i i' r. b_jobs b i = Some r \<Longrightarrow> b_jobs b i' = Some r \<Longrightarrow> i = i'"
  shows "b_jobs (for_jobs f ord b) = b_jobs b"
    and "deref (for_jobs f ord b) r =
      (if \<exists>i \<in> set ord. b_jobs b i = Some r then g (deref b r) else deref b r)"
proof -
  have "b_jobs (for_jobs f ord b) = b_jobs b \<and> (\<forall>r. deref (for_jobs f ord b) r =
      (if \<exists>i \<in> set ord. b_jobs b i = Some r then g (deref b r) else deref b r))"
    using assms(3,4)
  proof (induction ord arbitrary: b)
    case (Cons i ord)
    show ?case
    proof (cases "b_jobs b i")
      case None
      then show ?thesis using Cons by auto
    next
      case (Some x)
      have fresh: "\<not> (\<exists>i' \<in> set ord. b_jobs b i' = Some x)" using Cons.prems Some by auto
      have "b_jobs (for_jobs f ord (f i x b)) = b_jobs b \<and> (\<forall>r. deref (for_jobs f ord (f i x b)) r =
          (if \<exists>i \<in> set ord. b_jobs b i = Some r then g (deref (f i x b) r) else deref (f i x b) r))"
        using Cons.IH [of "f i x b"] Cons.prems assms(1) by simp
      then show ?thesis using Some fresh assms(2) by auto
    qed
  qed simp
  then show "b_jobs (for_jobs f ord b) = b_jobs b"
    and "deref (for_jobs f ord b) r =
      (if \<exists>i \<in> set ord. b_jobs b i = Some r then g (deref b r) else deref b r)" by simp_all
qed

lemma inv_jobs_id: "backend_inv b \<Longrightarrow> b_jobs b i = Some r \<Longrightarrow> j_id (deref b r) = i"
  by (simp add: backend_inv_def inv_maps_def)

lemma inv_jobs_inj: "backend_inv b \<Longrightarrow> b_jobs b i = Some r \<Longrightarrow> b_jobs b i' = Some r \<Longrightarrow> i = i'"
  using inv_jobs_id by blast

lemma release_jobs [simp]: "b_jobs (release_from_worker w i b) = b_jobs b"
  by (simp add: release_from_worker_def split: option.splits)

section \<open>Promotion and stalled jobs\<close>

definition stalled :: "deps \<Rightarrow> int \<Rightarrow> job \<Rightarrow> bool" where
  "stalled D now j \<longleftrightarrow> j_state j = StateActive \<and>
     (case visibility_deadline D j of None \<Rightarrow> False | Some deadline \<Rightarrow> deadline < now)"

lemma PromoteScheduled_result:
  assumes "backend_inv b" "visits ord (b_jobs b)" "b_jobs b i = Some r"
  shows "deref (PromoteScheduled D now ord b) r =
    (if j_state (deref b r) = StateScheduled \<and> due D now (deref b r)
     then (deref b r)\<lparr>j_state := StateAvailable\<rparr> else deref b r)"
proof -
  let ?g = "\<lambda>j. if j_state j = StateScheduled \<and> due D now j then j\<lparr>j_state := StateAvailable\<rparr> else j"
  have ord: "distinct ord" "\<exists>i \<in> set ord. b_jobs b i = Some r"
    using assms(2,3) by (auto simp: visits_def dom_def)
  have "deref (for_jobs (promote_scheduled_job D now) ord b) r =
      (if \<exists>i \<in> set ord. b_jobs b i = Some r then ?g (deref b r) else deref b r)"
    by (rule for_jobs_local(2))
       (use ord(1) in \<open>auto simp: promote_scheduled_job_def Let_def dest: inv_jobs_inj [OF assms(1)]\<close>)
  then show ?thesis using ord(2) by (simp add: PromoteScheduled_def)
qed

lemma RequeueStalled_result:
  assumes "backend_inv b" "visits ord (b_jobs b)" "b_jobs b i = Some r"
  shows "deref (RequeueStalled D now ord b) r =
    (if stalled D now (deref b r)
     then (deref b r)\<lparr>j_state := StateAvailable, j_started_at := '''', j_worker_id := ''''\<rparr> else deref b r)"
    and "b_jobs (RequeueStalled D now ord b) = b_jobs b"
proof -
  let ?g = "\<lambda>j. if stalled D now j
    then j\<lparr>j_state := StateAvailable, j_started_at := '''', j_worker_id := ''''\<rparr> else j"
  have jobs: "b_jobs (requeue_stalled_job D now i r b) = b_jobs b" for i r b
    by (simp add: requeue_stalled_job_def Let_def split: option.splits)
  have store: "b_store (requeue_stalled_job D now i r b) = (b_store b)(r := ?g (b_store b r))" for i r b
    by (auto simp: requeue_stalled_job_def stalled_def Let_def split: option.splits)
  note loop = for_jobs_local [where f = "requeue_stalled_job D now" and g = ?g, OF jobs store]
  have inj: "\<And>i i' r. b_jobs b i = Some r \<Longrightarrow> b_jobs b i' = Some r \<Longrightarrow> i = i'"
    by (rule inv_jobs_inj [OF assms(1)])
  have ord: "distinct ord" "\<exists>i \<in> set ord. b_jobs b i = Some r"
    using assms(2,3) by (auto simp: visits_def dom_def)
  show "deref (RequeueStalled D now ord b) r = ?g (deref b r)"
    using loop(2) [where b = b and r = r, OF ord(1) inj] ord(2) by (simp add: RequeueStalled_def)
  show "b_jobs (RequeueStalled D now ord b) = b_jobs b"
    using loop(1) [where b = b, OF ord(1) inj] by (simp add: RequeueStalled_def)
qed


section \<open>Heartbeats\<close>

lemma extend_jobs_result:
  "b_jobs (snd (extend_jobs ms ids b)) = b_jobs b"
  "deref (snd (extend_jobs ms ids b)) r =
    (if (\<exists>i \<in> set ids. b_jobs b i = Some r) \<and> j_state (deref b r) = StateActive
     then (deref b r)\<lparr>j_visibility_timeout_ms := Some ms\<rparr> else deref b r)"
  "b_jobs b i = Some r \<Longrightarrow> j_state (deref b r) = StateActive \<Longrightarrow> i \<in> set ids \<Longrightarrow>
    i \<in> set (fst (extend_jobs ms ids b))"
  by (induction ms ids b rule: extend_jobs.induct)
     (auto simp: Let_def case_prod_beta split: option.splits)

text \<open>A heartbeat reports each active job it names as extended, but the job's deadline stays counted from the moment
  the job was fetched: a worker that has sent heartbeats all along loses a job as soon as it has run
  longer than one visibility timeout.\<close>

lemma heartbeat_does_not_extend:
  assumes "states_documented D" "backend_inv b" "b_jobs b i = Some r" "j_state (deref b r) = StateActive"
    and "i \<in> set ids" "j_started_at (deref b r) \<noteq> ''''" "parse_time D (j_started_at (deref b r)) = Some t"
    and "t + ms * 1000000 < now" "b' = snd (Heartbeat D now w ids ms b)" "visits ord (b_jobs b')"
  shows "i \<in> set (h_jobs_extended (fst (Heartbeat D now w ids ms b))) \<and>
    j_state (deref (RequeueStalled D now ord b') r) = StateAvailable"
proof -
  have jobs: "b_jobs b' i = Some r" using assms(3,9) extend_jobs_result(1)
    by (simp add: Heartbeat_def Let_def case_prod_beta)
  have job: "deref b' r = (deref b r)\<lparr>j_visibility_timeout_ms := Some ms\<rparr>"
    using assms(3-5,9) by (auto simp: Heartbeat_def Let_def case_prod_beta extend_jobs_result(2))
  then have "stalled D now (deref b' r)"
    using assms(4,6-8) by (simp add: stalled_def visibility_deadline_def)
  moreover have "backend_inv b'" using keeps_Heartbeat [OF assms(2)] assms(9) by (simp add: keeps_def)
  ultimately have "j_state (deref (RequeueStalled D now ord b') r) = StateAvailable"
    using RequeueStalled_result(1) [of b' ord i r D now] assms(10) jobs by simp
  moreover have "i \<in> set (h_jobs_extended (fst (Heartbeat D now w ids ms b)))"
    using assms(3-5) by (simp add: Heartbeat_def Let_def case_prod_beta extend_jobs_result(3))
  ultimately show ?thesis by blast
qed

text \<open>A run of \<open>PromoteScheduled\<close> makes a scheduled job available, in its queue, if and only if its time has come;
  no other job changes.\<close>

lemma scheduled_jobs_promoted:
  assumes "states_documented D" "backend_inv b" "visits ord (b_jobs b)" "b_jobs b i = Some r"
    and "b' = PromoteScheduled D now ord b"
  shows "if j_state (deref b r) = StateScheduled \<and> due D now (deref b r)
    then deref b' r = (deref b r)\<lparr>j_state := StateAvailable\<rparr> \<and> r \<in> set (queued b' (j_queue (deref b r)))
    else deref b' r = deref b r"
proof -
  have inv: "backend_inv b'"
    using keeps_PromoteScheduled [OF assms(2)] assms(5) by (simp add: keeps_def)
  note res = PromoteScheduled_result [OF assms(2-4), of D now, folded assms(5)]
  have "b_jobs (promote_scheduled_job D now i r b) = b_jobs b" for i r b
    by (simp add: promote_scheduled_job_def Let_def)
  then have "b_jobs (for_jobs (promote_scheduled_job D now) os c) = b_jobs c" for os c
    by (induction os arbitrary: c) (auto split: option.splits)
  then have "b_jobs b' i = Some r" using assms(4,5) by (simp add: PromoteScheduled_def)
  then have "j_state (deref b' r) = StateAvailable \<Longrightarrow> r \<in> set (queued b' (j_queue (deref b' r)))"
    using inv by (simp add: backend_inv_def inv_available_def)
  then show ?thesis using res by auto
qed

section \<open>Retention\<close>

definition purgeable :: "deps \<Rightarrow> int \<Rightarrow> backend \<Rightarrow> job \<Rightarrow> bool" where
  "purgeable D now b j \<longleftrightarrow>
     j_state j = StateCompleted \<and> expired D now (b_retention_completed b) (j_completed_at j) \<or>
     j_state j = StateCancelled \<and> expired D now (b_retention_cancelled b) (j_cancelled_at j) \<or>
     j_state j = StateDiscarded \<and> expired D now (b_retention_discarded b) (j_completed_at j)"

lemma drop_sel [simp]:
  "b_jobs (drop_job i b) = (b_jobs b)(i := None)" "b_store (drop_job i b) = b_store b"
  "b_retention_completed (drop_job i b) = b_retention_completed b"
  "b_retention_cancelled (drop_job i b) = b_retention_cancelled b"
  "b_retention_discarded (drop_job i b) = b_retention_discarded b"
  "b_jobs (drop_dead_job i b) = b_jobs b" "b_store (drop_dead_job i b) = b_store b"
  "b_retention_completed (drop_dead_job i b) = b_retention_completed b"
  "b_retention_cancelled (drop_dead_job i b) = b_retention_cancelled b"
  "b_retention_discarded (drop_dead_job i b) = b_retention_discarded b"
  by (simp_all add: drop_job_def drop_dead_job_def)

lemma purge_job_result:
  "b_jobs (purge_job D now i r b) = (if purgeable D now b (deref b r) then (b_jobs b)(i := None) else b_jobs b)"
  "b_store (purge_job D now i r b) = b_store b"
  "purgeable D now (purge_job D now i r b) = purgeable D now b"
proof -
  show "b_jobs (purge_job D now i r b) = (if purgeable D now b (deref b r) then (b_jobs b)(i := None) else b_jobs b)"
    by (cases "j_state (deref b r)") (simp_all add: purge_job_def purgeable_def expired_def Let_def)
  show "b_store (purge_job D now i r b) = b_store b"
    by (simp add: purge_job_def Let_def)
  have "b_retention_completed (purge_job D now i r b) = b_retention_completed b"
    "b_retention_cancelled (purge_job D now i r b) = b_retention_cancelled b"
    "b_retention_discarded (purge_job D now i r b) = b_retention_discarded b"
    by (simp_all add: purge_job_def Let_def)
  then show "purgeable D now (purge_job D now i r b) = purgeable D now b"
    by (simp add: purgeable_def fun_eq_iff)
qed

lemma for_jobs_purge:
  "distinct ord \<Longrightarrow> b_jobs (for_jobs (purge_job D now) ord b) i = (case b_jobs b i of None \<Rightarrow> None
    | Some r \<Rightarrow> if i \<in> set ord \<and> purgeable D now b (deref b r) then None else Some r)"
proof (induction ord arbitrary: b)
  case (Cons k ord)
  show ?case
  proof (cases "b_jobs b k")
    case None
    then show ?thesis using Cons by (auto split: option.splits)
  next
    case (Some x)
    have "b_jobs (for_jobs (purge_job D now) (k # ord) b) i = (case b_jobs (purge_job D now k x b) i of None \<Rightarrow> None
      | Some r \<Rightarrow> if i \<in> set ord \<and> purgeable D now b (deref b r) then None else Some r)"
      using Cons Some by (simp add: purge_job_result cong: if_cong option.case_cong)
    then show ?thesis
      using Cons.prems Some by (auto simp: purge_job_result split: option.splits)
  qed
qed (simp split: option.splits)


lemma nack_jobs_same:
  assumes "b_jobs b i = Some r" "j_workflow_id (deref b r) = ''''" "r < b_next b"
  shows "b_jobs (snd (Nack D now i err requeue b)) = b_jobs b"
proof -
  have cl: "b_jobs (cleanupUniqueKey j c) = b_jobs c" for j c
    by (simp add: cleanupUniqueKey_def Let_def split: option.splits)
  have dk: "b_jobs (delete_persisted_key j c) = b_jobs c" for j c
    by (simp add: delete_persisted_key_def split: option.splits)
  show ?thesis using assms
    by (simp add: Nack_def nack_exhausted_def Let_def alloc_def cl dk)
qed

text \<open>A job discarded by its last failure is never purged, however long ago that was: the time \<open>PurgeExpired\<close> looks at
  is only set by \<open>Ack\<close>, so the retention of discarded jobs has no effect on them.\<close>

lemma discarded_never_purged:
  assumes "backend_inv b" "b_jobs b i = Some r" "j_state (deref b r) = StateActive"
    and "j_workflow_id (deref b r) = ''''" "j_completed_at (deref b r) = ''''"
    and "out_of_attempts D (deref b r)" "b' = snd (Nack D now i err requeue b)" "distinct ord"
  shows "j_state (deref b' r) = StateDiscarded \<and> b_jobs (PurgeExpired D later ord b') i = Some r"
proof -
  have oa: "out_of_attempts D (nack_error D err (deref b r))"
    using assms(6) by (simp add: out_of_attempts_def)
  have job: "deref b' r = (nack_error D err (deref b r))\<lparr>j_state := StateDiscarded\<rparr>"
    using nack_outcome [OF assms(1-3) refl assms(7)] oa by auto
  have "r < b_next b" using assms(1,2) by (simp add: backend_inv_def inv_maps_def)
  then have jobs: "b_jobs b' i = Some r" using nack_jobs_same [OF assms(2,4)] assms(2,7) by simp
  have "\<not> purgeable D later b' (deref b' r)"
    using assms(5) by (simp add: job purgeable_def expired_def nack_error_def Let_def split: option.splits)
  then have "b_jobs (PurgeExpired D later ord b') i = Some r"
    using for_jobs_purge [OF assms(8), of D later b' i] jobs by (simp add: PurgeExpired_def)
  then show ?thesis using job by simp
qed

section \<open>Concrete instances\<close>




end
