(* ===== verification/Backend_Flow.thy ===== *)
theory Backend_Flow
  imports Backend_Maintenance
begin

text \<open>
  Workflows and cron jobs: how the results of its jobs decide a workflow, what becomes of a workflow without
  jobs, and when a cron job runs next.
\<close>

section \<open>Results decide a workflow\<close>


lemma Push_workflows [simp]: "b_workflows (snd (Push D now j b)) = b_workflows b"
  by (auto simp: Push_def push_prepare_def push_unique_def push_conflict_def push_store_def alloc_def Let_def
    case_prod_beta split: option.splits)

lemma fire_workflows [simp]: "b_workflows (fireWorkflowCallbacks D now w failed b) = b_workflows b"
  by (simp add: fireWorkflowCallbacks_def split: option.splits)


lemma count_result_sel [simp]:
  "w_completed (count_result w s res failed) = (if failed then w_completed w else Suc (w_completed w))"
  "w_failed (count_result w s res failed) = (if failed then Suc (w_failed w) else w_failed w)"
  "w_total (count_result w s res failed) = w_total w" "w_type (count_result w s res failed) = w_type w"
  "w_state (count_result w s res failed) = w_state w"
  by (auto simp: count_result_def Let_def split: option.splits)

lemma finish_sel [simp]:
  "w_completed (finish D now s w) = w_completed w" "w_failed (finish D now s w) = w_failed w"
  "w_total (finish D now s w) = w_total w" "w_type (finish D now s w) = w_type w"
  "w_state (finish D now s w) = s"
  by (simp_all add: finish_def)








section \<open>Workflows without jobs\<close>

text \<open>Creating a chain without steps panics while the backend's lock is held, after the workflow has been stored as
  running; creating any other workflow without jobs succeeds, and as no job reports to it, it stays running.\<close>

lemma empty_workflow:
  shows "wr_type req = ''chain'' \<and> wr_steps req = [] \<or> wr_type req \<noteq> ''chain'' \<and> wr_jobs req = [] \<longrightarrow>
    (\<exists>w. b_workflows (snd (CreateWorkflow D now req b)) (new_uuid D (b_uuid b)) = Some w \<and>
       w_state w = ''running'' \<and> w_total w = 0) \<and>
    b_jobs (snd (CreateWorkflow D now req b)) = b_jobs b \<and>
    (if wr_type req = ''chain''
     then fst (CreateWorkflow D now req b) = Inl (GoPanic ''index out of range [0] with length 0'')
     else \<exists>v. fst (CreateWorkflow D now req b) = Inr v \<and> v_state v = ''running'')"
  by (auto simp: CreateWorkflow_def new_workflow_state_def jobs_to_enqueue_def workflow_view_of_def
    save_workflow_def Let_def)

section \<open>Cron jobs\<close>

text \<open>A cron job registered with a timezone gets its first run from the schedule in that timezone, but every later one
  from the schedule without it.\<close>

lemma cron_timezone_lost:
  assumes "c_timezone c \<noteq> ''''" "load_location D (c_timezone c) = Some loc"
    and "cron_next D (''CRON_TZ='' @ loc @ '' '' @ cron_expr c) = Some in_zone" "cron_next D (cron_expr c) = Some plain"
    and "b1 = snd (RegisterCron D now c b)" "b_crons b1 (c_name c) = Some c1"
  shows "c_next_run_at c1 = format_time D (in_zone now) \<and>
    (\<exists>c2. b_crons (updateCronNextRun D later c1 b1) (c_name c) = Some c2 \<and>
       c_next_run_at c2 = format_time D (plain later))"
proof -
  have c1: "c1 = c\<lparr>c_created_at := format_time D now, c_next_run_at := format_time D (in_zone now),
      c_schedule := cron_expr c, c_expression := cron_expr c,
      c_overlap_policy := (if c_overlap_policy c = '''' then ''allow'' else c_overlap_policy c),
      c_enabled := True\<rparr>"
    using assms by (simp add: RegisterCron_def cron_schedule_of_def Let_def)
  then have "cron_expr c1 = cron_expr c" "c_name c1 = c_name c" by (simp_all add: cron_expr_def)
  then show ?thesis using c1 assms(4,6) by (simp add: updateCronNextRun_def Let_def)
qed

text \<open>A due cron job with overlap policy \<open>skip\<close> does not push while a job it pushed earlier is unfinished, it only moves
  on to its next run; and the job it pushes when none is unfinished counts as such from then on.\<close>

lemma cron_skip_waits:
  assumes "states_documented D" "cron_due D now c" "c_overlap_policy c = ''skip''"
    and "marshal_cron_meta D (c_name c) = Some m" "meta_string D m ''cron_name'' = Some (c_name c)"
    and "visits (ord_of b) (b_jobs b)" "b' = fire_cron D now ord_of c b"
  shows "(if \<exists>i r n. b_jobs b i = Some r \<and> j_meta (deref b r) = Some n \<and>
        meta_string D n ''cron_name'' = Some (c_name c) \<and> \<not> is_terminal D (j_state (deref b r))
      then b_jobs b' = b_jobs b else True) \<and>
    (\<exists>i r n. b_jobs b' i = Some r \<and> j_meta (deref b' r) = Some n \<and>
        meta_string D n ''cron_name'' = Some (c_name c) \<and> \<not> is_terminal D (j_state (deref b' r)))"
proof -
  let ?unfinished = "\<lambda>b. \<exists>i r n. b_jobs b i = Some r \<and> j_meta (deref b r) = Some n \<and>
    meta_string D n ''cron_name'' = Some (c_name c) \<and> \<not> is_terminal D (j_state (deref b r))"
  have overlaps: "cron_overlaps D b c (ord_of b) \<longleftrightarrow> ?unfinished b"
    using assms(6) by (fastforce simp: cron_overlaps_def list_ex_iff visits_def dom_def split: option.splits)
  have update: "b_jobs (updateCronNextRun D now c x) = b_jobs x \<and> b_store (updateCronNextRun D now c x) = b_store x" for x
    by (simp add: updateCronNextRun_def Let_def split: option.splits)
  show ?thesis
  proof (cases "?unfinished b")
    case True
    then have "b' = updateCronNextRun D now c b" using assms(2,3,7) overlaps by (simp add: fire_cron_def)
    then show ?thesis using True update by auto
  next
    case False
    then have "\<not> cron_overlaps D b c (ord_of b)" using overlaps by blast
    then have b': "b' = updateCronNextRun D now c (snd (Push D now (cron_job_to_push D c) b))"
      using assms(2,3,7) by (simp add: fire_cron_def)
    let ?j = "cron_job_to_push D c"
    have j: "j_unique ?j = None" "j_meta ?j = Some m"
      using assms(3,4) by (simp_all add: cron_job_to_push_def empty_job_def Let_def case_prod_beta)
    let ?j1 = "fst (push_prepare D now ?j b)" and ?b1 = "snd (push_prepare D now ?j b)"
    have push: "snd (Push D now ?j b) = snd (push_store D now ?j1 ?b1)"
      using j(1) by (auto simp: Push_def push_unique_def push_prepare_def Let_def case_prod_beta split: if_splits)
    have meta: "j_meta ?j1 = Some m" using j(2) by (simp add: push_prepare_def Let_def case_prod_beta)
    have "b_jobs (snd (Push D now ?j b)) (j_id ?j1) = Some (b_next ?b1) \<and>
        j_meta (deref (snd (Push D now ?j b)) (b_next ?b1)) = Some m \<and>
        \<not> is_terminal D (j_state (deref (snd (Push D now ?j b)) (b_next ?b1)))"
      using meta assms(1) unfolding push
      by (simp add: push_store_def alloc_def Let_def states_documentedD)
    then have "?unfinished b'" using update assms(5) unfolding b' by metis
    then show ?thesis unfolding if_not_P [OF False] by blast
  qed
qed

section \<open>Concrete instances\<close>





definition sample_cron :: cron_job where
  "sample_cron = \<lparr>c_name = ''nightly'', c_expression = ''0 3 * * *'', c_schedule = '''', c_timezone = ''Asia/Tokyo'',
     c_enabled = True, c_next_run_at = format_time sample_deps 1, c_last_run_at = '''', c_created_at = '''',
     c_overlap_policy = ''skip'', c_template = None\<rparr>"

end
