(* ===== verification/Backend_Restart.thy ===== *)
theory Backend_Restart
  imports Backend_Samples
begin

text \<open>
  Starting over a database: \<open>New\<close> loads the rows, one struct each, and queues the available jobs again.
\<close>

section \<open>Loading rows\<close>

definition rows_keyed :: "(string \<rightharpoonup> job) \<Rightarrow> bool" where
  "rows_keyed m \<longleftrightarrow> (\<forall>i j. m i = Some j \<longrightarrow> j_id j = i)"

lemma load_refs_result:
  assumes "distinct ids"
  shows "b_next b \<le> b_next (snd (load_refs m ids b)) \<and>
    (\<forall>r < b_next b. deref (snd (load_refs m ids b)) r = deref b r) \<and>
    b_queue_idx (snd (load_refs m ids b)) = b_queue_idx b \<and>
    (\<forall>i r. fst (load_refs m ids b) i = Some r \<longrightarrow> i \<in> set ids \<and> b_next b \<le> r \<and>
       r < b_next (snd (load_refs m ids b)) \<and> m i = Some (deref (snd (load_refs m ids b)) r)) \<and>
    (\<forall>i \<in> set ids. fst (load_refs m ids b) i = None \<longrightarrow> m i = None)"
  using assms
proof (induction m ids b rule: load_refs.induct)
  case (2 m jid ids b)
  show ?case
  proof (cases "m jid")
    case None
    have eq: "load_refs m (jid # ids) b = load_refs m ids b" using None by simp
    have "distinct ids" using "2.prems" by simp
    note IH = "2.IH"(1) [OF None this]
    have "\<forall>i r. fst (load_refs m ids b) i = Some r \<longrightarrow> i \<in> set (jid # ids) \<and> b_next b \<le> r \<and>
        r < b_next (snd (load_refs m ids b)) \<and> m i = Some (deref (snd (load_refs m ids b)) r)"
      using IH by (metis list.set_intros(2))
    moreover have "\<forall>i \<in> set (jid # ids). fst (load_refs m ids b) i = None \<longrightarrow> m i = None"
      using IH None by (metis set_ConsD)
    ultimately show ?thesis
      unfolding eq using IH by (intro conjI) (elim conjE, assumption)+
  next
    case (Some j)
    let ?b1 = "snd (alloc j b)"
    have b1: "b_next ?b1 = Suc (b_next b)" "deref ?b1 (b_next b) = j" "b_queue_idx ?b1 = b_queue_idx b"
      "\<And>r. r < b_next b \<Longrightarrow> deref ?b1 r = deref b r"
      by (simp_all add: alloc_def)
    have IH: "b_next ?b1 \<le> b_next (snd (load_refs m ids ?b1)) \<and>
      (\<forall>r < b_next ?b1. deref (snd (load_refs m ids ?b1)) r = deref ?b1 r) \<and>
      b_queue_idx (snd (load_refs m ids ?b1)) = b_queue_idx ?b1 \<and>
      (\<forall>i r. fst (load_refs m ids ?b1) i = Some r \<longrightarrow> i \<in> set ids \<and> b_next ?b1 \<le> r \<and>
         r < b_next (snd (load_refs m ids ?b1)) \<and> m i = Some (deref (snd (load_refs m ids ?b1)) r)) \<and>
      (\<forall>i \<in> set ids. fst (load_refs m ids ?b1) i = None \<longrightarrow> m i = None)"
      by (rule "2.IH"(2) [OF Some refl prod.collapse]) (use "2.prems" in simp)
    have eq: "fst (load_refs m (jid # ids) b) = (fst (load_refs m ids ?b1))(jid \<mapsto> b_next b)"
        "snd (load_refs m (jid # ids) b) = snd (load_refs m ids ?b1)"
      using Some by (simp_all add: Let_def case_prod_beta alloc_def)
    show ?thesis
      unfolding eq using IH b1 Some "2.prems" by (auto simp: less_Suc_eq) (meson Suc_leD)
  qed
qed simp

section \<open>Queueing the loaded jobs\<close>

text \<open>The queues are in order and hold only jobs of the IDs \<open>I\<close>.\<close>

definition indexed :: "string set \<Rightarrow> backend \<Rightarrow> bool" where
  "indexed I b \<longleftrightarrow> (\<forall>q. inv_queue b q \<and> (\<forall>r \<in> set (queued b q). \<exists>i \<in> I. b_jobs b i = Some r))"

lemma indexed_add:
  assumes "indexed I b" "b_jobs b i = Some r" "i \<notin> I" "r < b_next b" "j_state (deref b r) = StateAvailable"
    and "\<And>i'. b_jobs b i' = Some r \<Longrightarrow> i' = i"
  shows "indexed (insert i I) (addToQueueIndex r b)"
proof -
  have new: "r \<notin> set (queued b q)" for q using assms(1,3,6) by (fastforce simp: indexed_def)
  have "inv_queue (addToQueueIndex r b) q \<and>
      (\<forall>x \<in> set (queued (addToQueueIndex r b) q). \<exists>k \<in> insert i I. b_jobs b k = Some x)" for q
  proof (cases "q = j_queue (deref b r)")
    case True
    have q: "inv_queue b q" using assms(1) by (simp add: indexed_def)
    have m: "mset (index_insert (b_store b) r (queued b q)) = add_mset r (mset (queued b q))" by simp
    have s: "set (index_insert (b_store b) r (queued b q)) = insert r (set (queued b q))"
      using m by (metis set_mset_add_mset_insert set_mset_mset)
    have d: "distinct (index_insert (b_store b) r (queued b q))"
      using q new [of q] m by (metis distinct.simps(2) inv_queue_def mset.simps(2) mset_eq_imp_distinct_iff)
    have "sorted (map (\<lambda>x. index_key (deref b x)) (index_insert (b_store b) r (queued b q)))"
      by (rule index_insert_sorted) (use q in \<open>simp add: inv_queue_def\<close>)
    then have "inv_queue (addToQueueIndex r b) q"
      using q s d assms(4,5) True by (auto simp: inv_queue_def queued_addToQueueIndex waiting_states_def)
    moreover have "\<forall>x \<in> set (queued (addToQueueIndex r b) q). \<exists>k \<in> insert i I. b_jobs b k = Some x"
      using assms(1,2,5) s True by (auto simp: queued_addToQueueIndex indexed_def)
    ultimately show ?thesis by blast
  next
    case False
    then have "queued (addToQueueIndex r b) q = queued b q" by (simp add: queued_addToQueueIndex)
    then show ?thesis using assms(1) by (auto simp: indexed_def inv_queue_def)
  qed
  then show ?thesis by (simp add: indexed_def)
qed

lemma set_index_insert: "set (index_insert st r rs) = insert r (set rs)"
  by (metis index_insert_mset set_mset_add_mset_insert set_mset_mset)

lemma queued_add_mono: "set (queued b q) \<subseteq> set (queued (addToQueueIndex r b) q)"
proof -
  show ?thesis by (auto simp: queued_addToQueueIndex set_index_insert)
qed

lemma index_loaded_result:
  assumes "distinct ids" "indexed I b" "I \<inter> set ids = {}"
    and "\<And>i r. b_jobs b i = Some r \<Longrightarrow> r < b_next b \<and> j_id (deref b r) = i"
  shows "indexed (I \<union> set ids) (index_loaded ids b) \<and> b_store (index_loaded ids b) = b_store b \<and>
    b_next (index_loaded ids b) = b_next b \<and> b_jobs (index_loaded ids b) = b_jobs b \<and>
    b_dead_jobs (index_loaded ids b) = b_dead_jobs b \<and>
    (\<forall>q. set (queued b q) \<subseteq> set (queued (index_loaded ids b) q)) \<and>
    (\<forall>i \<in> set ids. \<forall>r. b_jobs b i = Some r \<longrightarrow> j_state (deref b r) = StateAvailable \<longrightarrow>
       r \<in> set (queued (index_loaded ids b) (j_queue (deref b r))))"
  using assms
proof (induction ids arbitrary: I b)
  case (Cons i ids)
  show ?case
  proof (cases "\<exists>r. b_jobs b i = Some r \<and> j_state (deref b r) = StateAvailable")
    case False
    have more: "indexed (insert i I) b" using Cons.prems(2) by (auto simp: indexed_def)
    have step: "index_loaded (i # ids) b = index_loaded ids b" using False by (auto split: option.splits)
    have IH: "indexed (insert i I \<union> set ids) (index_loaded ids b) \<and> b_store (index_loaded ids b) = b_store b \<and>
      b_next (index_loaded ids b) = b_next b \<and> b_jobs (index_loaded ids b) = b_jobs b \<and>
      b_dead_jobs (index_loaded ids b) = b_dead_jobs b \<and>
      (\<forall>q. set (queued b q) \<subseteq> set (queued (index_loaded ids b) q)) \<and>
      (\<forall>i \<in> set ids. \<forall>r. b_jobs b i = Some r \<longrightarrow> j_state (deref b r) = StateAvailable \<longrightarrow>
         r \<in> set (queued (index_loaded ids b) (j_queue (deref b r))))"
      by (rule Cons.IH [OF _ more]) (use Cons.prems in auto)
    have "r \<in> set (queued (index_loaded ids b) (j_queue (deref b r)))"
      if "k \<in> set (i # ids)" "b_jobs b k = Some r" "j_state (deref b r) = StateAvailable" for k r
    proof -
      have "k \<in> set ids" using that False by auto
      then show ?thesis using IH that by blast
    qed
    then show ?thesis
      unfolding step using IH by simp
  next
    case True
    then obtain r where r: "b_jobs b i = Some r" "j_state (deref b r) = StateAvailable" by blast
    let ?b = "addToQueueIndex r b"
    have only: "\<And>i'. b_jobs b i' = Some r \<Longrightarrow> i' = i" using Cons.prems(4) r(1) by metis
    have idx: "indexed (insert i I) ?b"
    proof (rule indexed_add [OF Cons.prems(2) r(1) _ _ r(2)])
      show "i \<notin> I" using Cons.prems(3) by auto
      show "r < b_next b" using Cons.prems(4) [OF r(1)] by simp
    next
      fix i' assume "b_jobs b i' = Some r"
      then show "i' = i" by (rule only)
    qed
    have step: "index_loaded (i # ids) b = index_loaded ids ?b" using r by simp
    have mem: "r \<in> set (queued ?b (j_queue (deref b r)))"
      using set_index_insert r(2) by (simp add: queued_addToQueueIndex)
    have IH: "indexed (insert i I \<union> set ids) (index_loaded ids ?b) \<and> b_store (index_loaded ids ?b) = b_store ?b \<and>
      b_next (index_loaded ids ?b) = b_next ?b \<and> b_jobs (index_loaded ids ?b) = b_jobs ?b \<and>
      b_dead_jobs (index_loaded ids ?b) = b_dead_jobs ?b \<and>
      (\<forall>q. set (queued ?b q) \<subseteq> set (queued (index_loaded ids ?b) q)) \<and>
      (\<forall>i \<in> set ids. \<forall>r. b_jobs ?b i = Some r \<longrightarrow> j_state (deref ?b r) = StateAvailable \<longrightarrow>
         r \<in> set (queued (index_loaded ids ?b) (j_queue (deref ?b r))))"
      by (rule Cons.IH [OF _ idx]) (use Cons.prems in auto)
    have "set (queued b q) \<subseteq> set (queued (index_loaded ids ?b) q)" for q
      using IH queued_add_mono [of b q r] by blast
    moreover have "r' \<in> set (queued (index_loaded ids ?b) (j_queue (deref b r')))"
      if "k \<in> set (i # ids)" "b_jobs b k = Some r'" "j_state (deref b r') = StateAvailable" for k r'
    proof (cases "k = i")
      case True
      then have "r' = r" using that(2) r(1) by simp
      then show ?thesis using IH mem by blast
    next
      case False
      then show ?thesis using IH that by simp
    qed
    ultimately show ?thesis
      unfolding step using IH by simp
  qed
qed simp

section \<open>Restart\<close>

text \<open>
  C17: A backend started over a database whose rows are stored under their jobs' IDs is in a state that satisfies
  the invariant, and every available job of the database waits in its queue again with all its
  fields.
\<close>

theorem restart_requeues:
  assumes "rows_keyed (ps_jobs (LoadAll D p))" "rows_keyed (ps_dead_jobs (LoadAll D p))"
    and "visits ord (ps_jobs (LoadAll D p))" "visits dead_ord (ps_dead_jobs (LoadAll D p))"
    and "b = New D ret (Some p) ord dead_ord"
  shows "backend_inv b \<and> (\<forall>i j. ps_jobs (LoadAll D p) i = Some j \<and> j_state j = StateAvailable \<longrightarrow>
    (\<exists>r \<in> set (queued b (j_queue j)). deref b r = j))"
proof -
  obtain c x d where ret: "ret = (c, x, d)" by (cases ret)
  define e where "e = (WithRetention c x d empty_backend)\<lparr>b_persist := Some p\<rparr>"
  have e: "b_next e = 0" "b_queue_idx e = Map.empty" by (simp_all add: e_def WithRetention_def empty_backend_def)
  let ?m = "ps_jobs (LoadAll D p)" and ?n = "ps_dead_jobs (LoadAll D p)"
  define l1 where "l1 = load_refs ?m ord e"
  define l2 where "l2 = load_refs ?n dead_ord (snd l1)"
  define b0 where "b0 = (snd l2)\<lparr>b_jobs := fst l1, b_dead_jobs := fst l2, b_crons := ps_crons (LoadAll D p),
    b_workflows := ps_workflows (LoadAll D p), b_unique_keys := ps_unique_keys (LoadAll D p),
    b_queue_state := ps_queue_state (LoadAll D p)\<rparr>"
  have b: "b = index_loaded ord b0"
    by (simp add: assms(5) New_def ret e_def [symmetric] l1_def l2_def b0_def Let_def case_prod_beta)
  have ord: "distinct ord" "distinct dead_ord" "set ord = dom ?m" "set dead_ord = dom ?n"
    using assms(3,4) by (simp_all add: visits_def)
  note r1 = load_refs_result [OF ord(1), of e ?m, folded l1_def]
  note r2 = load_refs_result [OF ord(2), of "snd l1" ?n, folded l2_def]
  have jobs: "r < b_next (snd l1) \<and> ?m i = Some (deref b0 r)" if "b_jobs b0 i = Some r" for i r
    using that r1 r2 by (simp add: b0_def)
  have dead: "b_next (snd l1) \<le> r \<and> r < b_next b0 \<and> ?n i = Some (deref b0 r)" if "b_dead_jobs b0 i = Some r" for i r
    using that r2 by (simp add: b0_def)
  have next_le: "b_next (snd l1) \<le> b_next b0" using r2 by (simp add: b0_def)
  have keyed: "r < b_next b0 \<and> j_id (deref b0 r) = i" if "b_jobs b0 i = Some r" for i r
    using jobs [OF that] assms(1) next_le by (auto simp: rows_keyed_def)
  have empty: "queued b0 q = []" for q
    using r1 r2 e(2) by (simp add: b0_def queued_def)
  have "indexed {} b0" by (simp add: indexed_def inv_queue_def empty)
  note idx = index_loaded_result [OF ord(1) this _ keyed, simplified, folded b]
  have same: "b_jobs b = b_jobs b0" "b_dead_jobs b = b_dead_jobs b0" "deref b = deref b0" "b_next b = b_next b0"
    using idx by simp_all
  have live: "r < b_next (snd l1)" if queued: "r \<in> set (queued b q)" for r q
  proof -
    have "\<forall>r \<in> set (queued b q). \<exists>i \<in> set ord. b_jobs b i = Some r"
      using conjunct1 [OF idx] unfolding indexed_def by blast
    then obtain i where "b_jobs b i = Some r" using queued by blast
    then show ?thesis using jobs [of i r] unfolding same by blast
  qed
  have dead': "r < b_next b \<and> j_id (deref b r) = i" if "b_dead_jobs b i = Some r" for i r
    using dead [of i r] assms(2) that unfolding same by (auto simp: rows_keyed_def)
  have apart: "r \<notin> ran (b_jobs b) \<and> r \<notin> set (queued b q)" if "b_dead_jobs b i = Some r" for i r q
    using dead [of i r] jobs live that unfolding same ran_def by (auto simp: linorder_not_less [symmetric])
  have "inv_maps b"
    using keyed dead' apart same unfolding inv_maps_def by simp
  moreover have "inv_available b" unfolding inv_available_def
  proof (intro allI impI)
    fix i r assume i: "b_jobs b i = Some r" "j_state (deref b r) = StateAvailable"
    then have i0: "b_jobs b0 i = Some r" "j_state (deref b0 r) = StateAvailable" using idx by simp_all
    then have "i \<in> set ord" using jobs ord(3) by blast
    then show "r \<in> set (queued b (j_queue (deref b r)))" using idx i0 by simp
  qed
  ultimately have inv: "backend_inv b" using idx by (simp add: backend_inv_def indexed_def)
  have "\<exists>r \<in> set (queued b (j_queue j)). deref b r = j"
    if "?m i = Some j" "j_state j = StateAvailable" for i j
  proof -
    have i: "i \<in> set ord" using that(1) ord(3) by blast
    then have "fst l1 i \<noteq> None" using r1 that(1) by (metis option.distinct(1))
    then obtain r where r: "b_jobs b0 i = Some r" by (auto simp: b0_def)
    then have "deref b0 r = j" using jobs [OF r] that(1) by simp
    then show ?thesis using idx i r that(2) by auto
  qed
  then show ?thesis using inv by blast
qed

lemma restart_requeues_witness:
  "\<exists>r \<in> set (queued (New sample_deps (1, 1, 1) (Some (put_job_row ''a'' ''a'' initSchema)) [''a''] []) '''').
     j_id (deref (New sample_deps (1, 1, 1) (Some (put_job_row ''a'' ''a'' initSchema)) [''a''] []) r) = ''a''"
proof -
  let ?p = "put_job_row ''a'' ''a'' initSchema"
  let ?j = "empty_job\<lparr>j_id := ''a'', j_state := StateAvailable\<rparr>"
  have jobs: "ps_jobs (LoadAll sample_deps ?p) = [''a'' \<mapsto> ?j]"
    by (auto simp: LoadAll_def put_job_row_def initSchema_def sample_deps_def fun_eq_iff)
  have dead: "ps_dead_jobs (LoadAll sample_deps ?p) = Map.empty"
    by (auto simp: LoadAll_def put_job_row_def initSchema_def fun_eq_iff)
  have k: "rows_keyed (ps_jobs (LoadAll sample_deps ?p))" "rows_keyed (ps_dead_jobs (LoadAll sample_deps ?p))"
    unfolding jobs dead by (simp_all add: rows_keyed_def)
  have v: "visits [''a''] (ps_jobs (LoadAll sample_deps ?p))" "visits [] (ps_dead_jobs (LoadAll sample_deps ?p))"
    unfolding jobs dead by (simp_all add: visits_def)
  note start = restart_requeues [OF k v refl, of "(1, 1, 1)", THEN conjunct2]
  have "ps_jobs (LoadAll sample_deps ?p) ''a'' = Some ?j \<and> j_state ?j = StateAvailable" by (simp add: jobs)
  then have "\<exists>r \<in> set (queued (New sample_deps (1, 1, 1) (Some ?p) [''a''] []) (j_queue ?j)).
      deref (New sample_deps (1, 1, 1) (Some ?p) [''a''] []) r = ?j"
    using start by blast
  moreover have "j_queue ?j = ''''" "j_id ?j = ''a''" by (simp_all add: empty_job_def)
  ultimately show ?thesis by metis
qed

end
