(* ===== verification/Event_Broker.thy ===== *)
theory Event_Broker
  imports Prelude "HOL-Library.Sublist"
begin

text \<open>
  The in-process event broker (\<open>internal/events/broker.go\<close>): subscriptions to a job, to a queue and to everything, each
  with a Go channel of its own. A channel is its buffered events; sending on a closed channel and closing a channel
  twice panic, which is \<open>None\<close>. The broker's methods hold its lock, so runs interleave whole operations.
\<close>

section \<open>Data\<close>

text \<open>\<open>core.JobEvent\<close>\<close>

record job_event =
  ev_type :: string
  ev_job_id :: string
  ev_queue :: string
  ev_job_type :: string
  ev_from :: string
  ev_to :: string
  ev_progress :: int
  ev_message :: string
  ev_timestamp :: string

text \<open>The struct \<open>Broker\<close> with the channels it has made: their contents and which of them the runtime has closed.
  \<open>b_closed\<close> is the broker's own map of the channels it closed.\<close>

record broker =
  b_subscribers :: "string \<rightharpoonup> nat list"
  b_allSubs :: "nat list"
  b_closed :: "nat set"
  b_bufSize :: nat
  ch_next :: nat
  ch_buffer :: "nat \<Rightarrow> job_event list"
  ch_shut :: "nat set"

definition NewBroker :: broker where
  "NewBroker = \<lparr>b_subscribers = Map.empty, b_allSubs = [], b_closed = {}, b_bufSize = 64,
     ch_next = 0, ch_buffer = (\<lambda>ch. []), ch_shut = {}\<rparr>"

section \<open>Channels\<close>

definition make_chan :: "broker \<Rightarrow> nat \<times> broker" where
  "make_chan b = (ch_next b, b\<lparr>ch_next := Suc (ch_next b), ch_buffer := (ch_buffer b)(ch_next b := [])\<rparr>)"

text \<open>\<open>select { case ch <- event: default: }\<close>\<close>

definition try_send :: "job_event \<Rightarrow> nat \<Rightarrow> broker \<Rightarrow> broker option" where
  "try_send e ch b =
     (if ch \<in> ch_shut b then None
      else Some (if length (ch_buffer b ch) < b_bufSize b
                 then b\<lparr>ch_buffer := (ch_buffer b)(ch := ch_buffer b ch @ [e])\<rparr> else b))"

definition close_chan :: "nat \<Rightarrow> broker \<Rightarrow> broker option" where
  "close_chan ch b = (if ch \<in> ch_shut b then None else Some (b\<lparr>ch_shut := insert ch (ch_shut b)\<rparr>))"

text \<open>What a receive on the channel gives: an event, nothing yet, or the end of a closed channel.\<close>

datatype received = Received job_event | Blocks | Ended

definition receive :: "nat \<Rightarrow> broker \<Rightarrow> received \<times> broker" where
  "receive ch b =
     (case ch_buffer b ch of
        e # es \<Rightarrow> (Received e, b\<lparr>ch_buffer := (ch_buffer b)(ch := es)\<rparr>)
      | [] \<Rightarrow> (if ch \<in> ch_shut b then Ended else Blocks, b))"

section \<open>Publishing\<close>

fun send_each :: "job_event \<Rightarrow> nat list \<Rightarrow> broker \<Rightarrow> broker option" where
  "send_each e [] b = Some b"
| "send_each e (ch # chs) b = Option.bind (try_send e ch b) (send_each e chs)"

definition subs_of :: "string \<Rightarrow> broker \<Rightarrow> nat list" where
  "subs_of key b = (case b_subscribers b key of None \<Rightarrow> [] | Some subs \<Rightarrow> subs)"

definition job_key :: "string \<Rightarrow> string" where "job_key i = ''job:'' @ i"

definition queue_key :: "string \<Rightarrow> string" where "queue_key q = ''queue:'' @ q"

text \<open>A nil event is ignored.\<close>

definition PublishJobEvent :: "job_event option \<Rightarrow> broker \<Rightarrow> broker option" where
  "PublishJobEvent event b =
     (case event of
        None \<Rightarrow> Some b
      | Some e \<Rightarrow>
          Option.bind (send_each e (subs_of (job_key (ev_job_id e)) b) b) (\<lambda>b1.
          Option.bind (if ev_queue e \<noteq> '''' then send_each e (subs_of (queue_key (ev_queue e)) b1) b1 else Some b1) (\<lambda>b2.
          send_each e (b_allSubs b2) b2)))"

section \<open>Subscribing\<close>

definition subscribe_key :: "string \<Rightarrow> broker \<Rightarrow> nat \<times> broker" where
  "subscribe_key key b =
     (let (ch, b1) = make_chan b
      in (ch, b1\<lparr>b_subscribers := (b_subscribers b1)(key \<mapsto> subs_of key b1 @ [ch])\<rparr>))"

definition SubscribeJob :: "string \<Rightarrow> broker \<Rightarrow> nat \<times> broker" where
  "SubscribeJob jobID b = subscribe_key (job_key jobID) b"

definition SubscribeQueue :: "string \<Rightarrow> broker \<Rightarrow> nat \<times> broker" where
  "SubscribeQueue queue b = subscribe_key (queue_key queue) b"

definition SubscribeAll :: "broker \<Rightarrow> nat \<times> broker" where
  "SubscribeAll b = (let (ch, b1) = make_chan b in (ch, b1\<lparr>b_allSubs := b_allSubs b1 @ [ch]\<rparr>))"

definition safeClose :: "nat \<Rightarrow> broker \<Rightarrow> broker option" where
  "safeClose ch b =
     (if ch \<in> b_closed b then Some b
      else Option.bind (close_chan ch b) (\<lambda>b1. Some (b1\<lparr>b_closed := insert ch (b_closed b1)\<rparr>)))"

text \<open>The function \<open>unsub\<close> that \<open>SubscribeJob\<close> and \<open>SubscribeQueue\<close> return, and that of \<open>SubscribeAll\<close>.\<close>

definition unsub_key :: "string \<Rightarrow> nat \<Rightarrow> broker \<Rightarrow> broker option" where
  "unsub_key key ch b =
     (let subs = remove_first ((=) ch) (subs_of key b)
      in safeClose ch (b\<lparr>b_subscribers := (b_subscribers b)(key := if subs = [] then None else Some subs)\<rparr>))"

definition unsub_all :: "nat \<Rightarrow> broker \<Rightarrow> broker option" where
  "unsub_all ch b = safeClose ch (b\<lparr>b_allSubs := remove_first ((=) ch) (b_allSubs b)\<rparr>)"

fun close_each :: "nat list \<Rightarrow> broker \<Rightarrow> broker option" where
  "close_each [] b = Some b"
| "close_each (ch # chs) b = Option.bind (safeClose ch b) (close_each chs)"

text \<open>\<open>ord\<close> lists the keys of the map in the order Go visits them.\<close>

definition Close :: "string list \<Rightarrow> broker \<Rightarrow> broker option" where
  "Close ord b =
     Option.bind (close_each (concat (map (\<lambda>k. subs_of k b) ord)) b) (\<lambda>b1.
     Option.bind (close_each (b_allSubs b1) b1) (\<lambda>b2.
     Some (b2\<lparr>b_subscribers := Map.empty, b_allSubs := []\<rparr>)))"

end
