(* ===== verification/Grpc_Convert.thy ===== *)
theory Grpc_Convert
  imports Backend_Scheduler Event_Broker
begin

text \<open>
  The conversions between protocol messages and the backend's data (\<open>internal/grpc/convert.go\<close> and the helpers of
  \<open>server.go\<close>). JSON, the well-known protobuf types and durations are code outside the repository: \<open>grpc_env\<close>.
  A protobuf \<open>Value\<close> or \<open>Struct\<close> is what \<open>AsInterface\<close> or \<open>AsMap\<close> gives, written as text; a \<open>Timestamp\<close> or \<open>Duration\<close> is
  its nanoseconds.
\<close>

record grpc_env =
  unmarshal_list :: "string \<Rightarrow> string list option" \<comment> \<open>\<open>json.Unmarshal\<close> into \<open>[]any\<close>\<close>
  unmarshal_object :: "string \<Rightarrow> string option" \<comment> \<open>\<open>json.Unmarshal\<close> into \<open>map[string]any\<close>\<close>
  new_value :: "string \<Rightarrow> string option"
  new_struct :: "string \<Rightarrow> string option"
  marshal_values :: "string list \<Rightarrow> string option"
  marshal_struct :: "string \<Rightarrow> string option"
  parse_rfc3339 :: "string \<Rightarrow> int option"
  format_rfc3339 :: "int \<Rightarrow> string"
  parse_duration :: "string \<Rightarrow> int option"
  duration_string :: "int \<Rightarrow> string"
  error_message :: "go_error \<Rightarrow> string"

section \<open>Messages\<close>

datatype proto_state =
  JOB_STATE_UNSPECIFIED | JOB_STATE_SCHEDULED | JOB_STATE_AVAILABLE | JOB_STATE_PENDING | JOB_STATE_ACTIVE
| JOB_STATE_COMPLETED | JOB_STATE_RETRYABLE | JOB_STATE_CANCELLED | JOB_STATE_DISCARDED

datatype proto_workflow_state =
  WORKFLOW_STATE_UNSPECIFIED | WORKFLOW_STATE_RUNNING | WORKFLOW_STATE_COMPLETED | WORKFLOW_STATE_FAILED
| WORKFLOW_STATE_CANCELLED

datatype proto_worker_state = WORKER_STATE_RUNNING | WORKER_STATE_QUIET | WORKER_STATE_TERMINATE

record proto_retry =
  pr_max_attempts :: "32 word"
  pr_backoff_coefficient :: "64 word"
  pr_jitter :: bool
  pr_initial_interval :: "int option"
  pr_max_interval :: "int option"

record proto_unique =
  pu_key :: "string list"
  pu_period :: "int option"

record proto_job =
  pj_id :: string
  pj_type :: string
  pj_queue :: string
  pj_state :: proto_state
  pj_attempt :: "32 word"
  pj_priority :: "32 word"
  pj_args :: "string list"
  pj_meta :: "string option"
  pj_result :: "string option"
  pj_created_at :: "int option"
  pj_enqueued_at :: "int option"
  pj_scheduled_at :: "int option"
  pj_started_at :: "int option"
  pj_completed_at :: "int option"
  pj_retry_policy :: "proto_retry option"
  pj_unique_policy :: "proto_unique option"

record proto_options =
  po_queue :: string
  po_priority :: "32 word"
  po_meta :: "string option"
  po_retry :: "proto_retry option"
  po_unique :: "proto_unique option"
  po_delay_until :: "int option"

text \<open>\<open>EnqueueRequest\<close> and \<open>BatchJobEntry\<close> have the same fields.\<close>

record enqueue_request =
  er_type :: string
  er_args :: "string list"
  er_options :: "proto_options option"

section \<open>Jobs\<close>

definition stateToProto :: "job_state \<Rightarrow> proto_state" where
  "stateToProto s =
     (case s of
        StateScheduled \<Rightarrow> JOB_STATE_SCHEDULED
      | StateAvailable \<Rightarrow> JOB_STATE_AVAILABLE
      | StatePending \<Rightarrow> JOB_STATE_PENDING
      | StateActive \<Rightarrow> JOB_STATE_ACTIVE
      | StateCompleted \<Rightarrow> JOB_STATE_COMPLETED
      | StateRetryable \<Rightarrow> JOB_STATE_RETRYABLE
      | StateCancelled \<Rightarrow> JOB_STATE_CANCELLED
      | StateDiscarded \<Rightarrow> JOB_STATE_DISCARDED
      | StateOther _ \<Rightarrow> JOB_STATE_UNSPECIFIED)"

definition parseRFC3339 :: "grpc_env \<Rightarrow> string \<Rightarrow> int option" where
  "parseRFC3339 E s = (if s = '''' then None else parse_rfc3339 E s)"

definition args_to_proto :: "grpc_env \<Rightarrow> string option \<Rightarrow> string list" where
  "args_to_proto E args =
     (case Option.bind args (unmarshal_list E) of None \<Rightarrow> [] | Some vs \<Rightarrow> List.map_filter (new_value E) vs)"

definition struct_to_proto :: "grpc_env \<Rightarrow> string option \<Rightarrow> string option" where
  "struct_to_proto E m = Option.bind (Option.bind m (unmarshal_object E)) (new_struct E)"

definition retry_to_proto :: "grpc_env \<Rightarrow> retry_policy \<Rightarrow> proto_retry" where
  "retry_to_proto E r =
     \<lparr>pr_max_attempts = word_of_int (rp_max_attempts r), pr_backoff_coefficient = rp_backoff_coefficient r,
      pr_jitter = rp_jitter r, pr_initial_interval = parse_duration E (rp_initial_interval r),
      pr_max_interval = parse_duration E (rp_max_interval r)\<rparr>"

definition unique_to_proto :: "grpc_env \<Rightarrow> unique_policy \<Rightarrow> proto_unique" where
  "unique_to_proto E u = \<lparr>pu_key = up_keys u, pu_period = parse_duration E (up_period u)\<rparr>"

definition jobToProto :: "grpc_env \<Rightarrow> job \<Rightarrow> proto_job" where
  "jobToProto E j =
     \<lparr>pj_id = j_id j, pj_type = j_type j, pj_queue = j_queue j, pj_state = stateToProto (j_state j),
      pj_attempt = word_of_int (j_attempt j),
      pj_priority = (case j_priority j of None \<Rightarrow> 0 | Some p \<Rightarrow> word_of_int p),
      pj_args = args_to_proto E (j_args j), pj_meta = struct_to_proto E (j_meta j),
      pj_result = struct_to_proto E (j_result j),
      pj_created_at = parseRFC3339 E (j_created_at j), pj_enqueued_at = parseRFC3339 E (j_enqueued_at j),
      pj_scheduled_at = parseRFC3339 E (j_scheduled_at j), pj_started_at = parseRFC3339 E (j_started_at j),
      pj_completed_at = parseRFC3339 E (j_completed_at j),
      pj_retry_policy = map_option (retry_to_proto E) (j_retry j),
      pj_unique_policy = map_option (unique_to_proto E) (j_unique j)\<rparr>"

text \<open>A policy that comes in by gRPC has durations in Go's notation and no exhaustion or conflict rule.\<close>

definition protoRetryToCore :: "grpc_env \<Rightarrow> proto_retry \<Rightarrow> retry_policy" where
  "protoRetryToCore E r =
     \<lparr>rp_max_attempts = sint (pr_max_attempts r), rp_on_exhaustion = '''',
      rp_initial_interval = (case pr_initial_interval r of None \<Rightarrow> '''' | Some d \<Rightarrow> duration_string E d),
      rp_max_interval = (case pr_max_interval r of None \<Rightarrow> '''' | Some d \<Rightarrow> duration_string E d),
      rp_backoff_coefficient = pr_backoff_coefficient r, rp_jitter = pr_jitter r\<rparr>"

definition protoUniqueToCore :: "grpc_env \<Rightarrow> proto_unique \<Rightarrow> unique_policy" where
  "protoUniqueToCore E u =
     \<lparr>up_keys = pu_key u, up_on_conflict = '''', up_states = [],
      up_period = (case pu_period u of None \<Rightarrow> '''' | Some d \<Rightarrow> duration_string E d)\<rparr>"

text \<open>Arguments and metadata that do not marshal are logged and left out.\<close>

definition request_args :: "grpc_env \<Rightarrow> string list \<Rightarrow> string option" where
  "request_args E args = (if args = [] then None else marshal_values E args)"

definition basic_options :: "grpc_env \<Rightarrow> proto_options \<Rightarrow> job \<Rightarrow> job" where
  "basic_options E opts job =
     (let job = (if po_queue opts \<noteq> '''' then job\<lparr>j_queue := po_queue opts\<rparr> else job);
          job = (if po_priority opts \<noteq> 0 then job\<lparr>j_priority := Some (sint (po_priority opts))\<rparr> else job)
      in job\<lparr>j_meta := Option.bind (po_meta opts) (marshal_struct E)\<rparr>)"

definition enqueueRequestToJob :: "grpc_env \<Rightarrow> enqueue_request \<Rightarrow> job" where
  "enqueueRequestToJob E req =
     (let job = empty_job\<lparr>j_type := er_type req, j_args := request_args E (er_args req)\<rparr>
      in case er_options req of
           None \<Rightarrow> job
         | Some opts \<Rightarrow> (basic_options E opts job)
             \<lparr>j_retry := map_option (protoRetryToCore E) (po_retry opts),
              j_unique := map_option (protoUniqueToCore E) (po_unique opts),
              j_scheduled_at := (case po_delay_until opts of None \<Rightarrow> '''' | Some t \<Rightarrow> format_rfc3339 E t)\<rparr>)"

definition enqueueJobRequestToJob :: "grpc_env \<Rightarrow> enqueue_request \<Rightarrow> job" where
  "enqueueJobRequestToJob E req =
     (let job = empty_job\<lparr>j_type := er_type req, j_args := request_args E (er_args req)\<rparr>
      in case er_options req of None \<Rightarrow> job | Some opts \<Rightarrow> basic_options E opts job)"

section \<open>Workflows\<close>

definition stateToWorkflowProto :: "string \<Rightarrow> proto_workflow_state" where
  "stateToWorkflowProto s =
     (if s = ''running'' then WORKFLOW_STATE_RUNNING
      else if s = ''completed'' then WORKFLOW_STATE_COMPLETED
      else if s = ''failed'' then WORKFLOW_STATE_FAILED
      else if s = ''cancelled'' then WORKFLOW_STATE_CANCELLED
      else WORKFLOW_STATE_UNSPECIFIED)"

record proto_workflow =
  pw_id :: string
  pw_name :: string
  pw_state :: proto_workflow_state
  pw_created_at :: "int option"
  pw_completed_at :: "int option"

definition workflowToProto :: "grpc_env \<Rightarrow> workflow_view \<Rightarrow> proto_workflow" where
  "workflowToProto E view =
     \<lparr>pw_id = v_id view, pw_name = v_name view, pw_state = stateToWorkflowProto (v_state view),
      pw_created_at = parseRFC3339 E (v_created_at view), pw_completed_at = parseRFC3339 E (v_completed_at view)\<rparr>"

record proto_step =
  ps_id :: string
  ps_type :: string
  ps_args :: "string list"

record create_workflow_request =
  cw_name :: string
  cw_steps :: "proto_step list"

definition protoToWorkflowStep :: "grpc_env \<Rightarrow> proto_step \<Rightarrow> workflow_job_request" where
  "protoToWorkflowStep E s =
     \<lparr>wj_name = ps_id s, wj_type = ps_type s, wj_args = request_args E (ps_args s), wj_options = None\<rparr>"

text \<open>The type of the workflow and its jobs are left empty.\<close>

definition protoToWorkflowRequest :: "grpc_env \<Rightarrow> create_workflow_request \<Rightarrow> workflow_request" where
  "protoToWorkflowRequest E req =
     \<lparr>wr_name = cw_name req, wr_type = '''', wr_jobs = [], wr_steps = map (protoToWorkflowStep E) (cw_steps req),
      wr_callbacks = None\<rparr>"

section \<open>Errors, workers and events\<close>

datatype grpc_code = Internal | NotFound | AlreadyExists | InvalidArgument | Unavailable

text \<open>What a call fails with: a status, or the panic of the backend.\<close>

datatype rpc_error = Status grpc_code string | Panic string

definition coreErrorToGRPC :: "grpc_env \<Rightarrow> go_error \<Rightarrow> rpc_error" where
  "coreErrorToGRPC E err =
     (case err of
        NotFoundError _ _ \<Rightarrow> Status NotFound (error_message E err)
      | ConflictError _ \<Rightarrow> Status AlreadyExists (error_message E err)
      | DuplicateError _ _ \<Rightarrow> Status AlreadyExists (error_message E err)
      | InvalidRequestError _ \<Rightarrow> Status InvalidArgument (error_message E err)
      | ValidationError _ \<Rightarrow> Status InvalidArgument (error_message E err)
      | PlainError _ \<Rightarrow> Status Internal (error_message E err)
      | GoPanic s \<Rightarrow> Panic s)"

definition directiveToWorkerState :: "string \<Rightarrow> proto_worker_state" where
  "directiveToWorkerState directive =
     (if directive = ''quiet'' then WORKER_STATE_QUIET
      else if directive = ''terminate'' then WORKER_STATE_TERMINATE else WORKER_STATE_RUNNING)"

datatype event_datum = Text_datum string | Number_datum int

record proto_event =
  pe_id :: string
  pe_type :: string
  pe_job_id :: string
  pe_job_type :: string
  pe_queue :: string
  pe_timestamp :: "int option"
  pe_data :: "(string \<times> event_datum) list option"

text \<open>\<open>uuid\<close> is the UUID drawn for the event.\<close>

definition jobEventToProto :: "grpc_env \<Rightarrow> string \<Rightarrow> job_event \<Rightarrow> proto_event" where
  "jobEventToProto E uuid e =
     (let data = (if ev_from e \<noteq> '''' then [(''from'', Text_datum (ev_from e))] else []) @
                 (if ev_to e \<noteq> '''' then [(''to'', Text_datum (ev_to e))] else []) @
                 (if 0 < ev_progress e then [(''progress'', Number_datum (ev_progress e))] else []) @
                 (if ev_message e \<noteq> '''' then [(''message'', Text_datum (ev_message e))] else [])
      in \<lparr>pe_id = ''evt_'' @ uuid, pe_type = ev_type e, pe_job_id = ev_job_id e, pe_job_type = ev_job_type e,
          pe_queue = ev_queue e, pe_timestamp = parseRFC3339 E (ev_timestamp e),
          pe_data = (if data = [] then None else Some data)\<rparr>)"

section \<open>Requests and what becomes of them\<close>

text \<open>The entries of a batch are converted like single requests without their retry policy, unique policy and delay:
  these options of an entry are dropped, so an entry that asks for a delay is available at once.\<close>

lemma batch_drops_options:
  "enqueueJobRequestToJob E req =
     (enqueueRequestToJob E req)\<lparr>j_retry := None, j_unique := None, j_scheduled_at := ''''\<rparr> \<and>
   \<not> starts_scheduled D now (enqueueJobRequestToJob E req)"
proof -
  have "enqueueJobRequestToJob E req = (enqueueRequestToJob E req)\<lparr>j_retry := None, j_unique := None, j_scheduled_at := ''''\<rparr>"
    by (rule job.equality)
      (auto simp: enqueueJobRequestToJob_def enqueueRequestToJob_def basic_options_def empty_job_def Let_def split: option.split)
  then show ?thesis by (simp add: starts_scheduled_def)
qed

text \<open>What a request asks for comes back in the job's message: type, arguments, queue, priority, retry policy and unique
  policy, when Go parses the durations and the JSON it has printed itself.\<close>

lemma request_roundtrip:
  assumes "er_options req = Some opts"
    and "\<And>d. parse_duration E (duration_string E d) = Some d" "parse_duration E '''' = None"
    and "\<And>vs. vs \<noteq> [] \<Longrightarrow> \<exists>s. marshal_values E vs = Some s \<and> unmarshal_list E s = Some vs"
    and "\<And>v. new_value E v = Some v"
  shows "let p = jobToProto E (enqueueRequestToJob E req) in
    pj_type p = er_type req \<and> pj_args p = er_args req \<and> pj_queue p = po_queue opts \<and> pj_priority p = po_priority opts \<and>
    pj_retry_policy p = po_retry opts \<and> pj_unique_policy p = po_unique opts"
proof -
  have args: "args_to_proto E (request_args E (er_args req)) = er_args req"
  proof (cases "er_args req = []")
    case True
    then show ?thesis by (simp add: args_to_proto_def request_args_def)
  next
    case False
    then obtain s where "marshal_values E (er_args req) = Some s" "unmarshal_list E s = Some (er_args req)"
      using assms(4) by blast
    moreover have "List.map_filter (new_value E) vs = vs" for vs
      by (induction vs) (simp_all add: List.map_filter_simps assms(5))
    ultimately show ?thesis using False by (simp add: args_to_proto_def request_args_def)
  qed
  have retry: "retry_to_proto E (protoRetryToCore E r) = r" for r
    by (cases r) (simp add: retry_to_proto_def protoRetryToCore_def assms(2,3) split: option.split)
  have unique: "unique_to_proto E (protoUniqueToCore E u) = u" for u
    by (cases u) (simp add: unique_to_proto_def protoUniqueToCore_def assms(2,3) split: option.split)
  show ?thesis
    using args by (auto simp: jobToProto_def enqueueRequestToJob_def basic_options_def assms(1) empty_job_def Let_def
      option.map_comp o_def retry unique option.map_ident)
qed

section \<open>A concrete environment\<close>

text \<open>Lists of texts with every character marked and every text ended; durations and times as a sign and strokes.\<close>

definition sample_encode :: "string list \<Rightarrow> string" where
  "sample_encode vs = concat (map (\<lambda>v. concat (map (\<lambda>c. [CHR ''c'', c]) v) @ [CHR '';'']) vs)"

fun sample_decode :: "string \<Rightarrow> string list" where
  "sample_decode (m # c # s) =
     (if m = CHR '';'' then [] # sample_decode (c # s)
      else (case sample_decode s of [] \<Rightarrow> [[c]] | v # vs \<Rightarrow> (c # v) # vs))"
| "sample_decode [m] = [[]]"
| "sample_decode [] = []"

definition strokes :: "int \<Rightarrow> string" where
  "strokes d = (if d < 0 then CHR ''-'' else CHR ''+'') # replicate (nat \<bar>d\<bar>) (CHR ''1'')"

definition unstroke :: "string \<Rightarrow> int option" where
  "unstroke s = (case s of [] \<Rightarrow> None | c # cs \<Rightarrow> Some (if c = CHR ''+'' then int (length cs) else - int (length cs)))"

lemma unstroke_strokes: "unstroke (strokes d) = Some d"
  by (simp add: strokes_def unstroke_def)

lemma unstroke_empty: "unstroke [] = None"
  by (simp add: unstroke_def)

lemma sample_decode_end: "sample_decode (CHR '';'' # s) = [] # sample_decode s"
  by (cases s) simp_all

lemma sample_decode_one: "sample_decode (concat (map (\<lambda>c. [CHR ''c'', c]) v) @ CHR '';'' # s) = v # sample_decode s"
  by (induction v) (simp_all add: sample_decode_end)

lemma sample_decode_encode: "sample_decode (sample_encode vs) = vs"
  by (induction vs) (simp_all add: sample_encode_def sample_decode_one)

definition sample_grpc :: grpc_env where
  "sample_grpc = \<lparr>unmarshal_list = (\<lambda>s. Some (sample_decode s)), unmarshal_object = Some, new_value = Some,
     new_struct = Some, marshal_values = (\<lambda>vs. Some (sample_encode vs)), marshal_struct = Some, parse_rfc3339 = unstroke,
     format_rfc3339 = strokes, parse_duration = unstroke, duration_string = strokes, error_message = (\<lambda>e. ''failed'')\<rparr>"

end
