(* ===== verification/Event_Delivery.thy ===== *)
theory Event_Delivery
  imports Event_Broker
begin

text \<open>
  What subscribers get from the event broker: no operation panics, a subscriber that keeps its subscription receives
  the events it asked for in their order, and all of them while its channel has room.
\<close>

section \<open>Subscriptions\<close>

datatype subscription = To_job string | To_queue string | To_all

fun listeners :: "subscription \<Rightarrow> broker \<Rightarrow> nat list" where
  "listeners (To_job i) b = subs_of (job_key i) b"
| "listeners (To_queue q) b = subs_of (queue_key q) b"
| "listeners To_all b = b_allSubs b"

fun matches :: "subscription \<Rightarrow> job_event \<Rightarrow> bool" where
  "matches (To_job i) e \<longleftrightarrow> ev_job_id e = i"
| "matches (To_queue q) e \<longleftrightarrow> ev_queue e = q \<and> q \<noteq> ''''"
| "matches To_all e \<longleftrightarrow> True"

fun subscribe :: "subscription \<Rightarrow> broker \<Rightarrow> nat \<times> broker" where
  "subscribe (To_job i) b = SubscribeJob i b"
| "subscribe (To_queue q) b = SubscribeQueue q b"
| "subscribe To_all b = SubscribeAll b"

fun unsubscribe :: "subscription \<Rightarrow> nat \<Rightarrow> broker \<Rightarrow> broker option" where
  "unsubscribe (To_job i) ch b = unsub_key (job_key i) ch b"
| "unsubscribe (To_queue q) ch b = unsub_key (queue_key q) ch b"
| "unsubscribe To_all ch b = unsub_all ch b"

text \<open>Keys of jobs and queues are told apart by their prefix, whatever the names.\<close>

lemma keys_apart [simp]:
  "job_key i = job_key i' \<longleftrightarrow> i = i'" "queue_key q = queue_key q' \<longleftrightarrow> q = q'"
  "job_key i \<noteq> queue_key q" "queue_key q \<noteq> job_key i"
  by (simp_all add: job_key_def queue_key_def)

section \<open>Delivery to a set of channels\<close>

definition deliver :: "job_event \<Rightarrow> nat set \<Rightarrow> broker \<Rightarrow> broker" where
  "deliver e A b = b\<lparr>ch_buffer := (\<lambda>ch. if ch \<in> A \<and> length (ch_buffer b ch) < b_bufSize b
     then ch_buffer b ch @ [e] else ch_buffer b ch)\<rparr>"

lemma deliver_fields [simp]:
  "b_subscribers (deliver e A b) = b_subscribers b" "b_allSubs (deliver e A b) = b_allSubs b"
  "b_closed (deliver e A b) = b_closed b" "b_bufSize (deliver e A b) = b_bufSize b"
  "ch_next (deliver e A b) = ch_next b" "ch_shut (deliver e A b) = ch_shut b"
  "subs_of k (deliver e A b) = subs_of k b" "listeners s (deliver e A b) = listeners s b"
  by (cases s; simp add: deliver_def subs_of_def)+

lemma deliver_buffer:
  "ch_buffer (deliver e A b) ch = (if ch \<in> A \<and> length (ch_buffer b ch) < b_bufSize b
     then ch_buffer b ch @ [e] else ch_buffer b ch)"
  by (simp add: deliver_def)

lemma deliver_empty [simp]: "deliver e {} b = b"
  by (simp add: deliver_def)

lemma deliver_twice: "A \<inter> B = {} \<Longrightarrow> deliver e B (deliver e A b) = deliver e (A \<union> B) b"
  by (rule broker.equality) (auto simp: deliver_def fun_eq_iff)

lemma send_each_deliver:
  "distinct chs \<Longrightarrow> set chs \<inter> ch_shut b = {} \<Longrightarrow> send_each e chs b = Some (deliver e (set chs) b)"
proof (induction chs arbitrary: b)
  case (Cons ch chs)
  have "try_send e ch b = Some (deliver e {ch} b)"
    using Cons.prems(2) by (auto simp: try_send_def deliver_def fun_eq_iff)
  then show ?case using Cons deliver_twice [of "{ch}" "set chs" e b] by simp
qed simp

section \<open>The invariant\<close>

text \<open>\<open>C\<close> are the subscriptions handed out so far, each with its channel; callers hold the \<open>unsub\<close> functions of these.\<close>

type_synonym closures = "(subscription \<times> nat) set"

definition broker_inv :: "closures \<Rightarrow> broker \<Rightarrow> bool" where
  "broker_inv C b \<longleftrightarrow>
     (\<forall>s. distinct (listeners s b) \<and> (\<forall>ch \<in> set (listeners s b). (s, ch) \<in> C \<and> ch \<notin> ch_shut b)) \<and>
     (\<forall>s ch. (s, ch) \<in> C \<longrightarrow> ch < ch_next b) \<and> (\<forall>s s' ch. (s, ch) \<in> C \<and> (s', ch) \<in> C \<longrightarrow> s = s') \<and>
     (\<forall>ch \<in> ch_shut b. ch < ch_next b) \<and> ch_shut b = b_closed b \<and>
     dom (b_subscribers b) \<subseteq> range job_key \<union> range queue_key"

lemma broker_invD:
  assumes "broker_inv C b"
  shows "distinct (listeners s b)" "ch \<in> set (listeners s b) \<Longrightarrow> (s, ch) \<in> C" "ch \<in> set (listeners s b) \<Longrightarrow> ch \<notin> ch_shut b"
    and "(s, ch) \<in> C \<Longrightarrow> ch < ch_next b" "(s, ch) \<in> C \<Longrightarrow> (s', ch) \<in> C \<Longrightarrow> s = s'"
    and "ch \<in> ch_shut b \<Longrightarrow> ch < ch_next b" "ch_shut b = b_closed b"
    and "dom (b_subscribers b) \<subseteq> range job_key \<union> range queue_key"
  using assms unfolding broker_inv_def by blast+

lemma broker_invI:
  assumes "\<And>s. distinct (listeners s b)" "\<And>s ch. ch \<in> set (listeners s b) \<Longrightarrow> (s, ch) \<in> C \<and> ch \<notin> ch_shut b"
    and "\<And>s ch. (s, ch) \<in> C \<Longrightarrow> ch < ch_next b" "\<And>s s' ch. (s, ch) \<in> C \<Longrightarrow> (s', ch) \<in> C \<Longrightarrow> s = s'"
    and "\<And>ch. ch \<in> ch_shut b \<Longrightarrow> ch < ch_next b" "ch_shut b = b_closed b"
    and "dom (b_subscribers b) \<subseteq> range job_key \<union> range queue_key"
  shows "broker_inv C b"
  using assms unfolding broker_inv_def by blast

lemma broker_inv_new: "broker_inv {} NewBroker"
proof -
  have "listeners s NewBroker = []" for s by (cases s) (simp_all add: NewBroker_def subs_of_def)
  then show ?thesis by (simp add: broker_inv_def) (simp add: NewBroker_def)
qed

text \<open>Who an event goes to.\<close>

definition audience :: "job_event \<Rightarrow> broker \<Rightarrow> nat set" where
  "audience e b = {ch. \<exists>s. matches s e \<and> ch \<in> set (listeners s b)}"

lemma ex_subscription: "(\<exists>s. P s) \<longleftrightarrow> (\<exists>i. P (To_job i)) \<or> (\<exists>q. P (To_queue q)) \<or> P To_all"
  by (metis subscription.exhaust)

lemma audience_split: "audience e b =
    set (listeners (To_job (ev_job_id e)) b) \<union>
    (if ev_queue e \<noteq> '''' then set (listeners (To_queue (ev_queue e)) b) else {}) \<union> set (listeners To_all b)"
  unfolding audience_def ex_subscription by auto

lemma publish_deliver:
  assumes "broker_inv C b"
  shows "PublishJobEvent (Some e) b = Some (deliver e (audience e b) b)"
proof -
  let ?j = "set (listeners (To_job (ev_job_id e)) b)" and ?q = "set (listeners (To_queue (ev_queue e)) b)"
    and ?a = "set (listeners To_all b)"
  have each: "distinct (listeners s b)" "set (listeners s b) \<inter> ch_shut b = {}" for s
    using broker_invD [OF assms] by auto
  have apart: "set (listeners s b) \<inter> set (listeners s' b) = {}" if "s \<noteq> s'" for s s'
    using broker_invD(2,5) [OF assms] that by blast
  have send: "send_each e (listeners s b) (deliver e A b) = Some (deliver e (A \<union> set (listeners s b)) b)"
    if "A \<inter> set (listeners s b) = {}" for s A
    using send_each_deliver [of "listeners s b" "deliver e A b" e] each [of s] deliver_twice [OF that, of e b] by simp
  note first = send [of "{}" "To_job (ev_job_id e)", simplified]
  note second = send [OF apart [of "To_job (ev_job_id e)" "To_queue (ev_queue e)"], simplified]
  have "(?j \<union> ?q) \<inter> ?a = {}" "?j \<inter> ?a = {}"
    using apart [of "To_job (ev_job_id e)" To_all] apart [of "To_queue (ev_queue e)" To_all] by auto
  note third = this [THEN send [of _ To_all], simplified]
  show ?thesis
    unfolding audience_split PublishJobEvent_def using first second third by simp
qed

lemma inv_deliver: "broker_inv C b \<Longrightarrow> broker_inv C (deliver e A b)"
  unfolding broker_inv_def deliver_fields by assumption

section \<open>Subscribing and unsubscribing\<close>

lemma subscribe_result:
  assumes "subscribe s b = (ch, b')"
  shows "ch = ch_next b" "listeners s b' = listeners s b @ [ch]" "s' \<noteq> s \<Longrightarrow> listeners s' b' = listeners s' b"
    "ch_next b' = Suc (ch_next b)" "ch_shut b' = ch_shut b" "b_closed b' = b_closed b" "b_bufSize b' = b_bufSize b"
    "ch_buffer b' = (ch_buffer b)(ch := [])"
    "dom (b_subscribers b') \<subseteq> dom (b_subscribers b) \<union> range job_key \<union> range queue_key"
proof -
  note defs = SubscribeJob_def SubscribeQueue_def SubscribeAll_def subscribe_key_def make_chan_def Let_def subs_of_def
  show "ch = ch_next b" "listeners s b' = listeners s b @ [ch]" "ch_next b' = Suc (ch_next b)" "ch_shut b' = ch_shut b"
    "b_closed b' = b_closed b" "b_bufSize b' = b_bufSize b" "ch_buffer b' = (ch_buffer b)(ch := [])"
    using assms by (cases s; auto simp: defs)+
  have "b_subscribers b' = (case s of
      To_job i \<Rightarrow> (b_subscribers b)(job_key i \<mapsto> listeners s b @ [ch])
    | To_queue q \<Rightarrow> (b_subscribers b)(queue_key q \<mapsto> listeners s b @ [ch]) | To_all \<Rightarrow> b_subscribers b)"
    using assms by (cases s) (auto simp: defs)
  then show "dom (b_subscribers b') \<subseteq> dom (b_subscribers b) \<union> range job_key \<union> range queue_key"
    by (cases s) (simp_all, blast+)
  show "listeners s' b' = listeners s' b" if "s' \<noteq> s"
    using assms that by (cases s; cases s') (auto simp: defs)
qed

lemma safeClose_result:
  assumes "ch_shut b = b_closed b"
  shows "safeClose ch b = Some (b\<lparr>ch_shut := insert ch (ch_shut b), b_closed := insert ch (b_closed b)\<rparr>)"
proof (cases "ch \<in> b_closed b")
  case True
  then have "b\<lparr>ch_shut := insert ch (ch_shut b), b_closed := insert ch (b_closed b)\<rparr> = b"
    using assms by (simp add: insert_absorb)
  then show ?thesis using True by (simp add: safeClose_def)
next
  case False
  then show ?thesis using assms by (simp add: safeClose_def close_chan_def)
qed

lemma unsubscribe_result:
  assumes "ch_shut b = b_closed b"
  obtains b' where "unsubscribe s ch b = Some b'" "listeners s b' = remove_first ((=) ch) (listeners s b)"
    "\<And>s'. s' \<noteq> s \<Longrightarrow> listeners s' b' = listeners s' b" "ch_next b' = ch_next b" "ch_shut b' = insert ch (ch_shut b)"
    "b_closed b' = insert ch (b_closed b)" "b_bufSize b' = b_bufSize b" "ch_buffer b' = ch_buffer b"
    "dom (b_subscribers b') \<subseteq> dom (b_subscribers b)"
proof -
  note defs = unsub_key_def unsub_all_def Let_def subs_of_def
  obtain b' where b': "unsubscribe s ch b = Some b'"
    using assms by (cases s) (simp_all add: defs safeClose_result)
  have other: "listeners s' b' = listeners s' b" if "s' \<noteq> s" for s'
    using assms b' that by (cases s; cases s') (auto simp: defs safeClose_result)
  have b'_eq: "b' = (case s of
      To_all \<Rightarrow> b\<lparr>b_allSubs := remove_first ((=) ch) (b_allSubs b), ch_shut := insert ch (ch_shut b), b_closed := insert ch (b_closed b)\<rparr>
    | _ \<Rightarrow> b\<lparr>b_subscribers := b_subscribers b', ch_shut := insert ch (ch_shut b), b_closed := insert ch (b_closed b)\<rparr>)"
    using assms b' by (cases s) (auto simp: defs safeClose_result)
  have own: "listeners s b' = remove_first ((=) ch) (listeners s b)"
    using assms b' by (cases s) (auto simp: defs safeClose_result)
  have rest: "ch_next b' = ch_next b" "ch_shut b' = insert ch (ch_shut b)" "b_closed b' = insert ch (b_closed b)"
    "b_bufSize b' = b_bufSize b" "ch_buffer b' = ch_buffer b"
    by (subst b'_eq, simp split: subscription.split)+
  have keys: "dom (b_subscribers b') \<subseteq> dom (b_subscribers b)"
    using assms b' by (cases s) (auto simp: defs safeClose_result split: if_splits option.splits)
  show ?thesis by (rule that [OF b' own other rest keys])
qed

lemma close_each_result:
  "ch_shut b = b_closed b \<Longrightarrow>
    close_each chs b = Some (b\<lparr>ch_shut := set chs \<union> ch_shut b, b_closed := set chs \<union> b_closed b\<rparr>)"
  by (induction chs arbitrary: b) (simp_all add: safeClose_result Un_commute)

lemma inv_subscribe:
  assumes "broker_inv C b" "subscribe s b = (ch, b')"
  shows "broker_inv (insert (s, ch) C) b'"
proof (rule broker_invI)
  note new = subscribe_result [OF assms(2)] and old = broker_invD [OF assms(1)]
  have fresh: "(s', ch) \<notin> C" "ch \<notin> ch_shut b" "ch \<notin> set (listeners s' b)" for s'
    using old(2,4,6) unfolding new(1) by blast+
  fix s' c
  show "distinct (listeners s' b')" using old(1) new(2) new(3) [of s'] fresh(3) by (cases "s' = s") auto
  show "(s', c) \<in> insert (s, ch) C \<and> c \<notin> ch_shut b'" if "c \<in> set (listeners s' b')"
    using that old(2,3) [of c s'] new(2,5) new(3) [of s'] fresh(2) by (cases "s' = s") auto
  show "c < ch_next b'" if "(s', c) \<in> insert (s, ch) C" using that old(4) [of s' c] new(1,4) by auto
  show "s' = r" if "(s', c) \<in> insert (s, ch) C" "(r, c) \<in> insert (s, ch) C" for r
    using that old(5) [of s' c r] fresh(1) by auto
  show "c < ch_next b'" if "c \<in> ch_shut b'" using that old(6) [of c] new(4,5) by auto
  show "ch_shut b' = b_closed b'" using old(7) new(5,6) by simp
  show "dom (b_subscribers b') \<subseteq> range job_key \<union> range queue_key" using old(8) new(9) by blast
qed

lemma inv_unsubscribe:
  assumes "broker_inv C b" "(s, ch) \<in> C" "unsubscribe s ch b = Some b'"
  shows "broker_inv C b'"
proof (rule broker_invI)
  note old = broker_invD [OF assms(1)]
  obtain b'' where r: "unsubscribe s ch b = Some b''" "listeners s b'' = remove_first ((=) ch) (listeners s b)"
    "\<And>s'. s' \<noteq> s \<Longrightarrow> listeners s' b'' = listeners s' b" "ch_next b'' = ch_next b" "ch_shut b'' = insert ch (ch_shut b)"
    "b_closed b'' = insert ch (b_closed b)" "dom (b_subscribers b'') \<subseteq> dom (b_subscribers b)"
    using unsubscribe_result [OF old(7), of s ch] by metis
  then have new: "listeners s b' = remove_first ((=) ch) (listeners s b)" "\<And>s'. s' \<noteq> s \<Longrightarrow> listeners s' b' = listeners s' b"
    "ch_next b' = ch_next b" "ch_shut b' = insert ch (ch_shut b)" "b_closed b' = insert ch (b_closed b)"
    "dom (b_subscribers b') \<subseteq> dom (b_subscribers b)"
    using assms(3) by simp_all
  have own: "distinct (listeners s b')" "ch \<notin> set (listeners s b')" "set (listeners s b') \<subseteq> set (listeners s b)"
    unfolding new(1) by (simp_all add: distinct_remove_first old(1) remove_first_notin set_remove_first_subset)
  fix s' c
  show "distinct (listeners s' b')" using own(1) new(2) [of s'] old(1) [of s'] by (cases "s' = s") auto
  show "(s', c) \<in> C \<and> c \<notin> ch_shut b'" if "c \<in> set (listeners s' b')"
  proof (cases "s' = s")
    case True
    then show ?thesis using that own(2,3) old(2,3) [of c s] new(4) by auto
  next
    case False
    then have "c \<in> set (listeners s' b)" using that new(2) by simp
    moreover have "c \<noteq> ch" using False old(5) [OF old(2) [OF calculation]] assms(2) by blast
    ultimately show ?thesis using old(2,3) [of c s'] new(4) by auto
  qed
  show "c < ch_next b'" if "(s', c) \<in> C" using that old(4) new(3) by simp
  show "s' = r" if "(s', c) \<in> C" "(r, c) \<in> C" for r using that old(5) by blast
  show "c < ch_next b'" if "c \<in> ch_shut b'" using that old(6) [of c] old(4) [OF assms(2)] new(3,4) by auto
  show "ch_shut b' = b_closed b'" using old(7) new(4,5) by simp
  show "dom (b_subscribers b') \<subseteq> range job_key \<union> range queue_key" using old(8) new(6) by blast
qed

section \<open>The system\<close>

lemma Close_result:
  assumes "ch_shut b = b_closed b"
  obtains b' where "Close ord b = Some b'" "\<And>s. listeners s b' = []" "ch_next b' = ch_next b"
    "ch_shut b' = set (concat (map (\<lambda>k. subs_of k b) ord)) \<union> set (b_allSubs b) \<union> ch_shut b" "b_closed b' = ch_shut b'"
    "b_bufSize b' = b_bufSize b" "ch_buffer b' = ch_buffer b" "b_subscribers b' = Map.empty"
proof -
  let ?A = "set (concat (map (\<lambda>k. subs_of k b) ord)) \<union> set (b_allSubs b)"
  let ?b = "b\<lparr>ch_shut := ?A \<union> ch_shut b, b_closed := ?A \<union> ch_shut b, b_subscribers := Map.empty, b_allSubs := []\<rparr>"
  have "Close ord b = Some ?b"
    using assms by (simp add: Close_def close_each_result Un_ac)
  moreover have "listeners s ?b = []" for s by (cases s) (simp_all add: subs_of_def)
  ultimately show ?thesis by (rule that) simp_all
qed

text \<open>The operations with what a receive gave. Callers only unsubscribe what they have subscribed; each may do it
  any number of times, and go on after the broker was closed.\<close>

datatype act =
    Publish "job_event option" | Subscribe subscription nat | Unsubscribe subscription nat
  | Receive nat received | Shutdown "string list"

inductive broker_step :: "closures \<times> broker \<Rightarrow> act \<Rightarrow> closures \<times> broker \<Rightarrow> bool" where
  publish: "PublishJobEvent e b = Some b' \<Longrightarrow> broker_step (C, b) (Publish e) (C, b')"
| subscribe: "subscribe s b = (ch, b') \<Longrightarrow> broker_step (C, b) (Subscribe s ch) (insert (s, ch) C, b')"
| unsubscribe: "(s, ch) \<in> C \<Longrightarrow> unsubscribe s ch b = Some b' \<Longrightarrow> broker_step (C, b) (Unsubscribe s ch) (C, b')"
| receive: "receive ch b = (r, b') \<Longrightarrow> broker_step (C, b) (Receive ch r) (C, b')"
| shutdown: "Close ord b = Some b' \<Longrightarrow> broker_step (C, b) (Shutdown ord) (C, b')"

inductive broker_run :: "closures \<times> broker \<Rightarrow> act list \<Rightarrow> closures \<times> broker \<Rightarrow> bool" where
  empty: "broker_run st [] st"
| more: "broker_step st a st' \<Longrightarrow> broker_run st' as st'' \<Longrightarrow> broker_run st (a # as) st''"

inductive_cases stepE: "broker_step (C, b) a st'"
inductive_cases run_emptyE: "broker_run st [] st'"
inductive_cases run_moreE: "broker_run st (a # as) st'"

definition sane :: "closures \<times> broker \<Rightarrow> bool" where
  "sane st \<longleftrightarrow> broker_inv (fst st) (snd st)"

lemma receive_fields:
  assumes "receive ch b = (r, b')"
  shows "listeners s b' = listeners s b" "ch_next b' = ch_next b" "ch_shut b' = ch_shut b" "b_closed b' = b_closed b"
    "b_bufSize b' = b_bufSize b" "b_subscribers b' = b_subscribers b"
  using assms by (cases s; auto simp: receive_def subs_of_def split: list.splits)+

lemma sane_step: "broker_step st a st' \<Longrightarrow> sane st \<Longrightarrow> sane st'"
proof (induction rule: broker_step.induct)
  case (publish e b b' C)
  then show ?case
    by (cases e) (auto simp: sane_def PublishJobEvent_def [of None] publish_deliver inv_deliver)
next
  case (receive ch b r b' C)
  then show ?case unfolding sane_def broker_inv_def fst_conv snd_conv receive_fields [OF receive(1)] by blast
next
  case (shutdown ord b b' C)
  have inv: "broker_inv C b" using shutdown(2) by (simp add: sane_def)
  note old = broker_invD [OF this]
  obtain b'' where "Close ord b = Some b''" "\<And>s. listeners s b'' = []" "ch_next b'' = ch_next b"
    "ch_shut b'' = set (concat (map (\<lambda>k. subs_of k b) ord)) \<union> set (b_allSubs b) \<union> ch_shut b" "b_closed b'' = ch_shut b''"
    "b_subscribers b'' = Map.empty"
    using Close_result [OF old(7)] by metis
  then have new: "\<And>s. listeners s b' = []" "ch_next b' = ch_next b" "b_closed b' = ch_shut b'" "b_subscribers b' = Map.empty"
    "ch_shut b' = set (concat (map (\<lambda>k. subs_of k b) ord)) \<union> set (b_allSubs b) \<union> ch_shut b"
    using shutdown(1) by simp_all
  have bound: "c < ch_next b" if "c \<in> set (subs_of k b)" for c k
  proof -
    have "k \<in> dom (b_subscribers b)" using that by (cases "b_subscribers b k") (auto simp: subs_of_def)
    then have "k \<in> range job_key \<union> range queue_key" using old(8) by blast
    then obtain s where "subs_of k b = listeners s b" by (metis Un_iff image_iff listeners.simps(1,2))
    then show ?thesis using that old(4) [OF old(2)] by metis
  qed
  have "c < ch_next b" if "c \<in> ch_shut b'" for c
    using that bound old(6) old(4) [OF old(2) [of _ To_all]] unfolding new(5) by auto
  then show ?case unfolding sane_def fst_conv snd_conv using old(4,5) new(1-4)
    by (intro broker_invI) (auto simp: new(2))
qed (auto simp: sane_def intro: inv_subscribe inv_unsubscribe)

lemma sane_run: "broker_run st as st' \<Longrightarrow> sane st \<Longrightarrow> sane st'"
  by (induction rule: broker_run.induct) (auto dest: sane_step)

lemma sane_start: "sane ({}, NewBroker)"
  by (simp add: sane_def broker_inv_new)

text \<open>
  C13: However subscriptions, publications and receives are interleaved, also after the broker was closed, no operation
  of the broker panics: it never sends on a closed channel and never closes a channel twice.
\<close>

theorem broker_never_panics:
  assumes "broker_run ({}, NewBroker) as (C, b)"
  shows "PublishJobEvent e b \<noteq> None \<and> Close ord b \<noteq> None \<and> ((s, ch) \<in> C \<longrightarrow> unsubscribe s ch b \<noteq> None)"
proof -
  have inv: "broker_inv C b" using sane_run [OF assms sane_start] by (simp add: sane_def)
  obtain b1 where "Close ord b = Some b1" using Close_result [OF broker_invD(7) [OF inv]] by metis
  moreover obtain b2 where "unsubscribe s ch b = Some b2" using unsubscribe_result [OF broker_invD(7) [OF inv]] by metis
  ultimately show ?thesis by (cases e) (simp_all add: publish_deliver [OF inv] PublishJobEvent_def [of None])
qed

section \<open>What clients rely on\<close>

text \<open>Subscriptions handed out (\<open>C\<close>), those that are registered, and the channels that are closed.\<close>

locale subscriber =
  fixes inv :: "('k \<times> nat) set \<Rightarrow> 'b \<Rightarrow> bool" and sub :: "'k \<Rightarrow> 'b \<Rightarrow> nat \<times> 'b" and unsub :: "'k \<Rightarrow> nat \<Rightarrow> 'b \<Rightarrow> 'b option"
    and active :: "'b \<Rightarrow> ('k \<times> nat) set" and shut :: "'b \<Rightarrow> nat set"
  assumes sub_law: "inv C b \<Longrightarrow> sub k b = (ch, b') \<Longrightarrow>
      inv (insert (k, ch) C) b' \<and> active b' = insert (k, ch) (active b) \<and> shut b' = shut b \<and> ch \<notin> snd ` C"
    and unsub_law: "inv C b \<Longrightarrow> (k, ch) \<in> C \<Longrightarrow>
      \<exists>b'. unsub k ch b = Some b' \<and> inv C b' \<and> active b' = active b - {(k, ch)} \<and> shut b' = insert ch (shut b)"
begin

lemma release_all:
  "inv C b \<Longrightarrow> set ks \<subseteq> C \<Longrightarrow>
    \<exists>b'. fold (\<lambda>(k, ch) r. Option.bind r (unsub k ch)) ks (Some b) = Some b' \<and> inv C b' \<and>
      active b' = active b - set ks \<and> shut b' = snd ` set ks \<union> shut b"
proof (induction ks arbitrary: b)
  case (Cons p ks)
  obtain k ch where p: "p = (k, ch)" by (cases p)
  obtain b1 where b1: "unsub k ch b = Some b1" "inv C b1" "active b1 = active b - {(k, ch)}" "shut b1 = insert ch (shut b)"
    using unsub_law [OF Cons.prems(1), of k ch] Cons.prems(2) p by auto
  obtain b2 where b2: "fold (\<lambda>(k, ch) r. Option.bind r (unsub k ch)) ks (Some b1) = Some b2" "inv C b2"
    "active b2 = active b1 - set ks" "shut b2 = snd ` set ks \<union> shut b1"
    using Cons.IH [OF b1(2)] Cons.prems(2) by auto
  have "active b2 = active b - set (p # ks)" "shut b2 = snd ` set (p # ks) \<union> shut b"
    unfolding b2(3,4) b1(3,4) p by auto
  then show ?case using b1(1) b2(1,2) p by simp
qed simp

end

definition registered :: "broker \<Rightarrow> (subscription \<times> nat) set" where
  "registered b = {(s, ch). ch \<in> set (listeners s b)}"

interpretation broker: subscriber broker_inv subscribe unsubscribe registered ch_shut
proof
  fix C b s ch b'
  assume inv: "broker_inv C b" and sub: "subscribe s b = (ch, b')"
  note new = subscribe_result [OF sub]
  have "(s', c) \<in> registered b' \<longleftrightarrow> (s', c) = (s, ch) \<or> (s', c) \<in> registered b" for s' c
    unfolding registered_def using new(2) new(3) [of s'] by (cases "s' = s") auto
  then have "registered b' = insert (s, ch) (registered b)" by auto
  moreover have "ch \<notin> snd ` C" using broker_invD(4) [OF inv] new(1) by fastforce
  ultimately show "broker_inv (insert (s, ch) C) b' \<and> registered b' = insert (s, ch) (registered b) \<and>
      ch_shut b' = ch_shut b \<and> ch \<notin> snd ` C"
    using inv_subscribe [OF inv sub] new(5) by blast
next
  fix C b s ch
  assume inv: "broker_inv C b" and issued: "(s, ch) \<in> C"
  obtain b' where r: "unsubscribe s ch b = Some b'" "listeners s b' = remove_first ((=) ch) (listeners s b)"
    "\<And>s'. s' \<noteq> s \<Longrightarrow> listeners s' b' = listeners s' b" "ch_shut b' = insert ch (ch_shut b)"
    using unsubscribe_result [OF broker_invD(7) [OF inv], of s ch] by metis
  have rest: "c \<in> set (remove_first ((=) ch) xs) \<longleftrightarrow> c \<in> set xs \<and> c \<noteq> ch" if "distinct xs" for c and xs :: "nat list"
    using that by (induction xs) auto
  have "(s', c) \<in> registered b' \<longleftrightarrow> (s', c) \<in> registered b \<and> (s', c) \<noteq> (s, ch)" for s' c
    unfolding registered_def using r(2) r(3) [of s'] rest [OF broker_invD(1) [OF inv]] by (cases "s' = s") auto
  then have "registered b' = registered b - {(s, ch)}" by auto
  then show "\<exists>b'. unsubscribe s ch b = Some b' \<and> broker_inv C b' \<and> registered b' = registered b - {(s, ch)} \<and>
      ch_shut b' = insert ch (ch_shut b)"
    using r(1,4) inv_unsubscribe [OF inv issued r(1)] by blast
qed

section \<open>What a subscriber receives\<close>

fun published :: "act list \<Rightarrow> job_event list" where
  "published [] = []"
| "published (Publish (Some e) # as) = e # published as"
| "published (a # as) = published as"

fun taken :: "nat \<Rightarrow> act list \<Rightarrow> job_event list" where
  "taken ch [] = []"
| "taken ch (Receive c (Received e) # as) = (if c = ch then e # taken ch as else taken ch as)"
| "taken ch (a # as) = taken ch as"

text \<open>\<open>stays s ch as\<close>: the subscription is neither ended nor the broker closed.\<close>

fun stays :: "subscription \<Rightarrow> nat \<Rightarrow> act list \<Rightarrow> bool" where
  "stays s ch [] = True"
| "stays s ch (Unsubscribe s' c # as) = (c \<noteq> ch \<and> stays s ch as)"
| "stays s ch (Shutdown ord # as) = False"
| "stays s ch (a # as) = stays s ch as"

lemma remove_first_other: "x \<noteq> y \<Longrightarrow> y \<in> set xs \<Longrightarrow> y \<in> set (remove_first ((=) x) xs)"
  by (induction xs) auto

text \<open>One step, seen from a channel with a subscription.\<close>

lemma step_listener:
  assumes "broker_step (C, b) a (C', b')" "broker_inv C b" "ch \<in> set (listeners s b)" "stays s ch [a]"
  shows "ch \<in> set (listeners s b')" "b_bufSize b' = b_bufSize b"
    and "taken ch [a] @ ch_buffer b' ch = ch_buffer b ch @ filter (matches s) (published [a]) \<or>
      filter (matches s) (published [a]) \<noteq> [] \<and> b_bufSize b \<le> length (ch_buffer b ch) \<and>
      taken ch [a] = [] \<and> ch_buffer b' ch = ch_buffer b ch"
proof -
  note old = broker_invD [OF assms(2)]
  have own: "(s', ch) \<in> C \<Longrightarrow> s' = s" for s' using old(5) old(2) [OF assms(3)] by blast
  from assms(1) have "ch \<in> set (listeners s b') \<and> b_bufSize b' = b_bufSize b \<and>
    (taken ch [a] @ ch_buffer b' ch = ch_buffer b ch @ filter (matches s) (published [a]) \<or>
      filter (matches s) (published [a]) \<noteq> [] \<and> b_bufSize b \<le> length (ch_buffer b ch) \<and>
      taken ch [a] = [] \<and> ch_buffer b' ch = ch_buffer b ch)"
  proof cases
    case (publish e)
    show ?thesis
    proof (cases e)
      case None
      then show ?thesis using publish assms(3) by (simp add: PublishJobEvent_def)
    next
      case (Some e')
      have b': "b' = deliver e' (audience e' b) b" using publish Some publish_deliver [OF assms(2)] by simp
      have "ch \<in> audience e' b \<longleftrightarrow> matches s e'"
        unfolding audience_def using assms(3) own old(2) by blast
      then show ?thesis using publish Some assms(3) unfolding b' by (simp add: deliver_buffer)
    qed
  next
    case (subscribe s' c)
    note new = subscribe_result [OF subscribe(3)]
    have "ch \<noteq> c" using old(4) [OF old(2) [OF assms(3)]] new(1) by simp
    then show ?thesis using subscribe assms(3) new(2,7,8) new(3) [of s] by (cases "s = s'") auto
  next
    case (unsubscribe s' c)
    obtain b'' where r: "unsubscribe s' c b = Some b''" "listeners s' b'' = remove_first ((=) c) (listeners s' b)"
      "\<And>s''. s'' \<noteq> s' \<Longrightarrow> listeners s'' b'' = listeners s'' b" "b_bufSize b'' = b_bufSize b" "ch_buffer b'' = ch_buffer b"
      using unsubscribe_result [OF old(7), of s' c] by metis
    have "ch \<in> set (listeners s b'')"
    proof (cases "s = s'")
      case True
      have "c \<noteq> ch" using assms(4) unsubscribe(1) by simp
      then show ?thesis using True r(2) assms(3) by (simp add: remove_first_other)
    qed (use r(3) assms(3) in simp)
    then show ?thesis using unsubscribe r by simp
  next
    case (receive c r)
    note same = receive_fields [OF receive(3)]
    show ?thesis
    proof (cases "c = ch")
      case True
      then show ?thesis using receive same(1,5) assms(3) by (auto simp: receive_def split: list.splits)
    next
      case False
      then have "ch_buffer b' ch = ch_buffer b ch" using receive(3) by (auto simp: receive_def split: list.splits)
      then show ?thesis using False receive(1) same(1,5) assms(3) by (cases r) simp_all
    qed
  next
    case (shutdown ord)
    then show ?thesis using assms(4) by simp
  qed
  then show "ch \<in> set (listeners s b')" "b_bufSize b' = b_bufSize b"
    "taken ch [a] @ ch_buffer b' ch = ch_buffer b ch @ filter (matches s) (published [a]) \<or>
      filter (matches s) (published [a]) \<noteq> [] \<and> b_bufSize b \<le> length (ch_buffer b ch) \<and>
      taken ch [a] = [] \<and> ch_buffer b' ch = ch_buffer b ch" by blast+
qed

lemma stays_Cons: "stays s ch (a # as) \<longleftrightarrow> stays s ch [a] \<and> stays s ch as"
  by (cases a) auto

lemma published_Cons: "published (a # as) = published [a] @ published as"
  by (cases "(a # as)" rule: published.cases) auto

lemma taken_Cons: "taken ch (a # as) = taken ch [a] @ taken ch as"
  by (cases "(ch, a # as)" rule: taken.cases) auto

lemma run_listener:
  "broker_run (C, b) as (C', b') \<Longrightarrow> broker_inv C b \<Longrightarrow> ch \<in> set (listeners s b) \<Longrightarrow> stays s ch as \<Longrightarrow>
    subseq (taken ch as @ ch_buffer b' ch) (ch_buffer b ch @ filter (matches s) (published as)) \<and>
    (length (ch_buffer b ch) + length (filter (matches s) (published as)) \<le> b_bufSize b \<longrightarrow>
      taken ch as @ ch_buffer b' ch = ch_buffer b ch @ filter (matches s) (published as))"
proof (induction as arbitrary: C b)
  case Nil
  then show ?case by (auto elim: run_emptyE)
next
  case (Cons a as)
  obtain C1 b1 where run: "broker_step (C, b) a (C1, b1)" "broker_run (C1, b1) as (C', b')"
    using Cons.prems(1) by (metis run_moreE surj_pair)
  have stays: "stays s ch [a]" "stays s ch as" using Cons.prems(4) stays_Cons by blast+
  note step = step_listener [OF run(1) Cons.prems(2,3) stays(1)]
  have "broker_inv C1 b1" using sane_step [OF run(1)] Cons.prems(2) by (simp add: sane_def)
  note IH = Cons.IH [OF run(2) this step(1) stays(2)]
  let ?now = "filter (matches s) (published [a])" and ?later = "filter (matches s) (published as)"
  from step(3) show ?case
  proof (elim disjE conjE)
    assume eq: "taken ch [a] @ ch_buffer b1 ch = ch_buffer b ch @ ?now"
    have len: "length (ch_buffer b1 ch) \<le> length (ch_buffer b ch) + length ?now"
      using arg_cong [OF eq, of length] by simp
    have all: "taken ch [a] @ ch_buffer b1 ch @ ?later = ch_buffer b ch @ filter (matches s) (published (a # as))"
      unfolding published_Cons [of a as] filter_append using eq by (metis append_assoc)
    have "subseq (taken ch (a # as) @ ch_buffer b' ch) (taken ch [a] @ ch_buffer b1 ch @ ?later)"
      using IH unfolding taken_Cons [of ch a as] by (simp add: subseq_append')
    moreover have "taken ch (a # as) @ ch_buffer b' ch = taken ch [a] @ ch_buffer b1 ch @ ?later"
      if "length (ch_buffer b ch) + length (filter (matches s) (published (a # as))) \<le> b_bufSize b"
    proof -
      have "length (ch_buffer b1 ch) + length ?later \<le> b_bufSize b1"
        using that len unfolding published_Cons [of a as] step(2) by simp
      then show ?thesis using IH unfolding taken_Cons [of ch a as] by simp
    qed
    ultimately show ?thesis unfolding all by blast
  next
    assume full: "?now \<noteq> []" "b_bufSize b \<le> length (ch_buffer b ch)" "taken ch [a] = []" "ch_buffer b1 ch = ch_buffer b ch"
    have "subseq ?later (?now @ ?later)" by (rule subseq_drop_many) simp
    then have "subseq (ch_buffer b ch @ ?later) (ch_buffer b ch @ ?now @ ?later)" by (simp add: subseq_append')
    moreover obtain e es where "?now = e # es" using full(1) by (cases ?now) auto
    ultimately show ?thesis
      using IH full unfolding taken_Cons [of ch a as] published_Cons [of a as] step(2)
      by (auto elim: subseq_order.trans)
  qed
qed

lemma buf_step: "broker_step st a st' \<Longrightarrow> sane st \<Longrightarrow> b_bufSize (snd st') = b_bufSize (snd st)"
proof (induction rule: broker_step.induct)
  case (publish e b b' C)
  then show ?case
    by (cases e) (auto simp: sane_def PublishJobEvent_def [of None] publish_deliver)
next
  case (unsubscribe s ch C b b')
  then show ?case using unsubscribe_result [of b s ch] broker_invD(7) [of C b] by (auto simp: sane_def)
next
  case (shutdown ord b b' C)
  then show ?case using Close_result [of b ord] broker_invD(7) [of C b] by (auto simp: sane_def)
qed (simp_all add: subscribe_result receive_fields)

lemma buf_run: "broker_run st as st' \<Longrightarrow> sane st \<Longrightarrow> b_bufSize (snd st') = b_bufSize (snd st)"
proof (induction rule: broker_run.induct)
  case (more st a st' as st'')
  then show ?case using sane_step [OF more(1,4)] buf_step [OF more(1,4)] by simp
qed simp

text \<open>
  C12: From any reachable state of the broker, a subscriber that keeps its subscription gets the events it asked for in
  the order they were published, none twice and none of any other kind; and it gets all of them as long as no more than 64
  of them are waiting, however slowly it receives.
\<close>

theorem events_delivered:
  assumes "broker_run ({}, NewBroker) before (C, b)" "ch \<in> set (listeners s b)"
    and "broker_run (C, b) as (C', b')" "stays s ch as"
  shows "subseq (taken ch as @ ch_buffer b' ch) (ch_buffer b ch @ filter (matches s) (published as)) \<and>
    (length (ch_buffer b ch) + length (filter (matches s) (published as)) \<le> 64 \<longrightarrow>
      taken ch as @ ch_buffer b' ch = ch_buffer b ch @ filter (matches s) (published as))"
proof -
  have "broker_inv C b" using sane_run [OF assms(1) sane_start] by (simp add: sane_def)
  moreover have "b_bufSize b = 64" using buf_run [OF assms(1) sane_start] by (simp add: NewBroker_def)
  ultimately show ?thesis using run_listener [OF assms(3) _ assms(2,4)] by simp
qed

text \<open>Two subscribers, one of which leaves; the other gets the two events published for its job.\<close>

definition sample_event :: "string \<Rightarrow> string \<Rightarrow> job_event" where
  "sample_event i state = \<lparr>ev_type = ''job.state_changed'', ev_job_id = i, ev_queue = ''q'', ev_job_type = ''email'',
     ev_from = '''', ev_to = state, ev_progress = 0, ev_message = '''', ev_timestamp = ''t''\<rparr>"

definition sample_broker :: broker where
  "sample_broker = snd (SubscribeAll (snd (SubscribeJob ''a'' NewBroker)))"

lemma sample_broker_run:
  "broker_run ({}, NewBroker) [Subscribe (To_job ''a'') 0, Subscribe To_all 1] ({(To_all, 1), (To_job ''a'', 0)}, sample_broker)"
proof -
  have subs: "subscribe (To_job ''a'') NewBroker = (0, snd (SubscribeJob ''a'' NewBroker))"
    "subscribe To_all (snd (SubscribeJob ''a'' NewBroker)) = (1, sample_broker)"
    by (simp_all add: sample_broker_def SubscribeJob_def SubscribeAll_def subscribe_key_def make_chan_def NewBroker_def)
  show ?thesis
    by (rule broker_run.more [OF broker_step.subscribe [OF subs(1)]
          broker_run.more [OF broker_step.subscribe [OF subs(2)] broker_run.empty]])
qed

lemma broker_never_panics_witness: "unsub_key (job_key ''a'') 0 sample_broker \<noteq> None"
  using broker_never_panics [OF sample_broker_run, of None "[]" "To_job ''a''" 0] by simp

lemma events_delivered_witness:
  "let e = sample_event ''a'' ''active''; b1 = deliver e {0, 1} sample_broker in
    taken 0 [Publish (Some e), Receive 1 (Received e)] @ ch_buffer (snd (receive 1 b1)) 0 = [e]"
proof -
  let ?e = "sample_event ''a'' ''active''"
  let ?b1 = "deliver ?e {0, 1} sample_broker" and ?C = "{(To_all, 1), (To_job ''a'', 0)}"
  have inv: "broker_inv ?C sample_broker" using sane_run [OF sample_broker_run sane_start] by (simp add: sane_def)
  have heard: "listeners (To_job ''a'') sample_broker = [0]" "listeners To_all sample_broker = [1]"
    "listeners (To_queue ''q'') sample_broker = []" "ch_buffer sample_broker = (\<lambda>ch. [])" "b_bufSize sample_broker = 64"
    by (auto simp: sample_broker_def SubscribeJob_def SubscribeAll_def subscribe_key_def make_chan_def NewBroker_def subs_of_def)
  have aud: "audience ?e sample_broker = {0, 1}"
    unfolding audience_split using heard(1-3) by (simp add: sample_event_def insert_commute)
  have r: "receive 1 ?b1 = (Received ?e, snd (receive 1 ?b1))"
    by (simp add: receive_def deliver_buffer heard(4,5))
  have run: "broker_run (?C, sample_broker) [Publish (Some ?e), Receive 1 (Received ?e)] (?C, snd (receive 1 ?b1))"
    by (rule broker_run.more [OF broker_step.publish [OF publish_deliver [OF inv, of ?e, unfolded aud]]
          broker_run.more [OF broker_step.receive [OF r] broker_run.empty]])
  have "0 \<in> set (listeners (To_job ''a'') sample_broker)" using heard(1) by simp
  from events_delivered [OF sample_broker_run this run]
  show ?thesis by (simp add: heard(4) sample_event_def)
qed

end
