(* ===== verification/Grpc_Server.thy ===== *)
theory Grpc_Server
  imports Grpc_Convert Backend_Admin Event_Delivery
begin

text \<open>
  The gRPC service (\<open>internal/grpc/server.go\<close>): every call converts its request, delegates to the backend and converts
  the result or the error. The two streams are loops over ticks and events. A call whose backend operation panics ends
  with \<open>Panic\<close>.
\<close>

type_synonym 'a rpc = "backend \<Rightarrow> (rpc_error + 'a) \<times> backend"

text \<open>\<open>return nil, coreErrorToGRPC(err)\<close>, or the converted result.\<close>

definition respond :: "grpc_env \<Rightarrow> ('a \<Rightarrow> 'b) \<Rightarrow> (go_error + 'a) \<times> backend \<Rightarrow> (rpc_error + 'b) \<times> backend" where
  "respond E f rb = (case rb of (r, b) \<Rightarrow> (map_sum (coreErrorToGRPC E) f r, b))"

section \<open>Jobs\<close>

definition rpc_Enqueue :: "deps \<Rightarrow> grpc_env \<Rightarrow> int \<Rightarrow> enqueue_request \<Rightarrow> proto_job rpc" where
  "rpc_Enqueue D E now req b = respond E (jobToProto E) (Push D now (enqueueRequestToJob E req) b)"

definition rpc_EnqueueBatch :: "deps \<Rightarrow> grpc_env \<Rightarrow> int \<Rightarrow> enqueue_request list \<Rightarrow> proto_job list rpc" where
  "rpc_EnqueueBatch D E now reqs b =
     respond E (map (jobToProto E)) (PushBatch D now (map (enqueueJobRequestToJob E) reqs) b)"

definition rpc_GetJob :: "grpc_env \<Rightarrow> string \<Rightarrow> proto_job rpc" where
  "rpc_GetJob E jobID b = respond E (jobToProto E) (Info jobID b, b)"

definition rpc_CancelJob :: "deps \<Rightarrow> grpc_env \<Rightarrow> int \<Rightarrow> string \<Rightarrow> proto_job rpc" where
  "rpc_CancelJob D E now jobID b = respond E (jobToProto E) (Cancel D now jobID b)"

section \<open>Workers\<close>

definition rpc_Fetch :: "deps \<Rightarrow> grpc_env \<Rightarrow> int \<Rightarrow> string list \<Rightarrow> 32 word \<Rightarrow> string \<Rightarrow> proto_job list rpc" where
  "rpc_Fetch D E now queues reqCount workerID b =
     (let cnt = sint reqCount; cnt = (if cnt \<le> 0 then 1 else cnt);
          (jobs, b1) = Fetch D now queues cnt workerID (default_visibility_ms D) b
      in (Inr (map (jobToProto E) jobs), b1))"

text \<open>\<open>result\<close> is the request's struct; one that does not marshal is refused.\<close>

definition rpc_Ack :: "deps \<Rightarrow> grpc_env \<Rightarrow> int \<Rightarrow> string \<Rightarrow> string option \<Rightarrow> bool rpc" where
  "rpc_Ack D E now jobID result b =
     (case result of
        None \<Rightarrow> respond E a_acknowledged (Ack D now jobID None b)
      | Some r \<Rightarrow> (case marshal_struct E r of
          None \<Rightarrow> (Inl (Status InvalidArgument ''invalid result''), b)
        | Some data \<Rightarrow> respond E a_acknowledged (Ack D now jobID (Some data) b)))"

text \<open>The getters of a missing error give empty strings.\<close>

definition rpc_Nack :: "deps \<Rightarrow> grpc_env \<Rightarrow> int \<Rightarrow> string \<Rightarrow> (string \<times> string) option \<Rightarrow> proto_state rpc" where
  "rpc_Nack D E now jobID err b =
     (let (code, message) = (case err of None \<Rightarrow> ('''', '''') | Some e \<Rightarrow> e)
      in respond E (\<lambda>r. stateToProto (n_state r))
           (Nack D now jobID (Some \<lparr>je_type = code, je_message = message\<rparr>) False b))"

text \<open>The active jobs of the worker are not passed on.\<close>

definition rpc_Heartbeat :: "deps \<Rightarrow> int \<Rightarrow> string \<Rightarrow> proto_worker_state rpc" where
  "rpc_Heartbeat D now workerID b =
     (let (r, b1) = Heartbeat D now workerID [] (default_visibility_ms D) b
      in (Inr (directiveToWorkerState (h_directive r)), b1))"

section \<open>Queues and dead letters\<close>

text \<open>The name of a queue and whether it is paused.\<close>

definition rpc_ListQueues :: "string list \<Rightarrow> (string \<times> bool) list rpc" where
  "rpc_ListQueues ord b = (Inr (map (\<lambda>q. (qi_name q, qi_status q = ''paused'')) (ListQueues ord b)), b)"

record proto_statistics =
  pq_available :: nat
  pq_active :: nat
  pq_scheduled :: nat
  pq_retryable :: nat

definition rpc_QueueStats :: "string list \<Rightarrow> string list \<Rightarrow> string \<Rightarrow> (string \<times> proto_statistics) rpc" where
  "rpc_QueueStats ord dead_ord name b =
     (let s = QueueStats ord dead_ord name b; n = qs_stats s
      in (Inr (qs_queue s, \<lparr>pq_available = s_available n, pq_active = s_active n, pq_scheduled = s_scheduled n,
            pq_retryable = s_retryable n\<rparr>), b))"

definition rpc_PauseQueue :: "string \<Rightarrow> unit rpc" where
  "rpc_PauseQueue name b = (Inr (), PauseQueue name b)"

definition rpc_ResumeQueue :: "string \<Rightarrow> unit rpc" where
  "rpc_ResumeQueue name b = (Inr (), ResumeQueue name b)"

text \<open>\<open>sorted_jobs\<close> are the dead jobs as the listing sorts them.\<close>

definition rpc_ListDeadLetter :: "grpc_env \<Rightarrow> 32 word \<Rightarrow> job list \<Rightarrow> (proto_job list \<times> nat) rpc" where
  "rpc_ListDeadLetter E reqLimit sorted_jobs b =
     (let limit = sint reqLimit; limit = (if limit \<le> 0 then 25 else limit);
          (r, n) = ListDeadLetter limit 0 sorted_jobs
      in respond E (\<lambda>jobs. (map (jobToProto E) jobs, n)) (r, b))"

definition rpc_RetryDeadLetter :: "deps \<Rightarrow> grpc_env \<Rightarrow> int \<Rightarrow> string \<Rightarrow> proto_job rpc" where
  "rpc_RetryDeadLetter D E now jobID b = respond E (jobToProto E) (RetryDeadLetter D now jobID b)"

definition rpc_DeleteDeadLetter :: "grpc_env \<Rightarrow> string \<Rightarrow> unit rpc" where
  "rpc_DeleteDeadLetter E jobID b = respond E id (DeleteDeadLetter jobID b)"

section \<open>Cron\<close>

record register_cron_request =
  rc_name :: string
  rc_cron :: string
  rc_timezone :: string
  rc_type :: string
  rc_args :: "string list"

definition rpc_RegisterCron :: "deps \<Rightarrow> grpc_env \<Rightarrow> int \<Rightarrow> register_cron_request \<Rightarrow> (string \<times> int option) rpc" where
  "rpc_RegisterCron D E now req b =
     (case marshal_values E (rc_args req) of
        None \<Rightarrow> (Inl (Status InvalidArgument ''failed to marshal cron args''), b)
      | Some args \<Rightarrow>
          respond E (\<lambda>c. (c_name c, parseRFC3339 E (c_next_run_at c)))
            (RegisterCron D now
              \<lparr>c_name = rc_name req, c_expression = rc_cron req, c_schedule = '''', c_timezone = rc_timezone req,
               c_enabled = True, c_next_run_at = '''', c_last_run_at = '''', c_created_at = '''', c_overlap_policy = '''',
               c_template = Some \<lparr>ct_type = rc_type req, ct_args = Some args, ct_queue = None\<rparr>\<rparr> b))"

definition rpc_UnregisterCron :: "grpc_env \<Rightarrow> string \<Rightarrow> unit rpc" where
  "rpc_UnregisterCron E name b = respond E (\<lambda>c. ()) (DeleteCron name b)"

record cron_entry =
  ce_name :: string
  ce_cron :: string
  ce_timezone :: string
  ce_type :: string
  ce_next_run_at :: "int option"
  ce_last_run_at :: "int option"

definition rpc_ListCron :: "grpc_env \<Rightarrow> string list \<Rightarrow> cron_entry list rpc" where
  "rpc_ListCron E ord b =
     (Inr (map (\<lambda>c. \<lparr>ce_name = c_name c, ce_cron = c_expression c, ce_timezone = c_timezone c,
         ce_type = (case c_template c of None \<Rightarrow> '''' | Some t \<Rightarrow> ct_type t),
         ce_next_run_at = parseRFC3339 E (c_next_run_at c), ce_last_run_at = parseRFC3339 E (c_last_run_at c)\<rparr>)
       (ListCron ord b)), b)"

section \<open>Workflows\<close>

definition rpc_CreateWorkflow :: "deps \<Rightarrow> grpc_env \<Rightarrow> int \<Rightarrow> create_workflow_request \<Rightarrow> proto_workflow rpc" where
  "rpc_CreateWorkflow D E now req b = respond E (workflowToProto E) (CreateWorkflow D now (protoToWorkflowRequest E req) b)"

definition rpc_GetWorkflow :: "grpc_env \<Rightarrow> string \<Rightarrow> proto_workflow rpc" where
  "rpc_GetWorkflow E wid b = respond E (workflowToProto E) (GetWorkflow wid b, b)"

definition rpc_CancelWorkflow :: "deps \<Rightarrow> grpc_env \<Rightarrow> int \<Rightarrow> string \<Rightarrow> proto_workflow rpc" where
  "rpc_CancelWorkflow D E now wid b = respond E (workflowToProto E) (CancelWorkflow D now wid b)"

section \<open>The stream of jobs\<close>

record stream_jobs_request =
  sj_queues :: "string list"
  sj_worker_id :: string
  sj_max_concurrent :: "32 word"

text \<open>The local \<open>active\<close>, what was sent, and whether the call has returned.\<close>

record job_stream =
  js_active :: nat
  js_sent :: "proto_job list"
  js_ended :: bool

definition max_concurrent :: "stream_jobs_request \<Rightarrow> nat" where
  "max_concurrent req = (let n = sint (sj_max_concurrent req) in nat (if n \<le> 0 then 1 else n))"

definition stream_refused :: "stream_jobs_request \<Rightarrow> rpc_error option" where
  "stream_refused req =
     (if sj_queues req = [] then Some (Status InvalidArgument ''at least one queue is required'')
      else if sj_worker_id req = '''' then Some (Status InvalidArgument ''worker_id is required'') else None)"

text \<open>\<open>ok n\<close> says whether the \<open>n\<close>-th \<open>Send\<close> of the stream succeeds; after a failure the other fetched jobs are not sent.\<close>

fun send_jobs :: "(nat \<Rightarrow> bool) \<Rightarrow> proto_job list \<Rightarrow> job_stream \<Rightarrow> job_stream" where
  "send_jobs ok [] s = s"
| "send_jobs ok (j # js) s =
     (if ok (length (js_sent s)) then send_jobs ok js (s\<lparr>js_sent := js_sent s @ [j], js_active := Suc (js_active s)\<rparr>)
      else s\<lparr>js_ended := True\<rparr>)"

text \<open>One tick of the ticker, at time \<open>now\<close> with the backend as it is then.\<close>

definition stream_tick :: "deps \<Rightarrow> grpc_env \<Rightarrow> (nat \<Rightarrow> bool) \<Rightarrow> stream_jobs_request \<Rightarrow> int \<Rightarrow> job_stream \<times> backend \<Rightarrow> job_stream \<times> backend" where
  "stream_tick D E ok req now sb =
     (case sb of (s, b) \<Rightarrow>
        if js_ended s \<or> max_concurrent req \<le> js_active s then (s, b)
        else (let (jobs, b1) = Fetch D now (sj_queues req) (int (max_concurrent req - js_active s)) (sj_worker_id req)
                   (default_visibility_ms D) b
              in (send_jobs ok (map (jobToProto E) jobs) s, b1)))"

definition stream_start :: job_stream where
  "stream_start = \<lparr>js_active = 0, js_sent = [], js_ended = False\<rparr>"

section \<open>The stream of events\<close>

record stream_events_request =
  se_job_id :: string
  se_queues :: "string list"
  se_event_types :: "string list"

definition stream_subscription :: "stream_events_request \<Rightarrow> subscription" where
  "stream_subscription req =
     (if se_job_id req \<noteq> '''' then To_job (se_job_id req)
      else case se_queues req of [q] \<Rightarrow> To_queue q | _ \<Rightarrow> To_all)"

definition wanted :: "stream_events_request \<Rightarrow> job_event \<Rightarrow> bool" where
  "wanted req e \<longleftrightarrow> (se_queues req = [] \<or> ev_queue e \<in> set (se_queues req)) \<and>
     (se_event_types req = [] \<or> ev_type e \<in> set (se_event_types req))"

text \<open>What the loop sends of the events it receives; \<open>uuids\<close> are the ones drawn.\<close>

fun send_events :: "grpc_env \<Rightarrow> (nat \<Rightarrow> string) \<Rightarrow> nat \<Rightarrow> stream_events_request \<Rightarrow> job_event list \<Rightarrow> proto_event list" where
  "send_events E uuids n req [] = []"
| "send_events E uuids n req (e # es) =
     (if wanted req e then jobEventToProto E (uuids n) e # send_events E uuids (Suc n) req es
      else send_events E uuids n req es)"

end
