(* ===== verification/Grpc_Facts.thy ===== *)
theory Grpc_Facts
  imports Grpc_Server Backend_Samples
begin

text \<open>What clients of the gRPC service get: workflows, the stream of jobs and the stream of events.\<close>

section \<open>Workflows\<close>

lemma persist_fields [simp]:
  "b_jobs (persist f b) = b_jobs b" "b_workflows (persist f b) = b_workflows b" "b_store (persist f b) = b_store b"
  "b_queue_idx (persist f b) = b_queue_idx b"
  by (simp_all add: persist_def split: option.split)

text \<open>
  C38: A workflow created by gRPC never runs, whatever steps the request has: its type and its jobs are left empty, so
  it is answered and kept as running with no job enqueued and none to finish it.
\<close>

theorem grpc_workflow_never_runs:
  fixes b :: backend and D :: deps and E :: grpc_env and now :: int and req :: create_workflow_request
  defines "b' \<equiv> snd (rpc_CreateWorkflow D E now req b)" and "wid \<equiv> new_uuid D (b_uuid b)"
  shows "(\<exists>view. fst (rpc_CreateWorkflow D E now req b) = Inr view \<and> pw_state view = WORKFLOW_STATE_RUNNING) \<and>
    b_jobs b' = b_jobs b \<and> b_queue_idx b' = b_queue_idx b \<and>
    (\<exists>w. b_workflows b' wid = Some w \<and> w_state w = ''running'' \<and> w_total w = 0 \<and> w_job_defs w = [] \<and> w_job_ids w = [])"
proof -
  let ?w = "new_workflow_state D now wid (protoToWorkflowRequest E req)"
  have w: "w_type ?w = ''''" "w_job_defs ?w = []" "w_total ?w = 0" "w_job_ids ?w = []" "w_state ?w = ''running''" "w_id ?w = wid"
    by (simp_all add: new_workflow_state_def protoToWorkflowRequest_def Let_def)
  then have "jobs_to_enqueue ?w = Inr []" by (simp add: jobs_to_enqueue_def)
  then have "CreateWorkflow D now (protoToWorkflowRequest E req) b = (Inr (workflow_view_of ?w),
      save_workflow D wid (?w\<lparr>w_job_ids := []\<rparr>) (save_workflow D wid ?w (b\<lparr>b_uuid := Suc (b_uuid b)\<rparr>)))"
    using w(4) by (simp add: CreateWorkflow_def Let_def save_workflow_def wid_def)
  then show ?thesis
    unfolding b'_def using w
    by (simp add: rpc_CreateWorkflow_def respond_def save_workflow_def workflowToProto_def workflow_view_of_def
        stateToWorkflowProto_def)
qed

section \<open>The stream of jobs\<close>

lemma length_fetch_loop: "length (fst (fetch_loop D now w ms q room rs b)) \<le> room"
  by (induction D now w ms q room rs b rule: fetch_loop.induct) (auto simp: Let_def case_prod_beta)

lemma length_fetch_queues: "length (fst (fetch_queues D now w ms room qs b)) \<le> room"
proof (induction D now w ms room qs b rule: fetch_queues.induct)
  case (2 D now w ms room q qs b)
  show ?case
  proof (cases "room = 0 \<or> b_queue_state b q = Some ''paused'' \<or> b_queue_idx b q = None")
    case True
    then show ?thesis using 2(1,2) by (auto split: option.split)
  next
    case False
    then obtain rs where rs: "b_queue_idx b q = Some rs" by auto
    let ?r = "fetch_loop D now w ms q room rs b"
    have "length (fst (fetch_queues D now w ms (room - length (fst ?r)) qs (snd ?r))) \<le> room - length (fst ?r)"
      using 2(3) False rs by (metis prod.collapse)
    then show ?thesis using False rs length_fetch_loop [of D now w ms q room rs b] by (simp add: case_prod_beta Let_def)
  qed
qed simp

lemma length_Fetch: "0 < n \<Longrightarrow> length (fst (Fetch D now qs (int n) w ms b)) \<le> n"
  using length_fetch_queues [of D now w _ n qs b] by (simp add: Fetch_def Let_def case_prod_beta)

lemma send_jobs_counts:
  assumes "js_active s = length (js_sent s)"
  shows "js_active (send_jobs ok js s) = length (js_sent (send_jobs ok js s))"
    "length (js_sent (send_jobs ok js s)) \<le> length (js_sent s) + length js"
  using assms by (induction ok js s rule: send_jobs.induct) auto

text \<open>The stream over any number of ticks; what happens to the backend in between is arbitrary.\<close>

fun stream_run :: "deps \<Rightarrow> grpc_env \<Rightarrow> (nat \<Rightarrow> bool) \<Rightarrow> stream_jobs_request \<Rightarrow> (int \<times> backend) list \<Rightarrow> job_stream \<Rightarrow> job_stream" where
  "stream_run D E ok req [] s = s"
| "stream_run D E ok req ((now, b) # ticks) s = stream_run D E ok req ticks (fst (stream_tick D E ok req now (s, b)))"

lemma tick_counts:
  assumes "js_active s = length (js_sent s)" "length (js_sent s) \<le> max_concurrent req"
  shows "js_active (fst (stream_tick D E ok req now (s, b))) = length (js_sent (fst (stream_tick D E ok req now (s, b))))"
    and "length (js_sent (fst (stream_tick D E ok req now (s, b)))) \<le> max_concurrent req"
proof -
  let ?n = "max_concurrent req - js_active s"
  let ?jobs = "fst (Fetch D now (sj_queues req) (int ?n) (sj_worker_id req) (default_visibility_ms D) b)"
  have *: "fst (stream_tick D E ok req now (s, b)) =
      (if js_ended s \<or> max_concurrent req \<le> js_active s then s else send_jobs ok (map (jobToProto E) ?jobs) s)"
    by (simp add: stream_tick_def case_prod_beta Let_def)
  have "length ?jobs \<le> ?n" if "\<not> max_concurrent req \<le> js_active s"
    by (rule length_Fetch) (use that in simp)
  then show "js_active (fst (stream_tick D E ok req now (s, b))) = length (js_sent (fst (stream_tick D E ok req now (s, b))))"
    "length (js_sent (fst (stream_tick D E ok req now (s, b)))) \<le> max_concurrent req"
    using assms send_jobs_counts [OF assms(1), of ok "map (jobToProto E) ?jobs"] unfolding * by (auto split: if_splits)
qed

lemma stream_counts:
  "js_active s = length (js_sent s) \<Longrightarrow> length (js_sent s) \<le> max_concurrent req \<Longrightarrow>
    js_active (stream_run D E ok req ticks s) = length (js_sent (stream_run D E ok req ticks s)) \<and>
    length (js_sent (stream_run D E ok req ticks s)) \<le> max_concurrent req"
  by (induction D E ok req ticks s rule: stream_run.induct) (use tick_counts in auto)

text \<open>
  C37: A stream of jobs sends no more than \<open>max_concurrent\<close> jobs in all, however many of them have been acknowledged;
  once it has sent them it never takes another job from the backend.
\<close>

theorem job_stream_stops:
  fixes D :: deps and E :: grpc_env and ok :: "nat \<Rightarrow> bool" and req :: stream_jobs_request
  defines "run \<equiv> stream_run D E ok req"
  shows "length (js_sent (run ticks stream_start)) \<le> max_concurrent req \<and>
    (length (js_sent (run ticks stream_start)) < max_concurrent req \<or>
      stream_tick D E ok req now (run ticks stream_start, b) = (run ticks stream_start, b))"
proof -
  have "js_active (run ticks stream_start) = length (js_sent (run ticks stream_start)) \<and>
      length (js_sent (run ticks stream_start)) \<le> max_concurrent req"
    unfolding run_def by (rule stream_counts) (simp_all add: stream_start_def)
  then show ?thesis by (auto simp: stream_tick_def)
qed

section \<open>The stream of events\<close>







end
