(* ===== verification/JS_Prelude.thy ===== *)
theory JS_Prelude
  imports Prelude
begin

text \<open>
  What the bundled admin UI (\<open>internal/admin/dist/index-DxrWcVFD.js\<close>) uses of JavaScript itself:
  strings as UTF-8 bytes, the string methods, percent encoding, JSON, double-precision quotients
  with \<open>toFixed\<close>, and the element tree a React render function returns.

  A string is a list of bytes where JavaScript has UTF-16 code units; the two agree on ASCII, which
  is all that lengths and positions are taken of here (identifiers, paths, class names).
\<close>

section \<open>Strings\<close>

fun js_split :: "char \<Rightarrow> string \<Rightarrow> string list" where
  "js_split c [] = [[]]"
| "js_split c (x # xs) =
     (if x = c then [] # js_split c xs
      else (case js_split c xs of [] \<Rightarrow> [[x]] | y # ys \<Rightarrow> (x # y) # ys))"

fun js_join :: "string \<Rightarrow> string list \<Rightarrow> string" where
  "js_join sep [] = []"
| "js_join sep [x] = x"
| "js_join sep (x # y # ys) = x @ sep @ js_join sep (y # ys)"

definition starts_with :: "string \<Rightarrow> string \<Rightarrow> bool" where
  "starts_with s p = (take (length p) s = p)"

definition ends_with :: "string \<Rightarrow> string \<Rightarrow> bool" where
  "ends_with s p = (length p \<le> length s \<and> drop (length s - length p) s = p)"

text \<open>\<open>s.indexOf(c)\<close>, \<open>None\<close> for -1.\<close>

fun index_of :: "char \<Rightarrow> string \<Rightarrow> nat option" where
  "index_of c [] = None"
| "index_of c (x # xs) = (if x = c then Some 0 else map_option Suc (index_of c xs))"

definition lower_char :: "char \<Rightarrow> char" where
  "lower_char c = (let n = (of_char c :: nat) in if 65 \<le> n \<and> n \<le> 90 then char_of (n + 32) else c)"

definition js_lower :: "string \<Rightarrow> string" where
  "js_lower s = map lower_char s"

text \<open>\<open>s.replace(/[c]+$/, "")\<close> and \<open>s.replace(/^[c]+/, "")\<close> for one character.\<close>

definition strip_end :: "char \<Rightarrow> string \<Rightarrow> string" where
  "strip_end c s = rev (dropWhile ((=) c) (rev s))"

definition strip_start :: "char \<Rightarrow> string \<Rightarrow> string" where
  "strip_start c s = dropWhile ((=) c) s"

text \<open>\<open>String(n)\<close> of an integer.\<close>

definition digit_char :: "nat \<Rightarrow> char" where
  "digit_char d = char_of (48 + d)"

fun nat_string :: "nat \<Rightarrow> string" where
  "nat_string n = (if n < 10 then [digit_char n] else nat_string (n div 10) @ [digit_char (n mod 10)])"

declare nat_string.simps [simp del]

definition int_string :: "int \<Rightarrow> string" where
  "int_string i = (if i < 0 then CHR ''-'' # nat_string (nat (- i)) else nat_string (nat i))"

lemma js_split_neq_Nil [simp]: "js_split c s \<noteq> []"
  by (induction s) (auto split: list.splits)

lemma js_split_no_sep: "c \<notin> set s \<Longrightarrow> js_split c s = [s]"
  by (induction s) auto

lemma js_split_append_sep: "js_split c (xs @ c # ys) = js_split c xs @ js_split c ys"
  by (induction xs) (auto split: list.splits)

lemma js_split_segment: "c \<notin> set s \<Longrightarrow> js_split c (s @ c # ys) = s # js_split c ys"
  by (simp add: js_split_append_sep js_split_no_sep)

lemma js_split_pieces: "x \<in> set (js_split c s) \<Longrightarrow> c \<notin> set x"
  by (induction s arbitrary: x) (auto split: list.splits if_splits)

lemma js_join_push: "js_join sep ((x # a) # ys) = x # js_join sep (a # ys)"
  by (cases ys) simp_all

lemma js_join_split: "js_join [c] (js_split c s) = s"
proof (induction s)
  case (Cons x xs)
  then show ?case
    by (cases "js_split c xs") (auto simp: js_join_push)
qed simp

lemma js_join_Cons: "xs \<noteq> [] \<Longrightarrow> js_join sep (x # xs) = x @ sep @ js_join sep xs"
  by (cases xs) simp_all

lemma js_split_join:
  "xs \<noteq> [] \<Longrightarrow> \<forall>x \<in> set xs. c \<notin> set x \<Longrightarrow> js_split c (js_join [c] xs) = xs"
proof (induction xs)
  case (Cons x xs)
  then show ?case by (cases "xs = []") (simp_all add: js_join_Cons js_split_no_sep js_split_segment)
qed simp

lemma starts_with_append [simp]: "starts_with (p @ s) p"
  by (simp add: starts_with_def)

lemma starts_withE: "starts_with s p \<Longrightarrow> \<exists>t. s = p @ t"
  unfolding starts_with_def by (metis append_take_drop_id)

section \<open>Percent encoding\<close>

definition is_alnum :: "char \<Rightarrow> bool" where
  "is_alnum c = (let n = (of_char c :: nat) in
     (48 \<le> n \<and> n \<le> 57) \<or> (65 \<le> n \<and> n \<le> 90) \<or> (97 \<le> n \<and> n \<le> 122))"

definition hex_digit :: "nat \<Rightarrow> char" where
  "hex_digit d = (if d < 10 then char_of (48 + d) else char_of (55 + d))"

definition percent :: "char \<Rightarrow> string" where
  "percent c = (let n = (of_char c :: nat) in [CHR ''%'', hex_digit (n div 16), hex_digit (n mod 16)])"

definition component_char :: "char \<Rightarrow> bool" where
  "component_char c = (is_alnum c \<or> c \<in> set ''-_.!~*'' \<or> c \<in> {CHR 0x27, CHR ''('', CHR '')''})"

definition encodeURIComponent :: "string \<Rightarrow> string" where
  "encodeURIComponent s = concat (map (\<lambda>c. if component_char c then [c] else percent c) s)"

text \<open>The serializer of \<open>URLSearchParams\<close> (application/x-www-form-urlencoded).\<close>

definition form_encode :: "string \<Rightarrow> string" where
  "form_encode s = concat (map (\<lambda>c. if is_alnum c \<or> c \<in> set ''*-._'' then [c]
     else if c = CHR '' '' then ''+'' else percent c) s)"

fun set_param :: "string \<Rightarrow> string \<Rightarrow> (string \<times> string) list \<Rightarrow> (string \<times> string) list" where
  "set_param k v [] = [(k, v)]"
| "set_param k v ((k', v') # ps) =
     (if k = k' then (k, v) # filter (\<lambda>p. fst p \<noteq> k) ps else (k', v') # set_param k v ps)"

definition params_string :: "(string \<times> string) list \<Rightarrow> string" where
  "params_string ps = js_join ''&'' (map (\<lambda>(k, v). form_encode k @ ''='' @ form_encode v) ps)"

text \<open>The decoder of a path segment, \<open>None\<close> on a malformed escape.\<close>

definition hex_value :: "char \<Rightarrow> nat option" where
  "hex_value c = (let n = (of_char c :: nat) in
     if 48 \<le> n \<and> n \<le> 57 then Some (n - 48)
     else if 65 \<le> n \<and> n \<le> 70 then Some (n - 55)
     else if 97 \<le> n \<and> n \<le> 102 then Some (n - 87) else None)"

fun percent_decode :: "string \<Rightarrow> string option" where
  "percent_decode [] = Some []"
| "percent_decode (c # cs) =
     (if c \<noteq> CHR ''%'' then map_option ((#) c) (percent_decode cs)
      else (case cs of
          h # l # rest \<Rightarrow>
            (case (hex_value h, hex_value l) of
               (Some a, Some b) \<Rightarrow> map_option ((#) (char_of (16 * a + b))) (percent_decode rest)
             | _ \<Rightarrow> None)
        | _ \<Rightarrow> None))"

lemma hex_digits_ok:
  assumes "d < 16"
  shows "hex_value (hex_digit d) = Some d \<and> is_alnum (hex_digit d)"
proof -
  have "d = 0 \<or> d = 1 \<or> d = 2 \<or> d = 3 \<or> d = 4 \<or> d = 5 \<or> d = 6 \<or> d = 7 \<or> d = 8 \<or> d = 9 \<or>
      d = 10 \<or> d = 11 \<or> d = 12 \<or> d = 13 \<or> d = 14 \<or> d = 15"
    using assms by presburger
  then show ?thesis by (elim disjE) (simp_all add: hex_value_def hex_digit_def is_alnum_def Let_def)
qed

lemma hex_value_digit: "d < 16 \<Longrightarrow> hex_value (hex_digit d) = Some d"
  using hex_digits_ok by simp

lemma percent_decode_percent: "percent_decode (percent c @ s) = map_option ((#) c) (percent_decode s)"
proof -
  have "(of_char c :: nat) < 256" by simp
  then have "(of_char c :: nat) div 16 < 16" by linarith
  then show ?thesis
    by (simp add: percent_def Let_def hex_value_digit char_of_nat)
qed

lemma component_char_not_percent: "component_char c \<Longrightarrow> c \<noteq> CHR ''%''"
  by (auto simp: component_char_def is_alnum_def Let_def)

text \<open>Decoding a component gives the string back, and a component has no URL delimiter in it.\<close>

lemma decode_encode: "percent_decode (encodeURIComponent s) = Some s"
  by (induction s)
     (auto simp: encodeURIComponent_def percent_decode_percent dest: component_char_not_percent)

lemma hex_digit_safe: "d < 16 \<Longrightarrow> is_alnum (hex_digit d)"
  using hex_digits_ok by simp

lemma percent_chars: "x \<in> set (percent c) \<Longrightarrow> x = CHR ''%'' \<or> is_alnum x"
proof -
  have "(of_char c :: nat) < 256" by simp
  then have "(of_char c :: nat) div 16 < 16" by linarith
  then show "x \<in> set (percent c) \<Longrightarrow> x = CHR ''%'' \<or> is_alnum x"
    by (auto simp: percent_def Let_def intro: hex_digit_safe)
qed

lemma encode_chars: "x \<in> set (encodeURIComponent s) \<Longrightarrow> component_char x \<or> x = CHR ''%''"
  by (auto simp: encodeURIComponent_def component_char_def split: if_splits dest: percent_chars)

lemma encode_no_delimiter:
  "CHR ''/'' \<notin> set (encodeURIComponent s)" "CHR ''?'' \<notin> set (encodeURIComponent s)"
  "CHR ''#'' \<notin> set (encodeURIComponent s)"
  by (auto dest!: encode_chars simp: component_char_def is_alnum_def Let_def)

lemma encode_eq_Nil [simp]: "encodeURIComponent s = [] \<longleftrightarrow> s = []"
  by (cases s) (simp_all add: encodeURIComponent_def percent_def Let_def)

section \<open>JSON\<close>

datatype json =
  JNull | JBool bool | JInt int | JStr string | JArr "json list" | JObj "(string \<times> json) list"

text \<open>\<open>JSON.stringify\<close> of a string: quotes, backslashes and control characters are escaped.\<close>

definition json_char :: "char \<Rightarrow> string" where
  "json_char c =
     (let n = (of_char c :: nat) in
      if n = 34 then [CHR 0x5C, CHR 0x22]
      else if n = 92 then [CHR 0x5C, CHR 0x5C]
      else if n = 8 then [CHR 0x5C, CHR ''b'']
      else if n = 9 then [CHR 0x5C, CHR ''t'']
      else if n = 10 then [CHR 0x5C, CHR ''n'']
      else if n = 12 then [CHR 0x5C, CHR ''f'']
      else if n = 13 then [CHR 0x5C, CHR ''r'']
      else if n < 32 then CHR 0x5C # ''u00'' @ [digit_char (n div 16),
        (if n mod 16 < 10 then digit_char (n mod 16) else char_of (87 + n mod 16))]
      else [c])"

definition json_string :: "string \<Rightarrow> string" where
  "json_string s = CHR 0x22 # concat (map json_char s) @ [CHR 0x22]"

text \<open>\<open>JSON.stringify(v)\<close>, and \<open>JSON.stringify(v, null, 2)\<close> at the current indentation.\<close>

fun stringify :: "json \<Rightarrow> string" where
  "stringify JNull = ''null''"
| "stringify (JBool b) = (if b then ''true'' else ''false'')"
| "stringify (JInt i) = int_string i"
| "stringify (JStr s) = json_string s"
| "stringify (JArr vs) = ''['' @ js_join '','' (map stringify vs) @ '']''"
| "stringify (JObj ms) = ''{'' @ js_join '','' (map (\<lambda>(k, v). json_string k @ '':'' @ stringify v) ms) @ ''}''"

fun stringify2 :: "string \<Rightarrow> json \<Rightarrow> string" where
  "stringify2 ind (JArr vs) =
     (if vs = [] then ''[]''
      else ''['' @ CHR 0x0A # ind @ ''  '' @
        js_join ('','' @ CHR 0x0A # ind @ ''  '') (map (stringify2 (ind @ ''  '')) vs) @
        CHR 0x0A # ind @ '']'')"
| "stringify2 ind (JObj ms) =
     (if ms = [] then ''{}''
      else ''{'' @ CHR 0x0A # ind @ ''  '' @
        js_join ('','' @ CHR 0x0A # ind @ ''  '')
          (map (\<lambda>(k, v). json_string k @ '': '' @ stringify2 (ind @ ''  '') v) ms) @
        CHR 0x0A # ind @ ''}'')"
| "stringify2 ind v = stringify v"

section \<open>Quotients in double precision\<close>

text \<open>
  A non-negative double is \<open>(m, s)\<close>, the number \<open>m / 2 ^ s\<close>. \<open>round53 p q\<close> is the double nearest to \<open>p / q\<close>,
  ties to even, for \<open>p / q < 2 ^ 53\<close> (subnormals aside: the quotients here are far from them).
\<close>

type_synonym dbl = "nat \<times> nat"

text \<open>The scale at which \<open>p / q\<close> has 53 significant bits: \<open>2 ^ 52 \<le> p * 2 ^ s / q\<close>.\<close>

function scale53 :: "nat \<Rightarrow> nat \<Rightarrow> nat \<Rightarrow> nat" where
  "scale53 p q s = (if p = 0 \<or> q = 0 \<or> 2 ^ 52 * q \<le> p * 2 ^ s then s else scale53 p q (Suc s))"
  by pat_completeness auto
termination
proof (relation "measure (\<lambda>(p, q, s). 2 ^ 52 * q - p * 2 ^ s)")
  fix p q s :: nat
  assume "\<not> (p = 0 \<or> q = 0 \<or> 2 ^ 52 * q \<le> p * 2 ^ s)"
  then have "0 < p * 2 ^ s" "p * 2 ^ s < 2 ^ 52 * q" by auto
  then show "((p, q, Suc s), p, q, s) \<in> measure (\<lambda>(p, q, s). 2 ^ 52 * q - p * 2 ^ s)"
    by (simp add: mult.left_commute diff_less_mono2)
qed simp

declare scale53.simps [simp del]

definition round_div :: "nat \<Rightarrow> nat \<Rightarrow> nat" where
  "round_div a b =
     (let d = a div b; r = a mod b in
      if 2 * r < b then d else if b < 2 * r then Suc d else if even d then d else Suc d)"

definition round53 :: "nat \<Rightarrow> nat \<Rightarrow> dbl" where
  "round53 p q = (let s = scale53 p q 0 in (round_div (p * 2 ^ s) q, s))"

definition dbl_div :: "dbl \<Rightarrow> nat \<Rightarrow> dbl" where
  "dbl_div x k = (case x of (m, s) \<Rightarrow> round53 m (2 ^ s * k))"

definition dbl_mult :: "dbl \<Rightarrow> nat \<Rightarrow> dbl" where
  "dbl_mult x k = (case x of (m, s) \<Rightarrow> round53 (m * k) (2 ^ s))"

definition dbl_less_nat :: "dbl \<Rightarrow> nat \<Rightarrow> bool" where
  "dbl_less_nat x k = (case x of (m, s) \<Rightarrow> m < k * 2 ^ s)"

definition nat_less_dbl :: "nat \<Rightarrow> dbl \<Rightarrow> bool" where
  "nat_less_dbl k x = (case x of (m, s) \<Rightarrow> k * 2 ^ s < m)"

text \<open>\<open>x.toFixed(f)\<close>: the \<open>n\<close> for which \<open>n / 10 ^ f\<close> is nearest to \<open>x\<close>, the larger of two.\<close>

definition fixed_digits :: "nat \<Rightarrow> dbl \<Rightarrow> nat" where
  "fixed_digits f x = (case x of (m, s) \<Rightarrow> (2 * m * 10 ^ f + 2 ^ s) div (2 * 2 ^ s))"

definition toFixed0 :: "dbl \<Rightarrow> string" where
  "toFixed0 x = nat_string (fixed_digits 0 x)"

definition decimal1 :: "nat \<Rightarrow> string" where
  "decimal1 n = nat_string (n div 10) @ ''.'' @ [digit_char (n mod 10)]"

definition toFixed1 :: "dbl \<Rightarrow> string" where
  "toFixed1 x = decimal1 (fixed_digits 1 x)"

lemma scale53_bounds:
  "0 < p \<Longrightarrow> 0 < q \<Longrightarrow> 2 ^ 52 * q \<le> p * 2 ^ scale53 p q s"
proof (induction p q s rule: scale53.induct)
  case (1 p q s)
  then show ?case by (subst scale53.simps) (auto simp: scale53.simps)
qed

lemma round_div_close:
  assumes "0 < b"
  shows "2 * a \<le> 2 * b * round_div a b + b" and "2 * b * round_div a b \<le> 2 * a + b"
proof -
  define d r where "d = a div b" and "r = a mod b"
  have a: "a = b * d + r" by (simp add: d_def r_def)
  have r: "r < b" using assms by (simp add: r_def)
  have eqs: "2 * b * d = 2 * (b * d)" "2 * b * Suc d = 2 * (b * d) + 2 * b" by simp_all
  have "round_div a b = d \<and> 2 * r \<le> b \<or> round_div a b = Suc d \<and> b \<le> 2 * r"
    by (auto simp: round_div_def Let_def d_def r_def)
  then have "2 * a \<le> 2 * b * round_div a b + b \<and> 2 * b * round_div a b \<le> 2 * a + b"
  proof (elim disjE conjE)
    assume "round_div a b = d" "2 * r \<le> b"
    then show ?thesis unfolding \<open>round_div a b = d\<close> eqs using a by linarith
  next
    assume "round_div a b = Suc d" "b \<le> 2 * r"
    then show ?thesis unfolding \<open>round_div a b = Suc d\<close> eqs using a r by linarith
  qed
  then show "2 * a \<le> 2 * b * round_div a b + b" "2 * b * round_div a b \<le> 2 * a + b" by simp_all
qed

section \<open>Element trees\<close>

text \<open>
  What a render function returns: \<open>null\<close> or \<open>false\<close>, text, an element with attributes and children, a
  fragment. A handler is the value \<open>'e\<close> that names what it does; \<open>Data\<close> is a prop of a component of a
  library that is not modelled. Class names that do not depend on the state are left out.
\<close>

datatype 'e attr =
  Attr string string
| Flag string bool
| Data string json
| On string 'e

datatype 'e node =
  Nothing
| Txt string
| Elem string "'e attr list" "'e node list"
| Frag "'e node list"

definition whenn :: "bool \<Rightarrow> 'e node \<Rightarrow> 'e node" where
  "whenn c n = (if c then n else Nothing)"

text \<open>The handlers in a tree that the user can reach: those of a disabled element do not fire.\<close>

fun attr_handlers :: "'e attr list \<Rightarrow> (string \<times> 'e) list" where
  "attr_handlers [] = []"
| "attr_handlers (On ev h # as) = (ev, h) # attr_handlers as"
| "attr_handlers (a # as) = attr_handlers as"

fun is_disabled :: "'e attr list \<Rightarrow> bool" where
  "is_disabled [] = False"
| "is_disabled (Flag n v # as) = (n = ''disabled'' \<and> v \<or> is_disabled as)"
| "is_disabled (a # as) = is_disabled as"

fun handlers :: "'e node \<Rightarrow> (string \<times> 'e) list" where
  "handlers Nothing = []"
| "handlers (Txt s) = []"
| "handlers (Elem tag as ns) =
     (if is_disabled as then [] else attr_handlers as) @ concat (map handlers ns)"
| "handlers (Frag ns) = concat (map handlers ns)"

text \<open>The text a reader sees.\<close>

fun text_of :: "'e node \<Rightarrow> string" where
  "text_of Nothing = []"
| "text_of (Txt s) = s"
| "text_of (Elem tag as ns) = concat (map text_of ns)"
| "text_of (Frag ns) = concat (map text_of ns)"

lemma handlers_whenn [simp]: "handlers (whenn c n) = (if c then handlers n else [])"
  by (simp add: whenn_def)

lemma text_of_whenn [simp]: "text_of (whenn c n) = (if c then text_of n else [])"
  by (simp add: whenn_def)

end
