(* ===== verification/Live_Updates.thy ===== *)
theory Live_Updates
  imports JS_Prelude Backend_Jobs Event_Delivery "HOL-Library.AList" "HOL-Library.Word"
begin

text \<open>
  The WebSocket handler (\<open>internal/api/handler_ws.go\<close>): a connection subscribes to channels of the event broker, and a
  goroutine per subscription forwards its events. Writing to a connection may fail without the handler noticing, so
  \<open>ws_out\<close> is what it tries to write. Pings are left out. The backend of this repository never fails \<open>QueueStats\<close>.
\<close>

section \<open>Data\<close>

text \<open>\<open>json.Unmarshal\<close> into action and channel, and \<open>json.Marshal\<close> of an event.\<close>

record ws_env =
  parse_message :: "string \<Rightarrow> (string \<times> string) option"
  marshal_event :: "job_event \<Rightarrow> string option"

datatype ws_response =
  Ws_error string string
| Subscribed string
| Unsubscribed string
| Ws_event string string string string string \<comment> \<open>channel, event, data, id, timestamp\<close>

text \<open>The map \<open>subs\<close> of a connection, in the order \<open>Range\<close> visits it, with the subscription behind each \<open>unsub\<close>; the
  forwarding goroutines that have not returned; and what was written.\<close>

record ws_conn =
  ws_subs :: "(string \<times> subscription \<times> nat) list"
  ws_forwarders :: "(string \<times> nat) list"
  ws_out :: "ws_response list"

definition ws_open :: ws_conn where
  "ws_open = \<lparr>ws_subs = [], ws_forwarders = [], ws_out = []\<rparr>"

definition writeJSON :: "ws_response \<Rightarrow> ws_conn \<Rightarrow> ws_conn" where
  "writeJSON msg conn = conn\<lparr>ws_out := ws_out conn @ [msg]\<rparr>"

definition formatEventID :: "64 word \<Rightarrow> string" where
  "formatEventID n =
     (let s = nat_string (unat n) in ''evt_'' @ replicate (4 - length s) (CHR ''0'') @ s)"

section \<open>Messages of a client\<close>

text \<open>What a channel name asks for: nothing, a job that must exist, a queue, or everything.\<close>

definition has_prefix :: "string \<Rightarrow> string \<Rightarrow> bool" where
  "has_prefix p s \<longleftrightarrow> take (length p) s = p"

definition channel_target :: "backend \<Rightarrow> string \<Rightarrow> ws_response + subscription" where
  "channel_target bk channel =
     (if has_prefix ''job:'' channel then
        (let jobID = drop 4 channel in
         case Info jobID bk of
           Inl _ \<Rightarrow> Inl (Ws_error ''not_found'' ''Job not found.'')
         | Inr _ \<Rightarrow> Inr (To_job jobID))
      else if has_prefix ''queue:'' channel then Inr (To_queue (drop 6 channel))
      else if channel = ''all'' then Inr To_all
      else Inl (Ws_error ''invalid_request'' ''Invalid channel. Use 'job:{id}', 'queue:{name}', or 'all'.''))"

definition handleSubscribe :: "backend \<Rightarrow> string \<Rightarrow> ws_conn \<times> broker \<Rightarrow> ws_conn \<times> broker" where
  "handleSubscribe bk channel cb =
     (case cb of (conn, b) \<Rightarrow>
        if map_of (ws_subs conn) channel \<noteq> None then (writeJSON (Subscribed channel) conn, b)
        else (case channel_target bk channel of
          Inl err \<Rightarrow> (writeJSON err conn, b)
        | Inr s \<Rightarrow>
            (let (ch, b1) = subscribe s b;
                 conn1 = conn\<lparr>ws_subs := AList.update channel (s, ch) (ws_subs conn)\<rparr>
             in (writeJSON (Subscribed channel) (conn1\<lparr>ws_forwarders := (channel, ch) # ws_forwarders conn1\<rparr>), b1))))"

definition handleUnsubscribe :: "string \<Rightarrow> ws_conn \<times> broker \<Rightarrow> (ws_conn \<times> broker) option" where
  "handleUnsubscribe channel cb =
     (case cb of (conn, b) \<Rightarrow>
        (case map_of (ws_subs conn) channel of
           None \<Rightarrow> Some (writeJSON (Unsubscribed channel) conn, b)
         | Some (s, ch) \<Rightarrow>
             Option.bind (unsubscribe s ch b) (\<lambda>b1.
               Some (writeJSON (Unsubscribed channel) (conn\<lparr>ws_subs := AList.delete channel (ws_subs conn)\<rparr>), b1))))"

text \<open>One message of the read loop; a panic of the broker is \<open>None\<close>.\<close>

definition ws_message :: "ws_env \<Rightarrow> backend \<Rightarrow> string \<Rightarrow> ws_conn \<times> broker \<Rightarrow> (ws_conn \<times> broker) option" where
  "ws_message E bk msgBytes cb =
     (case parse_message E msgBytes of
        None \<Rightarrow> Some (writeJSON (Ws_error ''invalid_request'' ''Invalid JSON message.'') (fst cb), snd cb)
      | Some (action, channel) \<Rightarrow>
          if action = ''subscribe'' then Some (handleSubscribe bk channel cb)
          else if action = ''unsubscribe'' then handleUnsubscribe channel cb
          else Some (writeJSON (Ws_error ''invalid_request'' ''Unknown action. Use 'subscribe' or 'unsubscribe'.'') (fst cb), snd cb))"

text \<open>The read failed: every subscription is cancelled.\<close>

definition ws_close :: "ws_conn \<Rightarrow> broker \<Rightarrow> broker option" where
  "ws_close conn b = fold (\<lambda>(s, ch) r. Option.bind r (unsubscribe s ch)) (map snd (ws_subs conn)) (Some b)"

section \<open>Forwarding\<close>

text \<open>One round of the forwarder \<open>(channel, ch)\<close>; \<open>n\<close> is the handler's counter of events.\<close>

definition ws_forward :: "ws_env \<Rightarrow> string \<times> nat \<Rightarrow> (ws_conn \<times> 64 word) \<times> broker \<Rightarrow> (ws_conn \<times> 64 word) \<times> broker" where
  "ws_forward E w cb =
     (case w of (channel, ch) \<Rightarrow> case cb of ((conn, n), b) \<Rightarrow>
        case receive ch b of
          (Received e, b1) \<Rightarrow>
            (case marshal_event E e of
               None \<Rightarrow> ((conn, n), b1)
             | Some data \<Rightarrow>
                 ((writeJSON (Ws_event channel (ev_type e) data (formatEventID (n + 1)) (ev_timestamp e)) conn, n + 1), b1))
        | (Ended, b1) \<Rightarrow> ((conn\<lparr>ws_forwarders := remove1 (channel, ch) (ws_forwarders conn)\<rparr>, n), b1)
        | (Blocks, b1) \<Rightarrow> ((conn, n), b1))"

section \<open>A connection's subscriptions\<close>

text \<open>
  What a connection holds was handed out to it; each forwarder's channel either belongs to a subscription it holds or
  is closed, so that the forwarder will return.
\<close>

definition conn_inv :: "closures \<Rightarrow> ws_conn \<Rightarrow> broker \<Rightarrow> bool" where
  "conn_inv C conn b \<longleftrightarrow> broker_inv C b \<and> snd ` set (ws_subs conn) \<subseteq> C \<and> distinct (map fst (ws_subs conn)) \<and>
     (\<forall>(channel, ch) \<in> set (ws_forwarders conn). ch \<in> snd ` snd ` set (ws_subs conn) \<or> ch \<in> ch_shut b)"

text \<open>The other connections and the rest of the server use the broker too, in any way.\<close>

inductive ws_step :: "ws_env \<Rightarrow> closures \<times> ws_conn \<times> broker \<Rightarrow> closures \<times> ws_conn \<times> broker \<Rightarrow> bool" for E where
  message: "ws_message E bk bytes (conn, b) = Some (conn', b') \<Longrightarrow>
    ws_step E (C, conn, b) (C \<union> snd ` set (ws_subs conn'), conn', b')"
| forward: "w \<in> set (ws_forwarders conn) \<Longrightarrow> ws_forward E w ((conn, n), b) = ((conn', n'), b') \<Longrightarrow>
    ws_step E (C, conn, b) (C, conn', b')"
| others: "broker_step (C, b) a (C', b') \<Longrightarrow> ws_step E (C, conn, b) (C', conn, b')"

inductive ws_reach :: "ws_env \<Rightarrow> closures \<times> ws_conn \<times> broker \<Rightarrow> bool" for E where
  opened: "broker_run ({}, NewBroker) as (C, b) \<Longrightarrow> ws_reach E (C, ws_open, b)"
| step: "ws_reach E st \<Longrightarrow> ws_step E st st' \<Longrightarrow> ws_reach E st'"

lemma conn_invD:
  assumes "conn_inv C conn b"
  shows "broker_inv C b" "p \<in> set (ws_subs conn) \<Longrightarrow> snd p \<in> C" "distinct (map fst (ws_subs conn))"
    and "(channel, ch) \<in> set (ws_forwarders conn) \<Longrightarrow> ch \<notin> ch_shut b \<Longrightarrow> ch \<in> snd ` snd ` set (ws_subs conn)"
  using assms unfolding conn_inv_def by fast+

lemma conn_invI:
  assumes "broker_inv C b" "\<And>p. p \<in> set (ws_subs conn) \<Longrightarrow> snd p \<in> C" "distinct (map fst (ws_subs conn))"
    and "\<And>channel ch. (channel, ch) \<in> set (ws_forwarders conn) \<Longrightarrow> ch \<notin> ch_shut b \<Longrightarrow> ch \<in> snd ` snd ` set (ws_subs conn)"
  shows "conn_inv C conn b"
  using assms unfolding conn_inv_def by blast

lemma writeJSON_fields [simp]:
  "ws_subs (writeJSON m conn) = ws_subs conn" "ws_forwarders (writeJSON m conn) = ws_forwarders conn"
  "conn_inv C (writeJSON m conn) b \<longleftrightarrow> conn_inv C conn b"
  by (simp_all add: writeJSON_def conn_inv_def)

lemma step_grows:
  assumes "broker_step (C, b) a (C', b')" "broker_inv C b"
  shows "C \<subseteq> C' \<and> ch_shut b \<subseteq> ch_shut b' \<and> broker_inv C' b'"
proof -
  have inv: "broker_inv C' b'" using sane_step [OF assms(1)] assms(2) by (simp add: sane_def)
  from assms(1) have "C \<subseteq> C' \<and> ch_shut b \<subseteq> ch_shut b'"
  proof cases
    case (publish e)
    then show ?thesis
      by (cases e) (auto simp: PublishJobEvent_def [of None] publish_deliver [OF assms(2)])
  next
    case (subscribe s ch)
    then show ?thesis using subscribe_result(5) [OF subscribe(3)] by blast
  next
    case (unsubscribe s ch)
    obtain b1 where "Event_Delivery.unsubscribe s ch b = Some b1" "ch_shut b1 = insert ch (ch_shut b)"
      using broker.unsub_law [OF assms(2) unsubscribe(3)] by blast
    then have "ch_shut b' = insert ch (ch_shut b)" using unsubscribe(4) by simp
    then show ?thesis using unsubscribe(2) by blast
  next
    case (receive ch r)
    then show ?thesis using receive_fields(3) [OF receive(3)] by blast
  next
    case (shutdown ord)
    obtain b1 where "Close ord b = Some b1"
      "ch_shut b1 = set (concat (map (\<lambda>k. subs_of k b) ord)) \<union> set (b_allSubs b) \<union> ch_shut b"
      by (rule Close_result [OF broker_invD(7) [OF assms(2)], of ord])
    then have "ch_shut b \<subseteq> ch_shut b'" using shutdown(3) by simp
    then show ?thesis using shutdown(2) by blast
  qed
  then show ?thesis using inv by blast
qed

lemma conn_inv_others:
  assumes "conn_inv C conn b" "broker_step (C, b) a (C', b')"
  shows "conn_inv C' conn b'"
  using assms(1) step_grows [OF assms(2) conn_invD(1) [OF assms(1)]] unfolding conn_inv_def by blast

lemma update_fresh: "k \<notin> fst ` set al \<Longrightarrow> AList.update k v al = al @ [(k, v)]"
  by (induction al) auto

text \<open>What a write leaves: the subscriptions and forwarders of a connection.\<close>

lemma handleSubscribe_cases:
  obtains (refused) m where "handleSubscribe bk channel (conn, b) = (writeJSON m conn, b)"
  | (subscribed) s ch b1 conn' where "handleSubscribe bk channel (conn, b) = (conn', b1)" "subscribe s b = (ch, b1)"
      "channel \<notin> fst ` set (ws_subs conn)" "ws_subs conn' = ws_subs conn @ [(channel, s, ch)]"
      "ws_forwarders conn' = (channel, ch) # ws_forwarders conn"
proof (cases "map_of (ws_subs conn) channel")
  case (Some p)
  show ?thesis by (rule refused [of "Subscribed channel"]) (simp add: handleSubscribe_def Some)
next
  case None
  then have fresh: "channel \<notin> fst ` set (ws_subs conn)" by (simp add: map_of_eq_None_iff)
  show ?thesis
  proof (cases "channel_target bk channel")
    case (Inl m)
    show ?thesis by (rule refused [of m]) (simp add: handleSubscribe_def None Inl)
  next
    case (Inr s)
    obtain ch b1 where sub: "subscribe s b = (ch, b1)" by (cases "subscribe s b")
    show ?thesis
      by (rule subscribed [OF _ sub fresh], simp add: handleSubscribe_def None Inr sub Let_def)
        (simp_all add: fresh update_fresh)
  qed
qed

lemma conn_inv_subscribe:
  assumes "conn_inv C conn b" "handleSubscribe bk channel (conn, b) = (conn', b')"
  shows "conn_inv (C \<union> snd ` set (ws_subs conn')) conn' b'"
proof -
  note old = conn_invD [OF assms(1)]
  have same: "C \<union> snd ` set (ws_subs conn) = C" using old(2) by auto
  show ?thesis
  proof (rule handleSubscribe_cases [of bk channel conn b])
    fix m assume "handleSubscribe bk channel (conn, b) = (writeJSON m conn, b)"
    then have "conn' = writeJSON m conn" "b' = b" using assms(2) by simp_all
    then show ?thesis using assms(1) same by simp
  next
    fix s ch b1 conn1
    assume sub: "handleSubscribe bk channel (conn, b) = (conn1, b1)" "subscribe s b = (ch, b1)"
      "channel \<notin> fst ` set (ws_subs conn)"
      and new: "ws_subs conn1 = ws_subs conn @ [(channel, s, ch)]" "ws_forwarders conn1 = (channel, ch) # ws_forwarders conn"
    have eq: "conn' = conn1" "b' = b1" using assms(2) sub(1) by simp_all
    have C: "C \<union> snd ` set (ws_subs conn') = insert (s, ch) C" unfolding eq new using same by auto
    have b1: "broker_inv (insert (s, ch) C) b1" "ch_shut b1 = ch_shut b"
      using broker.sub_law [OF old(1) sub(2)] by blast+
    show ?thesis unfolding C
    proof (rule conn_invI)
      show "broker_inv (insert (s, ch) C) b'" using b1(1) eq by simp
      show "snd p \<in> insert (s, ch) C" if "p \<in> set (ws_subs conn')" for p
        using that old(2) [of p] unfolding eq new by auto
      show "distinct (map fst (ws_subs conn'))" unfolding eq new using old(3) sub(3) by simp
      show "c \<in> snd ` snd ` set (ws_subs conn')" if "(k, c) \<in> set (ws_forwarders conn')" "c \<notin> ch_shut b'" for k c
        using that old(4) [of k c] b1(2) unfolding eq new by auto
    qed
  qed
qed

lemma conn_inv_unsubscribe:
  assumes "conn_inv C conn b"
  obtains conn' b' where "handleUnsubscribe channel (conn, b) = Some (conn', b')" "conn_inv C conn' b'"
    "set (ws_subs conn') \<subseteq> set (ws_subs conn)"
proof (cases "map_of (ws_subs conn) channel")
  case None
  show ?thesis
    by (rule that [of "writeJSON (Unsubscribed channel) conn" b]) (simp_all add: handleUnsubscribe_def None assms)
next
  case (Some p)
  obtain s ch where p: "p = (s, ch)" by (cases p)
  note old = conn_invD [OF assms]
  have "(channel, s, ch) \<in> set (ws_subs conn)" using Some p by (simp add: map_of_SomeD)
  then have "(s, ch) \<in> C" using old(2) by force
  then obtain b1 where b1: "unsubscribe s ch b = Some b1" "broker_inv C b1" "ch_shut b1 = insert ch (ch_shut b)"
    using broker.unsub_law [OF old(1)] by blast
  let ?conn = "conn\<lparr>ws_subs := AList.delete channel (ws_subs conn)\<rparr>"
  have kept: "set (ws_subs ?conn) \<subseteq> set (ws_subs conn)" by (auto simp: AList.delete_eq)
  have "conn_inv C ?conn b1"
  proof (rule conn_invI)
    show "snd q \<in> C" if "q \<in> set (ws_subs ?conn)" for q using that old(2) kept by blast
    show "distinct (map fst (ws_subs ?conn))" using old(3) by (simp add: AList.distinct_delete)
    show "c \<in> snd ` snd ` set (ws_subs ?conn)" if "(k, c) \<in> set (ws_forwarders ?conn)" "c \<notin> ch_shut b1" for k c
    proof -
      have "c \<noteq> ch" "(k, c) \<in> set (ws_forwarders conn)" "c \<notin> ch_shut b" using that b1(3) by auto
      then obtain k' s' where sub: "(k', s', c) \<in> set (ws_subs conn)" using old(4) by force
      have "k' \<noteq> channel"
      proof
        assume "k' = channel"
        then have "map_of (ws_subs conn) channel = Some (s', c)" using sub old(3) by simp
        then show False using Some p \<open>c \<noteq> ch\<close> by simp
      qed
      then have "(k', s', c) \<in> set (ws_subs ?conn)" using sub by (simp add: AList.delete_eq)
      then show ?thesis by force
    qed
  qed (rule b1(2))
  then show ?thesis using that [of "writeJSON (Unsubscribed channel) ?conn" b1] Some p b1(1) kept
    by (simp add: handleUnsubscribe_def)
qed

lemma conn_inv_message:
  assumes "conn_inv C conn b"
  obtains (result) conn' b' where "ws_message E bk bytes (conn, b) = Some (conn', b')"
    "conn_inv (C \<union> snd ` set (ws_subs conn')) conn' b'"
proof -
  have C: "C \<union> snd ` X = C" if "X \<subseteq> set (ws_subs conn)" for X using that conn_invD(2) [OF assms] by auto
  have plain: thesis if "ws_message E bk bytes (conn, b) = Some (writeJSON m conn, b)" for m
    by (rule result [OF that]) (simp add: assms C)
  show ?thesis
  proof (cases "parse_message E bytes")
    case None
    then show ?thesis by (intro plain) (simp add: ws_message_def)
  next
    case (Some p)
    obtain action channel where p: "p = (action, channel)" by (cases p)
    consider "action = ''subscribe''" | "action = ''unsubscribe''" "action \<noteq> ''subscribe''"
      | "action \<noteq> ''subscribe''" "action \<noteq> ''unsubscribe''" by blast
    then show ?thesis
    proof cases
      case 1
      obtain conn' b' where h: "handleSubscribe bk channel (conn, b) = (conn', b')" by fastforce
      show ?thesis by (rule result [OF _ conn_inv_subscribe [OF assms h]]) (simp add: ws_message_def Some p 1 h)
    next
      case 2
      obtain conn' b' where h: "handleUnsubscribe channel (conn, b) = Some (conn', b')" "conn_inv C conn' b'"
        "set (ws_subs conn') \<subseteq> set (ws_subs conn)" by (rule conn_inv_unsubscribe [OF assms])
      show ?thesis by (rule result [of conn' b']) (simp_all add: ws_message_def Some p 2(1) h(1,2) C [OF h(3)])
    next
      case 3
      then show ?thesis by (intro plain) (simp add: ws_message_def Some p)
    qed
  qed
qed

lemma conn_inv_forward:
  assumes "conn_inv C conn b" "ws_forward E w ((conn, n), b) = ((conn', n'), b')"
  shows "conn_inv C conn' b'"
proof -
  obtain channel ch where w: "w = (channel, ch)" by (cases w)
  obtain r where r: "receive ch b = (r, b')"
    using assms(2) unfolding w ws_forward_def by (auto split: prod.splits received.splits option.splits)
  have conn': "ws_subs conn' = ws_subs conn" "set (ws_forwarders conn') \<subseteq> set (ws_forwarders conn)"
    using assms(2) unfolding w ws_forward_def
    by (auto split: prod.splits received.splits option.splits dest: subsetD [OF set_remove1_subset])
  have "broker_inv C b'" using step_grows [OF broker_step.receive [OF r] conn_invD(1) [OF assms(1)]] by blast
  then show ?thesis
    using conn_invD [OF assms(1)] conn' receive_fields(3) [OF r] by (intro conn_invI) (simp_all, blast)
qed

lemma reach_conn_inv: "ws_reach E st \<Longrightarrow> conn_inv (fst st) (fst (snd st)) (snd (snd st))"
proof (induction rule: ws_reach.induct)
  case (opened as C b)
  have "broker_inv C b" using sane_run [OF opened sane_start] by (simp add: sane_def)
  then show ?case by (simp add: conn_inv_def ws_open_def)
next
  case (step st st')
  from step.hyps(2) step.IH show ?case
  proof (induction rule: ws_step.induct)
    case (message bk bytes conn b conn' b' C)
    then have "conn_inv C conn b" by simp
    then show ?case by (rule conn_inv_message [of C conn b E bk bytes]) (use message(1) in simp)
  next
    case (forward w conn n b conn' n' b' C)
    then show ?case using conn_inv_forward [of C conn b E w n] by simp
  next
    case (others C b a C' b' conn)
    then show ?case using conn_inv_others [of C conn b] by simp
  qed
qed

text \<open>
  C33: A WebSocket client that disconnects, whatever it subscribed to, unsubscribed from and received before, leaves nothing
  behind in the event broker: cancelling its subscriptions does not panic, takes exactly these out of the broker, and
  closes the channel of every goroutine still forwarding to the connection.
\<close>

theorem ws_disconnect_releases:
  assumes "ws_reach E (C, conn, b)"
  shows "\<exists>b'. ws_close conn b = Some b' \<and> registered b' = registered b - snd ` set (ws_subs conn) \<and>
    snd ` set (ws_forwarders conn) \<subseteq> ch_shut b'"
proof -
  note inv = conn_invD [OF reach_conn_inv [OF assms, simplified]]
  have "set (map snd (ws_subs conn)) \<subseteq> C" using inv(2) by auto
  from broker.release_all [OF inv(1) this] obtain b' where b': "ws_close conn b = Some b'"
    "registered b' = registered b - snd ` set (ws_subs conn)" "ch_shut b' = snd ` snd ` set (ws_subs conn) \<union> ch_shut b"
    unfolding ws_close_def by auto
  moreover have "snd ` set (ws_forwarders conn) \<subseteq> ch_shut b'" using inv(4) unfolding b'(3) by fastforce
  ultimately show ?thesis by blast
qed

definition sample_ws :: ws_env where
  "sample_ws = \<lparr>parse_message = (\<lambda>s. Some (''subscribe'', s)), marshal_event = (\<lambda>e. Some (ev_job_id e))\<rparr>"

lemma ws_disconnect_releases_witness:
  "\<exists>b'. ws_close (\<lparr>ws_subs = [(''all'', To_all, 0)], ws_forwarders = [(''all'', 0)], ws_out = [Subscribed ''all'']\<rparr>)
      (snd (subscribe To_all NewBroker)) = Some b' \<and> registered b' = {} \<and> 0 \<in> ch_shut b'"
proof -
  let ?conn = "\<lparr>ws_subs = [(''all'', To_all, 0)], ws_forwarders = [(''all'', 0)], ws_out = [Subscribed ''all'']\<rparr>"
    and ?b = "snd (subscribe To_all NewBroker)"
  have sub: "subscribe To_all NewBroker = (0, ?b)"
    by (simp add: SubscribeAll_def make_chan_def NewBroker_def)
  have target: "channel_target bk ''all'' = Inr To_all" for bk
    by (simp add: channel_target_def has_prefix_def)
  have "handleSubscribe bk ''all'' (ws_open, NewBroker) = (?conn, ?b)" for bk
    unfolding handleSubscribe_def using sub
    by (cases "subscribe To_all NewBroker") (simp add: target ws_open_def writeJSON_def del: subscribe.simps)
  then have "ws_message sample_ws bk ''all'' (ws_open, NewBroker) = Some (?conn, ?b)" for bk
    by (simp add: ws_message_def sample_ws_def del: subscribe.simps)
  from ws_reach.step [OF ws_reach.opened [OF broker_run.empty] ws_step.message [OF this]]
  obtain b' where b': "ws_close ?conn ?b = Some b'" "registered b' = registered ?b - {(To_all, 0)}" "0 \<in> ch_shut b'"
    using ws_disconnect_releases [of sample_ws _ ?conn ?b] by fastforce
  have "registered NewBroker = {}"
  proof -
    have "listeners s NewBroker = []" for s by (cases s) (simp_all add: NewBroker_def subs_of_def)
    then show ?thesis by (simp add: registered_def)
  qed
  moreover have "registered ?b = insert (To_all, 0) (registered NewBroker)"
    using broker.sub_law [OF broker_inv_new sub] by blast
  ultimately have "registered b' = {}" using b'(2) by simp
  then show ?thesis using b'(1,3) by blast
qed

end
