(* ===== verification/Admin_Client.thy ===== *)
theory Admin_Client
  imports JS_Prelude
begin

text \<open>
  The API client of the admin UI (class \<open>n8\<close> of the bundle, exported as \<open>OJSAdminClient\<close>) and the
  routes of \<open>internal/server/server.go\<close> it talks to. A method of the client is the request it hands
  to \<open>fetch\<close>; \<open>finish_request\<close> is what \<open>request\<close> makes of the response.
\<close>

section \<open>Requests\<close>

record fetch_request =
  rq_url :: string
  rq_method :: string
  rq_headers :: "(string \<times> string) list"
  rq_body :: "string option"

text \<open>The options the methods pass: \<open>undefined\<close>, or a method with or without a JSON body.\<close>

record request_init =
  ri_method :: string
  ri_body :: "json option"

definition request :: "string \<Rightarrow> string \<Rightarrow> request_init option \<Rightarrow> fetch_request" where
  "request baseUrl t a =
     \<lparr>rq_url = baseUrl @ t,
      rq_method = (case a of None \<Rightarrow> ''GET'' | Some i \<Rightarrow> ri_method i),
      rq_headers = [(''Content-Type'', ''application/json'')],
      rq_body = (case a of None \<Rightarrow> None | Some i \<Rightarrow> map_option stringify (ri_body i))\<rparr>"

definition post :: "request_init option" where
  "post = Some \<lparr>ri_method = ''POST'', ri_body = None\<rparr>"

definition post_json :: "json \<Rightarrow> request_init option" where
  "post_json v = Some \<lparr>ri_method = ''POST'', ri_body = Some v\<rparr>"

definition delete :: "request_init option" where
  "delete = Some \<lparr>ri_method = ''DELETE'', ri_body = None\<rparr>"

text \<open>A member whose value is \<open>undefined\<close> is left out of the JSON.\<close>

definition member :: "string \<Rightarrow> json option \<Rightarrow> (string \<times> json) list" where
  "member k v = (case v of None \<Rightarrow> [] | Some x \<Rightarrow> [(k, x)])"

text \<open>\<open>Object.entries(t).forEach(([i, c]) => { c !== void 0 && a.set(i, String(c)) })\<close>.\<close>

datatype param = PStr string | PInt int

fun param_string :: "param \<Rightarrow> string" where
  "param_string (PStr s) = s"
| "param_string (PInt i) = int_string i"

definition entries_params :: "(string \<times> param option) list \<Rightarrow> (string \<times> string) list" where
  "entries_params t = fold (\<lambda>(i, c) a. case c of None \<Rightarrow> a | Some v \<Rightarrow> set_param i (param_string v) a) t []"

section \<open>The methods\<close>

definition manifest :: "string \<Rightarrow> fetch_request" where
  "manifest base = request base ''/ojs/manifest'' None"

definition stats :: "string \<Rightarrow> fetch_request" where
  "stats base = request base ''/ojs/v1/admin/stats'' None"

text \<open>\<open>a && c.set(...)\<close>: the empty string is as good as \<open>undefined\<close>.\<close>

definition statsHistory :: "string \<Rightarrow> string \<Rightarrow> string \<Rightarrow> string \<Rightarrow> fetch_request" where
  "statsHistory base t a i =
     (let c = [(''period'', t)];
          c = (if a \<noteq> '''' then set_param ''since'' a c else c);
          c = (if i \<noteq> '''' then set_param ''queue'' i c else c)
      in request base (''/ojs/v1/admin/stats/history?'' @ params_string c) None)"

definition queues :: "string \<Rightarrow> int \<Rightarrow> int \<Rightarrow> fetch_request" where
  "queues base t a = request base
     (''/ojs/v1/admin/queues?page='' @ int_string t @ ''&per_page='' @ int_string a) None"

definition queue :: "string \<Rightarrow> string \<Rightarrow> fetch_request" where
  "queue base t = request base (''/ojs/v1/admin/queues/'' @ encodeURIComponent t) None"

definition pauseQueue :: "string \<Rightarrow> string \<Rightarrow> fetch_request" where
  "pauseQueue base t =
     request base (''/ojs/v1/admin/queues/'' @ encodeURIComponent t @ ''/pause'') post"

definition resumeQueue :: "string \<Rightarrow> string \<Rightarrow> fetch_request" where
  "resumeQueue base t =
     request base (''/ojs/v1/admin/queues/'' @ encodeURIComponent t @ ''/resume'') post"

definition purgeQueue :: "string \<Rightarrow> string \<Rightarrow> json option \<Rightarrow> json option \<Rightarrow> fetch_request" where
  "purgeQueue base t a i =
     request base (''/ojs/v1/admin/queues/'' @ encodeURIComponent t @ ''/jobs'')
       (Some \<lparr>ri_method = ''DELETE'', ri_body = Some (JObj
          (member ''states'' a @ member ''older_than'' i @ [(''confirm'', JBool True)]))\<rparr>)"

definition jobs :: "string \<Rightarrow> (string \<times> param option) list \<Rightarrow> fetch_request" where
  "jobs base t = request base (''/ojs/v1/admin/jobs?'' @ params_string (entries_params t)) None"

definition job_request :: "string \<Rightarrow> string \<Rightarrow> fetch_request" where
  "job_request base t = request base (''/ojs/v1/admin/jobs/'' @ encodeURIComponent t) None"

definition retryJob :: "string \<Rightarrow> string \<Rightarrow> fetch_request" where
  "retryJob base t = request base (''/ojs/v1/admin/jobs/'' @ encodeURIComponent t @ ''/retry'') post"

definition cancelJob :: "string \<Rightarrow> string \<Rightarrow> fetch_request" where
  "cancelJob base t = request base (''/ojs/v1/admin/jobs/'' @ encodeURIComponent t @ ''/cancel'') post"

definition bulkRetry :: "string \<Rightarrow> json \<Rightarrow> fetch_request" where
  "bulkRetry base t = request base ''/ojs/v1/admin/jobs/bulk/retry''
     (post_json (JObj [(''filter'', t), (''confirm'', JBool True)]))"

definition bulkCancel :: "string \<Rightarrow> json \<Rightarrow> fetch_request" where
  "bulkCancel base t = request base ''/ojs/v1/admin/jobs/bulk/cancel''
     (post_json (JObj [(''filter'', t), (''confirm'', JBool True)]))"

definition workers :: "string \<Rightarrow> int \<Rightarrow> int \<Rightarrow> fetch_request" where
  "workers base t a = request base
     (''/ojs/v1/admin/workers?page='' @ int_string t @ ''&per_page='' @ int_string a) None"

definition quietWorker :: "string \<Rightarrow> string \<Rightarrow> fetch_request" where
  "quietWorker base t =
     request base (''/ojs/v1/admin/workers/'' @ encodeURIComponent t @ ''/quiet'') post"

definition deregisterWorker :: "string \<Rightarrow> string \<Rightarrow> fetch_request" where
  "deregisterWorker base t =
     request base (''/ojs/v1/admin/workers/'' @ encodeURIComponent t) delete"

definition deadLetter :: "string \<Rightarrow> (string \<times> param option) list \<Rightarrow> fetch_request" where
  "deadLetter base t =
     request base (''/ojs/v1/admin/dead-letter?'' @ params_string (entries_params t)) None"

definition deadLetterStats :: "string \<Rightarrow> fetch_request" where
  "deadLetterStats base = request base ''/ojs/v1/admin/dead-letter/stats'' None"

definition retryDeadLetter :: "string \<Rightarrow> string \<Rightarrow> fetch_request" where
  "retryDeadLetter base t =
     request base (''/ojs/v1/admin/dead-letter/'' @ encodeURIComponent t @ ''/retry'') post"

definition deleteDeadLetter :: "string \<Rightarrow> string \<Rightarrow> fetch_request" where
  "deleteDeadLetter base t =
     request base (''/ojs/v1/admin/dead-letter/'' @ encodeURIComponent t) delete"

definition bulkRetryDeadLetter :: "string \<Rightarrow> json \<Rightarrow> fetch_request" where
  "bulkRetryDeadLetter base t = request base ''/ojs/v1/admin/dead-letter/retry''
     (post_json (JObj [(''filter'', t), (''confirm'', JBool True)]))"

definition health :: "string \<Rightarrow> fetch_request" where
  "health base = request base ''/ojs/v1/health'' None"

section \<open>The response\<close>

text \<open>\<open>rs_json\<close> is what \<open>json()\<close> resolves to, \<open>None\<close> when the body does not parse.\<close>

record response =
  rs_ok :: bool
  rs_status :: nat
  rs_status_text :: string
  rs_json :: "json option"

text \<open>\<open>jP\<close>, named \<open>ApiRequestError\<close>; a rejected \<open>json()\<close> is the other way to fail.\<close>

datatype request_error =
  ApiRequestError nat json "json option"
| BadJson

text \<open>\<open>h == null ? void 0 : h.k\<close>: \<open>undefined\<close> for \<open>null\<close>, for what has no property \<open>k\<close>, and for \<open>undefined\<close>.\<close>

definition get_prop :: "string \<Rightarrow> json option \<Rightarrow> json option" where
  "get_prop k h = (case h of Some (JObj ms) \<Rightarrow> map_of (rev ms) k | _ \<Rightarrow> None)"

definition nullish :: "json option \<Rightarrow> json \<Rightarrow> json" where
  "nullish v d = (case v of None \<Rightarrow> d | Some JNull \<Rightarrow> d | Some x \<Rightarrow> x)"

text \<open>The rest of \<open>request\<close> once \<open>fetch\<close> resolved; a 204 gives \<open>undefined\<close>.\<close>

definition finish_request :: "response \<Rightarrow> request_error + json option" where
  "finish_request i =
     (if \<not> rs_ok i then
        (let h = (case rs_json i of None \<Rightarrow> JObj [] | Some v \<Rightarrow> v);
             e = get_prop ''error'' (Some h)
         in Inl (ApiRequestError (rs_status i)
              (nullish (get_prop ''message'' e) (JStr (rs_status_text i))) (get_prop ''code'' e)))
      else if rs_status i \<noteq> 204 then
        (case rs_json i of None \<Rightarrow> Inl BadJson | Some v \<Rightarrow> Inr (Some v))
      else Inr None)"

section \<open>The routes of the server\<close>

text \<open>
  \<open>NewRouterWithConfig\<close>: the method and pattern of each \<open>r.Get\<close>, \<open>r.Post\<close>, \<open>r.Put\<close> and \<open>r.Delete\<close>, without
  the real-time ones. A pattern segment in braces matches any segment that is not empty, as the
  router's documentation has it.
\<close>

definition server_routes :: "(string \<times> string) list" where
  "server_routes = [
     (''GET'', ''/ojs/manifest''), (''GET'', ''/ojs/v1/health''), (''GET'', ''/ojs/v1/health/detail''),
     (''GET'', ''/healthz''), (''GET'', ''/readyz''), (''GET'', ''/metrics''),
     (''POST'', ''/ojs/v1/jobs''), (''GET'', ''/ojs/v1/jobs/{id}''), (''DELETE'', ''/ojs/v1/jobs/{id}''),
     (''POST'', ''/ojs/v1/jobs/batch''),
     (''POST'', ''/ojs/v1/workers/fetch''), (''POST'', ''/ojs/v1/workers/ack''),
     (''POST'', ''/ojs/v1/workers/nack''), (''POST'', ''/ojs/v1/workers/heartbeat''),
     (''GET'', ''/ojs/v1/queues''), (''GET'', ''/ojs/v1/queues/{name}/stats''),
     (''POST'', ''/ojs/v1/queues/{name}/pause''), (''POST'', ''/ojs/v1/queues/{name}/resume''),
     (''GET'', ''/ojs/v1/dead-letter''), (''POST'', ''/ojs/v1/dead-letter/{id}/retry''),
     (''DELETE'', ''/ojs/v1/dead-letter/{id}''),
     (''GET'', ''/ojs/v1/cron''), (''POST'', ''/ojs/v1/cron''), (''DELETE'', ''/ojs/v1/cron/{name}''),
     (''POST'', ''/ojs/v1/workflows''), (''GET'', ''/ojs/v1/workflows/{id}''),
     (''DELETE'', ''/ojs/v1/workflows/{id}''),
     (''POST'', ''/ojs/v1/schemas''), (''GET'', ''/ojs/v1/schemas/{jobType}''),
     (''GET'', ''/ojs/v1/schemas/{jobType}/versions''),
     (''GET'', ''/ojs/v1/schemas/{jobType}/versions/{version}''),
     (''POST'', ''/ojs/v1/schemas/{jobType}/validate''),
     (''PUT'', ''/ojs/v1/schemas/{jobType}/compatibility''),
     (''DELETE'', ''/ojs/v1/schemas/{jobType}''),
     (''DELETE'', ''/ojs/v1/schemas/{jobType}/versions/{version}''),
     (''GET'', ''/ojs/v1/admin/stats''), (''GET'', ''/ojs/v1/admin/queues''),
     (''GET'', ''/ojs/v1/admin/queues/{name}''), (''POST'', ''/ojs/v1/admin/queues/{name}/pause''),
     (''POST'', ''/ojs/v1/admin/queues/{name}/resume''),
     (''GET'', ''/ojs/v1/admin/jobs''), (''GET'', ''/ojs/v1/admin/jobs/{id}''),
     (''POST'', ''/ojs/v1/admin/jobs/{id}/retry''), (''POST'', ''/ojs/v1/admin/jobs/{id}/cancel''),
     (''POST'', ''/ojs/v1/admin/jobs/bulk/retry''),
     (''GET'', ''/ojs/v1/admin/workers''), (''POST'', ''/ojs/v1/admin/workers/{id}/quiet''),
     (''GET'', ''/ojs/v1/admin/dead-letter''), (''GET'', ''/ojs/v1/admin/dead-letter/stats''),
     (''POST'', ''/ojs/v1/admin/dead-letter/{id}/retry''),
     (''DELETE'', ''/ojs/v1/admin/dead-letter/{id}''),
     (''POST'', ''/ojs/v1/admin/dead-letter/retry'')]"

fun match_segments :: "string list \<Rightarrow> string list \<Rightarrow> string list option" where
  "match_segments [] [] = Some []"
| "match_segments (p # ps) (s # ss) =
     (if p \<noteq> [] \<and> hd p = CHR ''{'' then
        (if s = [] then None else map_option ((#) s) (match_segments ps ss))
      else if p = s then match_segments ps ss else None)"
| "match_segments _ _ = None"

definition url_path :: "string \<Rightarrow> string" where
  "url_path u = takeWhile ((\<noteq>) CHR ''?'') u"

text \<open>The routes a request matches, each with the values of its parameters.\<close>

fun match_routes :: "string \<Rightarrow> string list \<Rightarrow> (string \<times> string) list \<Rightarrow> (string \<times> string list) list" where
  "match_routes m segs [] = []"
| "match_routes m segs ((m', pat) # rs) =
     (if m' \<noteq> m then match_routes m segs rs
      else (case match_segments (js_split CHR ''/'' pat) segs of
          None \<Rightarrow> match_routes m segs rs
        | Some args \<Rightarrow> (pat, args) # match_routes m segs rs))"

definition routes_of :: "fetch_request \<Rightarrow> (string \<times> string list) list" where
  "routes_of rq =
     match_routes (rq_method rq) (js_split CHR ''/'' (url_path (rq_url rq))) server_routes"

section \<open>One call per method\<close>

datatype api_call =
  CManifest | CStats | CStatsHistory string string string | CQueues int int | CQueue string
| CPauseQueue string | CResumeQueue string | CPurgeQueue string "json option" "json option"
| CJobs "(string \<times> param option) list" | CJob string | CRetryJob string | CCancelJob string
| CBulkRetry json | CBulkCancel json | CWorkers int int | CQuietWorker string
| CDeregisterWorker string | CDeadLetter "(string \<times> param option) list" | CDeadLetterStats
| CRetryDeadLetter string | CDeleteDeadLetter string | CBulkRetryDeadLetter json | CHealth

fun call_request :: "string \<Rightarrow> api_call \<Rightarrow> fetch_request" where
  "call_request b CManifest = manifest b"
| "call_request b CStats = stats b"
| "call_request b (CStatsHistory t a i) = statsHistory b t a i"
| "call_request b (CQueues t a) = queues b t a"
| "call_request b (CQueue t) = queue b t"
| "call_request b (CPauseQueue t) = pauseQueue b t"
| "call_request b (CResumeQueue t) = resumeQueue b t"
| "call_request b (CPurgeQueue t a i) = purgeQueue b t a i"
| "call_request b (CJobs t) = jobs b t"
| "call_request b (CJob t) = job_request b t"
| "call_request b (CRetryJob t) = retryJob b t"
| "call_request b (CCancelJob t) = cancelJob b t"
| "call_request b (CBulkRetry t) = bulkRetry b t"
| "call_request b (CBulkCancel t) = bulkCancel b t"
| "call_request b (CWorkers t a) = workers b t a"
| "call_request b (CQuietWorker t) = quietWorker b t"
| "call_request b (CDeregisterWorker t) = deregisterWorker b t"
| "call_request b (CDeadLetter t) = deadLetter b t"
| "call_request b CDeadLetterStats = deadLetterStats b"
| "call_request b (CRetryDeadLetter t) = retryDeadLetter b t"
| "call_request b (CDeleteDeadLetter t) = deleteDeadLetter b t"
| "call_request b (CBulkRetryDeadLetter t) = bulkRetryDeadLetter b t"
| "call_request b CHealth = health b"



section \<open>Splitting the paths\<close>

lemma url_path_simps [simp]:
  "url_path [] = []" "url_path (c # u) = (if c = CHR ''?'' then [] else c # url_path u)"
  by (simp_all add: url_path_def)

lemma url_path_append: "CHR ''?'' \<notin> set s \<Longrightarrow> url_path (s @ u) = s @ url_path u"
  by (induction s) auto

lemma url_path_encoded [simp]:
  "url_path (encodeURIComponent t) = encodeURIComponent t"
  "url_path (encodeURIComponent t @ u) = encodeURIComponent t @ url_path u"
  using url_path_append [of "encodeURIComponent t" "[]"] url_path_append [of "encodeURIComponent t" u]
  by (simp_all add: encode_no_delimiter)

lemma split_encoded [simp]: "js_split CHR ''/'' (encodeURIComponent t) = [encodeURIComponent t]"
  by (simp add: js_split_no_sep encode_no_delimiter)

lemma split_encoded_more [simp]:
  "js_split CHR ''/'' (encodeURIComponent t @ CHR ''/'' # s) = encodeURIComponent t # js_split CHR ''/'' s"
  by (simp add: js_split_segment encode_no_delimiter)

lemmas client_defs =
  request_def post_def post_json_def delete_def manifest_def stats_def statsHistory_def queues_def
  queue_def pauseQueue_def resumeQueue_def purgeQueue_def jobs_def job_request_def retryJob_def
  cancelJob_def bulkRetry_def bulkCancel_def workers_def quietWorker_def deregisterWorker_def
  deadLetter_def deadLetterStats_def retryDeadLetter_def deleteDeadLetter_def
  bulkRetryDeadLetter_def health_def

section \<open>The routes a request is compared with\<close>

text \<open>Only routes with the request's method and as many segments can match; they are split once.\<close>

definition candidates :: "string \<Rightarrow> nat \<Rightarrow> (string \<times> string) list \<Rightarrow> (string \<times> string list) list" where
  "candidates m n rs =
     filter (\<lambda>(p, ps). length ps = n) (map (\<lambda>(m', p). (p, js_split CHR ''/'' p)) (filter (\<lambda>(m', p). m' = m) rs))"

fun match_candidates :: "string list \<Rightarrow> (string \<times> string list) list \<Rightarrow> (string \<times> string list) list" where
  "match_candidates segs [] = []"
| "match_candidates segs ((pat, ps) # rs) =
     (case match_segments ps segs of
        None \<Rightarrow> match_candidates segs rs
      | Some args \<Rightarrow> (pat, args) # match_candidates segs rs)"

lemma match_segments_length: "match_segments ps segs = Some args \<Longrightarrow> length ps = length segs"
  by (induction ps segs arbitrary: args rule: match_segments.induct) (auto split: if_splits)

lemma match_routes_candidates:
  "match_routes m segs rs = match_candidates segs (candidates m (length segs) rs)"
  by (induction m segs rs rule: match_routes.induct)
    (auto simp: candidates_def dest: match_segments_length split: option.splits)

lemma candidates_of_server:
  "candidates ''DELETE'' (Suc (Suc (Suc (Suc (Suc 0))))) server_routes = [
     (''/ojs/v1/jobs/{id}'', ['''', ''ojs'', ''v1'', ''jobs'', ''{id}'']),
     (''/ojs/v1/dead-letter/{id}'', ['''', ''ojs'', ''v1'', ''dead-letter'', ''{id}'']),
     (''/ojs/v1/cron/{name}'', ['''', ''ojs'', ''v1'', ''cron'', ''{name}'']),
     (''/ojs/v1/workflows/{id}'', ['''', ''ojs'', ''v1'', ''workflows'', ''{id}'']),
     (''/ojs/v1/schemas/{jobType}'', ['''', ''ojs'', ''v1'', ''schemas'', ''{jobType}''])]"
  "candidates ''DELETE'' (Suc (Suc (Suc (Suc (Suc (Suc 0)))))) server_routes = [
     (''/ojs/v1/admin/dead-letter/{id}'', ['''', ''ojs'', ''v1'', ''admin'', ''dead-letter'', ''{id}''])]"
  "candidates ''DELETE'' (Suc (Suc (Suc (Suc (Suc (Suc (Suc 0))))))) server_routes = [
     (''/ojs/v1/schemas/{jobType}/versions/{version}'', ['''', ''ojs'', ''v1'', ''schemas'', ''{jobType}'', ''versions'', ''{version}''])]"
  "candidates ''GET'' (Suc (Suc 0)) server_routes = [
     (''/healthz'', ['''', ''healthz'']),
     (''/readyz'', ['''', ''readyz'']),
     (''/metrics'', ['''', ''metrics''])]"
  "candidates ''GET'' (Suc (Suc (Suc 0))) server_routes = [
     (''/ojs/manifest'', ['''', ''ojs'', ''manifest''])]"
  "candidates ''GET'' (Suc (Suc (Suc (Suc 0)))) server_routes = [
     (''/ojs/v1/health'', ['''', ''ojs'', ''v1'', ''health'']),
     (''/ojs/v1/queues'', ['''', ''ojs'', ''v1'', ''queues'']),
     (''/ojs/v1/dead-letter'', ['''', ''ojs'', ''v1'', ''dead-letter'']),
     (''/ojs/v1/cron'', ['''', ''ojs'', ''v1'', ''cron''])]"
  "candidates ''GET'' (Suc (Suc (Suc (Suc (Suc 0))))) server_routes = [
     (''/ojs/v1/health/detail'', ['''', ''ojs'', ''v1'', ''health'', ''detail'']),
     (''/ojs/v1/jobs/{id}'', ['''', ''ojs'', ''v1'', ''jobs'', ''{id}'']),
     (''/ojs/v1/workflows/{id}'', ['''', ''ojs'', ''v1'', ''workflows'', ''{id}'']),
     (''/ojs/v1/schemas/{jobType}'', ['''', ''ojs'', ''v1'', ''schemas'', ''{jobType}'']),
     (''/ojs/v1/admin/stats'', ['''', ''ojs'', ''v1'', ''admin'', ''stats'']),
     (''/ojs/v1/admin/queues'', ['''', ''ojs'', ''v1'', ''admin'', ''queues'']),
     (''/ojs/v1/admin/jobs'', ['''', ''ojs'', ''v1'', ''admin'', ''jobs'']),
     (''/ojs/v1/admin/workers'', ['''', ''ojs'', ''v1'', ''admin'', ''workers'']),
     (''/ojs/v1/admin/dead-letter'', ['''', ''ojs'', ''v1'', ''admin'', ''dead-letter''])]"
  "candidates ''GET'' (Suc (Suc (Suc (Suc (Suc (Suc 0)))))) server_routes = [
     (''/ojs/v1/queues/{name}/stats'', ['''', ''ojs'', ''v1'', ''queues'', ''{name}'', ''stats'']),
     (''/ojs/v1/schemas/{jobType}/versions'', ['''', ''ojs'', ''v1'', ''schemas'', ''{jobType}'', ''versions'']),
     (''/ojs/v1/admin/queues/{name}'', ['''', ''ojs'', ''v1'', ''admin'', ''queues'', ''{name}'']),
     (''/ojs/v1/admin/jobs/{id}'', ['''', ''ojs'', ''v1'', ''admin'', ''jobs'', ''{id}'']),
     (''/ojs/v1/admin/dead-letter/stats'', ['''', ''ojs'', ''v1'', ''admin'', ''dead-letter'', ''stats''])]"
  "candidates ''GET'' (Suc (Suc (Suc (Suc (Suc (Suc (Suc 0))))))) server_routes = [
     (''/ojs/v1/schemas/{jobType}/versions/{version}'', ['''', ''ojs'', ''v1'', ''schemas'', ''{jobType}'', ''versions'', ''{version}''])]"
  "candidates ''POST'' (Suc (Suc (Suc (Suc 0)))) server_routes = [
     (''/ojs/v1/jobs'', ['''', ''ojs'', ''v1'', ''jobs'']),
     (''/ojs/v1/cron'', ['''', ''ojs'', ''v1'', ''cron'']),
     (''/ojs/v1/workflows'', ['''', ''ojs'', ''v1'', ''workflows'']),
     (''/ojs/v1/schemas'', ['''', ''ojs'', ''v1'', ''schemas''])]"
  "candidates ''POST'' (Suc (Suc (Suc (Suc (Suc 0))))) server_routes = [
     (''/ojs/v1/jobs/batch'', ['''', ''ojs'', ''v1'', ''jobs'', ''batch'']),
     (''/ojs/v1/workers/fetch'', ['''', ''ojs'', ''v1'', ''workers'', ''fetch'']),
     (''/ojs/v1/workers/ack'', ['''', ''ojs'', ''v1'', ''workers'', ''ack'']),
     (''/ojs/v1/workers/nack'', ['''', ''ojs'', ''v1'', ''workers'', ''nack'']),
     (''/ojs/v1/workers/heartbeat'', ['''', ''ojs'', ''v1'', ''workers'', ''heartbeat''])]"
  "candidates ''POST'' (Suc (Suc (Suc (Suc (Suc (Suc 0)))))) server_routes = [
     (''/ojs/v1/queues/{name}/pause'', ['''', ''ojs'', ''v1'', ''queues'', ''{name}'', ''pause'']),
     (''/ojs/v1/queues/{name}/resume'', ['''', ''ojs'', ''v1'', ''queues'', ''{name}'', ''resume'']),
     (''/ojs/v1/dead-letter/{id}/retry'', ['''', ''ojs'', ''v1'', ''dead-letter'', ''{id}'', ''retry'']),
     (''/ojs/v1/schemas/{jobType}/validate'', ['''', ''ojs'', ''v1'', ''schemas'', ''{jobType}'', ''validate'']),
     (''/ojs/v1/admin/dead-letter/retry'', ['''', ''ojs'', ''v1'', ''admin'', ''dead-letter'', ''retry''])]"
  "candidates ''POST'' (Suc (Suc (Suc (Suc (Suc (Suc (Suc 0))))))) server_routes = [
     (''/ojs/v1/admin/queues/{name}/pause'', ['''', ''ojs'', ''v1'', ''admin'', ''queues'', ''{name}'', ''pause'']),
     (''/ojs/v1/admin/queues/{name}/resume'', ['''', ''ojs'', ''v1'', ''admin'', ''queues'', ''{name}'', ''resume'']),
     (''/ojs/v1/admin/jobs/{id}/retry'', ['''', ''ojs'', ''v1'', ''admin'', ''jobs'', ''{id}'', ''retry'']),
     (''/ojs/v1/admin/jobs/{id}/cancel'', ['''', ''ojs'', ''v1'', ''admin'', ''jobs'', ''{id}'', ''cancel'']),
     (''/ojs/v1/admin/jobs/bulk/retry'', ['''', ''ojs'', ''v1'', ''admin'', ''jobs'', ''bulk'', ''retry'']),
     (''/ojs/v1/admin/workers/{id}/quiet'', ['''', ''ojs'', ''v1'', ''admin'', ''workers'', ''{id}'', ''quiet'']),
     (''/ojs/v1/admin/dead-letter/{id}/retry'', ['''', ''ojs'', ''v1'', ''admin'', ''dead-letter'', ''{id}'', ''retry''])]"
  by code_simp+

section \<open>Every call reaches its handler\<close>



lemma not_routed:
  "routes_of (statsHistory '''' t a i) = []"
  "routes_of (purgeQueue '''' t s o') = []"
  "routes_of (deregisterWorker '''' t) = []"
  "routes_of (bulkCancel '''' v) = [(''/ojs/v1/admin/jobs/{id}/cancel'', [''bulk''])]"
  by (simp_all add: routes_of_def client_defs match_routes_candidates candidates_of_server Let_def)


text \<open>
  C39: The requests of \<open>statsHistory\<close>, \<open>purgeQueue\<close> and \<open>deregisterWorker\<close> match no route of the server,
  and the request of \<open>bulkCancel\<close> matches only the cancellation of the single job with the ID \<open>bulk\<close>.
\<close>

theorem calls_without_route:
  "routes_of (call_request '''' (CStatsHistory t a i)) = [] \<and>
   routes_of (call_request '''' (CPurgeQueue q s old)) = [] \<and>
   routes_of (call_request '''' (CDeregisterWorker w)) = [] \<and>
   routes_of (call_request '''' (CBulkCancel v)) = [(''/ojs/v1/admin/jobs/{id}/cancel'', [''bulk''])]"
  by (simp add: not_routed)


end
