(* ===== verification/Admin_Format.thy ===== *)
theory Admin_Format
  imports JS_Prelude
begin

text \<open>
  The formatting helpers of the admin UI: \<open>rl\<close> (counts), \<open>kb\<close> (ages), \<open>pM\<close> (rates), \<open>NP\<close> (conformance
  levels), \<open>DP\<close> (capabilities) and the colours \<open>HP\<close> of a job state. What depends on the browser's
  locale and clock is the record \<open>browser\<close>.
\<close>

record browser =
  locale_number :: "nat \<Rightarrow> string"
  locale_time :: "string \<Rightarrow> string"
  locale_date :: "string \<Rightarrow> string"
  date_ms :: "string \<Rightarrow> int option"
  now_ms :: int

section \<open>Counts and rates\<close>

definition rl :: "browser \<Rightarrow> nat \<Rightarrow> string" where
  "rl B e = (if 1000000 \<le> e then toFixed1 (round53 e 1000000) @ ''M''
     else if 1000 \<le> e then toFixed1 (round53 e 1000) @ ''K''
     else locale_number B e)"

definition pM :: "dbl \<Rightarrow> string" where
  "pM e = (if dbl_less_nat e 1 then toFixed1 (dbl_mult e 60) @ ''/h''
     else if nat_less_dbl 1000 e then toFixed0 (dbl_div e 60) @ ''/s''
     else toFixed1 e @ ''/m'')"

section \<open>Ages\<close>

text \<open>
  The difference of the two instants in whole milliseconds, \<open>None\<close> for NaN. The quotients \<open>t / 60\<close> etc.
  round in double precision, but never across the integer that \<open>floor\<close> cuts at.
\<close>

definition kb :: "browser \<Rightarrow> string \<Rightarrow> string" where
  "kb B e =
     (case date_ms B e of
        None \<Rightarrow> ''NaNd ago''
      | Some d \<Rightarrow>
          (let t = now_ms B - d in
           if t < 5000 then ''just now''
           else if t < 60000 then int_string (t div 1000) @ ''s ago''
           else if t < 3600000 then int_string (t div 60000) @ ''m ago''
           else if t < 86400000 then int_string (t div 3600000) @ ''h ago''
           else int_string (t div 86400000) @ ''d ago''))"

section \<open>The manifest\<close>

record implementation =
  im_name :: string
  im_version :: string
  im_language :: string

record extension =
  ex_name :: string
  ex_version :: string
  ex_uri :: string

datatype extensions =
  NoExtensions
| ExtensionList "string list"
| ExtensionTiers "extension list option" "extension list option"

record manifest_info =
  mf_implementation :: implementation
  mf_backend :: string
  mf_conformance_level :: int
  mf_conformance_tier :: string
  mf_protocols :: "string list"
  mf_capabilities :: "(string \<times> bool) list option"
  mf_extensions :: extensions
  mf_json :: json

definition DP :: "manifest_info \<Rightarrow> string \<Rightarrow> bool" where
  "DP e t = (case mf_capabilities e of None \<Rightarrow> False | Some cs \<Rightarrow> map_of cs t = Some True)"

definition NP :: "int \<Rightarrow> string" where
  "NP e = ''Level '' @ int_string e @ '': '' @
     (let names = [''Core'', ''Reliable'', ''Scheduled'', ''Orchestration'', ''Advanced''] in
      if 0 \<le> e \<and> nat e < length names then names ! nat e else ''Unknown'')"

section \<open>Colours of a job state\<close>

definition HP :: "string \<rightharpoonup> string" where
  "HP = map_of [
     (''available'', ''bg-blue-100 text-blue-800 dark:bg-blue-900 dark:text-blue-200''),
     (''scheduled'', ''bg-purple-100 text-purple-800 dark:bg-purple-900 dark:text-purple-200''),
     (''pending'', ''bg-gray-100 text-gray-800 dark:bg-gray-800 dark:text-gray-200''),
     (''active'', ''bg-amber-100 text-amber-800 dark:bg-amber-900 dark:text-amber-200''),
     (''completed'', ''bg-green-100 text-green-800 dark:bg-green-900 dark:text-green-200''),
     (''retryable'', ''bg-orange-100 text-orange-800 dark:bg-orange-900 dark:text-orange-200''),
     (''cancelled'', ''bg-gray-100 text-gray-600 dark:bg-gray-800 dark:text-gray-400''),
     (''discarded'', ''bg-red-100 text-red-800 dark:bg-red-900 dark:text-red-200'')]"

text \<open>The worker badge of the workers table.\<close>

definition worker_badge :: "string \<Rightarrow> string" where
  "worker_badge y =
     (if y = ''running'' then ''bg-green-100 text-green-800 dark:bg-green-900 dark:text-green-200''
      else if y = ''quiet'' then ''bg-yellow-100 text-yellow-800 dark:bg-yellow-900 dark:text-yellow-200''
      else if y = ''stale'' then ''bg-red-100 text-red-800 dark:bg-red-900 dark:text-red-200''
      else ''bg-gray-100 text-gray-700'')"

section \<open>How far the abbreviated counts are off\<close>

lemma round53_close:
  assumes "0 < q" "round53 p q = (m, s)"
  shows "2 * p * 2 ^ s \<le> 2 * q * m + q" and "2 * q * m \<le> 2 * p * 2 ^ s + q"
  using assms round_div_close [of q "p * 2 ^ s"] by (auto simp: round53_def Let_def algebra_simps)

lemma round53_scale:
  assumes "0 < p" "0 < q" "round53 p q = (m, s)"
  shows "2 ^ 52 * q \<le> p * 2 ^ s"
  using assms scale53_bounds [of p q 0] by (auto simp: round53_def Let_def)

text \<open>
  Dividing by \<open>10 * u\<close> and printing one decimal is off by at most half of \<open>u\<close>: the rounding to a
  double cannot move the quotient of a number below \<open>2 ^ 40\<close> far enough to change that.
\<close>

lemma fixed1_close:
  assumes "0 < u" "0 < p" "p < 2 ^ 40"
  shows "\<bar>2 * int u * int (fixed_digits 1 (round53 p (10 * u))) - 2 * int p\<bar> \<le> int u"
proof -
  obtain m s where r: "round53 p (10 * u) = (m, s)" by fastforce
  define S P U M where "S = (2::int) ^ s" and "P = int p" and "U = int u" and "M = int m"
  define N where "N = int (fixed_digits 1 (m, s))"
  have pos: "0 < S" "0 < U" "P < 2 ^ 40" using assms by (simp_all add: S_def U_def P_def)
  have u: "0 < 10 * u" using assms(1) by simp
  have c1: "2 * (P * S) \<le> 20 * (U * M) + 10 * U"
    using of_nat_mono [OF round53_close(1) [OF u r], where 'a = int]
    by (simp add: S_def P_def U_def M_def algebra_simps)
  have c2: "20 * (U * M) \<le> 2 * (P * S) + 10 * U"
    using of_nat_mono [OF round53_close(2) [OF u r], where 'a = int]
    by (simp add: S_def P_def U_def M_def algebra_simps)
  have sc: "2 ^ 52 * (10 * U) \<le> P * S"
    using of_nat_mono [OF round53_scale [OF assms(2) u r], where 'a = int]
    by (simp add: S_def P_def U_def)
  have N: "N = (20 * M + S) div (2 * S)"
    by (simp add: N_def M_def S_def fixed_digits_def zdiv_int mult.commute)
  define R where "R = (20 * M + S) mod (2 * S)"
  have "20 * M + S = 2 * (S * N) + R" "0 \<le> R" "R < 2 * S"
    using pos(1) unfolding N R_def by (simp_all add: mult.assoc [symmetric])
  then have n: "2 * (S * N) \<le> 20 * M + S" "20 * M \<le> 2 * (S * N) + S" by linarith+
  have e1: "2 * (U * (S * N)) \<le> 20 * (U * M) + U * S"
    using mult_left_mono [OF n(1), of U] pos(2) by (simp add: algebra_simps)
  have e2: "20 * (U * M) \<le> 2 * (U * (S * N)) + U * S"
    using mult_left_mono [OF n(2), of U] pos(2) by (simp add: algebra_simps)
  have "10 * U < S"
  proof (rule ccontr)
    assume "\<not> 10 * U < S"
    then have "P * S \<le> P * (10 * U)" using P_def by (simp add: mult_left_mono)
    also have "\<dots> \<le> 2 ^ 40 * (10 * U)" using pos by (simp add: mult_right_mono)
    finally show False using sc pos(2) by simp
  qed
  define d where "d = \<bar>2 * U * N - 2 * P\<bar>"
  have "(2 * U * N - 2 * P) * S = 2 * (U * (S * N)) - 2 * (P * S)"
    by (simp add: algebra_simps)
  then have "d * S = \<bar>2 * (U * (S * N)) - 2 * (P * S)\<bar>"
    using pos(1) by (metis d_def abs_mult abs_of_pos)
  also have "\<dots> \<le> U * S + 10 * U" using c1 c2 e1 e2 by linarith
  also have "\<dots> < (U + 1) * S" using \<open>10 * U < S\<close> by (simp add: algebra_simps)
  finally have "d < U + 1" using pos(1) by simp
  then show ?thesis by (simp add: d_def U_def N_def P_def r)
qed


text \<open>A count from 1000 up (and below \<open>2 ^ 40\<close>) is shown as a decimal with one digit and the unit K below
  a million, M from there: the number shown times the unit is at most half a last digit away from the count.\<close>

lemma rl_accurate:
  assumes "1000 \<le> e" "e < 2 ^ 40"
  defines "unit \<equiv> (if e < 1000000 then 100 else 100000)"
  shows "\<exists>n. rl B e = decimal1 n @ (if e < 1000000 then ''K'' else ''M'') \<and>
    \<bar>2 * unit * int n - 2 * int e\<bar> \<le> unit"
proof (cases "e < 1000000")
  case True
  then show ?thesis
    using assms(1) fixed1_close [of 100 e]
    by (auto simp: unit_def rl_def toFixed1_def)
next
  case False
  then show ?thesis
    using assms(2) fixed1_close [of 100000 e]
    by (auto simp: unit_def rl_def toFixed1_def)
qed

text \<open>Just below a million the unit does not change in time: every count from 999950 to 999999 is shown
  as \<open>1000.0K\<close>, although a million is shown as \<open>1.0M\<close>.\<close>

lemma rl_thousand_thousands:
  assumes "999950 \<le> e" "e < 1000000"
  shows "rl B e = ''1000.0K'' \<and> rl B 1000000 = ''1.0M''"
proof -
  have digits: "fixed_digits 1 (round53 e 1000) = 10000"
  proof (cases "e = 999950")
    case True
    then show ?thesis
      by (simp add: round53_def scale53.simps round_div_def fixed_digits_def Let_def)
  next
    case False
    then show ?thesis using assms fixed1_close [of 100 e] by simp
  qed
  have "fixed_digits 1 (round53 1000000 1000000) = 10"
    by (simp add: round53_def scale53.simps round_div_def fixed_digits_def Let_def)
  with digits show ?thesis
    using assms by (simp add: rl_def toFixed1_def decimal1_def nat_string.simps digit_char_def char_of_def
      bit_Suc_0_iff)
qed

end
