(* ===== verification/Admin_Layout.thy ===== *)
theory Admin_Layout
  imports Admin_Client Admin_Format
begin

text \<open>
  The frame of the admin UI and what its pages share: the data the API returns, the events and
  effects of the pages, the polling hook \<open>es\<close>, the sidebar \<open>UP\<close>, the header \<open>qP\<close>, the layout \<open>BP\<close>, the
  cards \<open>Mm\<close>, \<open>LP\<close>, \<open>$P\<close> and the state badge \<open>M_\<close>. A component is the function from its props and
  hook state to the element tree it returns; the children that are components of the bundle's own
  UI are rendered in place. React keys and class names that do not depend on the data are left out.
\<close>

section \<open>The data\<close>

record counts =
  ct_available :: nat
  ct_active :: nat
  ct_scheduled :: nat
  ct_retryable :: nat
  ct_completed :: nat
  ct_discarded :: nat

record throughput =
  tp_processed :: dbl
  tp_failed :: dbl

record queue_item =
  q_name :: string
  q_paused :: bool
  q_counts :: counts
  q_throughput :: "throughput option"

record dashboard_stats =
  ds_jobs :: counts
  ds_throughput :: throughput
  ds_queues :: nat
  ds_workers :: nat

record history_point =
  hp_timestamp :: string
  hp_processed :: nat
  hp_failed :: nat

record pagination =
  pg_page :: int
  pg_per_page :: int
  pg_total :: int

record job_item =
  ji_id :: string
  ji_type :: string
  ji_queue :: string
  ji_state :: string
  ji_attempt :: nat
  ji_created_at :: string

record job_metadata =
  md_created_at :: string
  md_enqueued_at :: string
  md_started_at :: string
  md_completed_at :: string
  md_cancelled_at :: string
  md_discarded_at :: string

record job_failure =
  jf_type :: string
  jf_attempt :: nat
  jf_occurred_at :: string
  jf_message :: string
  jf_backtrace :: "string list option"

record job_detail =
  jd_item :: job_item
  jd_max_attempts :: nat
  jd_metadata :: "job_metadata option"
  jd_args :: json
  jd_meta :: "(string \<times> json) list"
  jd_errors :: "job_failure list"
  jd_result :: json
  jd_retry_policy :: "json option"

record worker_item =
  wi_worker_id :: string
  wi_hostname :: "string option"
  wi_worker_state :: string
  wi_queues :: "string list"
  wi_active :: nat
  wi_last_heartbeat_at :: string

record worker_counts =
  wc_running :: nat
  wc_quiet :: nat
  wc_stale :: nat

record dead_stats =
  dl_total :: nat
  dl_by_error_type :: "(string \<times> nat) list option"

section \<open>Events and effects\<close>

text \<open>What a handler does when it fires; a handler that reads the event's target takes it as argument.\<close>

datatype ui_event =
  ToggleDark | RefreshClick | ToggleQueue queue_item | SelectJob string
| ChangeQueueFilter | ChangeStateFilter | SubmitTypeFilter | ChangeTypeText | ClearFilters
| CopyText string | ToggleExpand | CloseDetail | RetryJobClick | CancelJobClick
| GoPage int | DialogConfirm | DialogCancel | StopPropagation
| AskQuiet string | AskRemove string | AskBulkRetry | RetryDead string | DeleteDead string

text \<open>
  The effects of an asynchronous handler in order; \<open>Throw\<close> is the rejection that leaves it. Whether an
  API call is fulfilled is the handler's argument.
\<close>

datatype ui_effect =
  SetBusy "string option" | Api api_call | Refresh | SetConfirm "(string \<times> string) option"
| SetProcessing bool | SetDialog bool | Throw

type_synonym view = "ui_event node"

text \<open>Text beyond ASCII, by its UTF-8 bytes.\<close>

definition utf8 :: "nat list \<Rightarrow> string" where
  "utf8 bs = map char_of bs"

definition ellipsis :: string where "ellipsis = utf8 [0xE2, 0x80, 0xA6]"
definition em_dash :: string where "em_dash = utf8 [0xE2, 0x80, 0x94]"
definition en_dash :: string where "en_dash = utf8 [0xE2, 0x80, 0x93]"

section \<open>The polling hook\<close>

record 'a poll =
  po_data :: "'a option"
  po_loading :: bool
  po_error :: "string option"

definition es_init :: "'a poll" where
  "es_init = \<lparr>po_data = None, po_loading = True, po_error = None\<rparr>"

text \<open>One run of the callback: the fetch resolves to a value or is rejected with a message.\<close>

definition es_run :: "string + 'a \<Rightarrow> 'a poll \<Rightarrow> 'a poll" where
  "es_run outcome p =
     (case outcome of
        Inr v \<Rightarrow> p\<lparr>po_data := Some v, po_error := None, po_loading := False\<rparr>
      | Inl e \<Rightarrow> p\<lparr>po_error := Some e, po_loading := False\<rparr>)"

section \<open>Sidebar, header, layout\<close>

record nav_item =
  nv_to :: string
  nv_label :: string
  nv_icon :: string
  nv_capability :: "string option"

definition zP :: "nav_item list" where
  "zP = [
     \<lparr>nv_to = ''/'', nv_label = ''Dashboard'', nv_icon = utf8 [0xE2, 0x96, 0xA3], nv_capability = None\<rparr>,
     \<lparr>nv_to = ''/queues'', nv_label = ''Queues'', nv_icon = utf8 [0xE2, 0x98, 0xB0], nv_capability = None\<rparr>,
     \<lparr>nv_to = ''/jobs'', nv_label = ''Jobs'', nv_icon = utf8 [0xE2, 0x9A, 0xA1], nv_capability = None\<rparr>,
     \<lparr>nv_to = ''/workers'', nv_label = ''Workers'', nv_icon = utf8 [0xE2, 0x9A, 0x99], nv_capability = None\<rparr>,
     \<lparr>nv_to = ''/dead-letter'', nv_label = ''Dead Letter'', nv_icon = utf8 [0xE2, 0x98, 0xA0],
       nv_capability = Some ''dead_letter''\<rparr>,
     \<lparr>nv_to = ''/settings'', nv_label = ''Settings'', nv_icon = utf8 [0xE2, 0x9A, 0x91], nv_capability = None\<rparr>]"

text \<open>The items shown: one that needs a capability is hidden once the manifest denies it.\<close>

definition nav_visible :: "manifest_info option \<Rightarrow> nav_item \<Rightarrow> bool" where
  "nav_visible m t = (case (nv_capability t, m) of
     (Some c, Some e) \<Rightarrow> DP e c | _ \<Rightarrow> True)"

definition nav_class :: "bool \<Rightarrow> string" where
  "nav_class a = ''flex items-center gap-2 px-4 py-2 text-sm '' @
     (if a then ''bg-blue-50 dark:bg-blue-950 text-blue-700 dark:text-blue-300 font-medium border-r-2 border-blue-600''
      else ''text-gray-600 dark:text-gray-400 hover:bg-gray-50 dark:hover:bg-gray-800'')"

text \<open>A \<open>NavLink\<close> (\<open>e8\<close>) is left to the router: \<open>is_active\<close> says whether its target is active.\<close>

definition UP :: "(string \<Rightarrow> bool \<Rightarrow> bool) \<Rightarrow> manifest_info option \<Rightarrow> view" where
  "UP is_active m = Elem ''aside'' [] [
     Elem ''div'' [] [
       Elem ''h1'' [] [Txt ''OJS Admin''],
       (case m of None \<Rightarrow> Nothing
        | Some e \<Rightarrow> Elem ''p'' [] [Txt (im_name (mf_implementation e)), Txt '' v'',
            Txt (im_version (mf_implementation e))])],
     Elem ''nav'' [] (map (\<lambda>t. if \<not> nav_visible m t then Nothing
       else Elem ''NavLink'' [Attr ''to'' (nv_to t), Flag ''end'' (nv_to t = ''/''),
              Attr ''className'' (nav_class (is_active (nv_to t) (nv_to t = ''/'')))]
            [Elem ''span'' [] [Txt (nv_icon t)], Txt (nv_label t)]) zP),
     (case m of None \<Rightarrow> Nothing
      | Some e \<Rightarrow> Elem ''div'' [] [
          Elem ''div'' [] [Txt ''Backend: '', Txt (mf_backend e)],
          Elem ''div'' [] [Txt ''Level '', Txt (int_string (mf_conformance_level e))]])]"

definition qP :: "bool \<Rightarrow> view" where
  "qP dark = Elem ''header'' [] [
     Elem ''div'' [] [Txt ''Open Job Spec Admin Dashboard''],
     Elem ''button'' [On ''onClick'' ToggleDark, Attr ''aria-label'' ''Toggle dark mode'']
       [Txt (if dark then utf8 [0xE2, 0x98, 0x80, 0xEF, 0xB8, 0x8F]
             else utf8 [0xF0, 0x9F, 0x8C, 0x99])]]"

definition BP :: "(string \<Rightarrow> bool \<Rightarrow> bool) \<Rightarrow> manifest_info option \<Rightarrow> bool \<Rightarrow> view \<Rightarrow> view" where
  "BP is_active m dark outlet = Elem ''div'' [] [
     UP is_active m,
     Elem ''div'' [] [qP dark, Elem ''main'' [] [outlet]]]"

section \<open>Cards and badges\<close>

definition Mm :: "string \<Rightarrow> string \<Rightarrow> string \<Rightarrow> string option \<Rightarrow> view" where
  "Mm label val color sub = Elem ''div'' [] [
     Elem ''div'' [] [Txt label],
     Elem ''div'' [Attr ''className'' (''text-2xl font-bold mt-1 '' @ color)] [Txt val],
     (case sub of None \<Rightarrow> Nothing | Some i \<Rightarrow> whenn (i \<noteq> '''') (Elem ''div'' [] [Txt i]))]"

text \<open>\<open>failed / processed * 100\<close>, each operation rounded.\<close>

definition error_rate :: "throughput \<Rightarrow> string" where
  "error_rate t =
     (if 0 < fst (tp_processed t) then
        (case (tp_failed t, tp_processed t) of ((m, s), (n, u)) \<Rightarrow>
           toFixed1 (dbl_mult (round53 (m * 2 ^ u) (n * 2 ^ s)) 100))
      else ''0.0'')"

definition LP :: "browser \<Rightarrow> counts \<Rightarrow> throughput \<Rightarrow> nat \<Rightarrow> nat \<Rightarrow> view" where
  "LP B e t a i =
     (let c = ct_available e + ct_active e + ct_scheduled e + ct_retryable e; s = error_rate t in
      Elem ''div'' [] [
        Mm ''Active Jobs'' (rl B c) ''text-blue-600'' (Some (rl B (ct_active e) @ '' executing'')),
        Mm ''Completed'' (rl B (ct_completed e)) ''text-green-600'' None,
        Mm ''Failed'' (rl B (ct_discarded e)) ''text-red-600'' None,
        Mm ''Throughput'' (pM (tp_processed t)) ''text-gray-900 dark:text-gray-100''
          (Some (s @ ''% error rate'')),
        Mm ''Queues'' (nat_string a) ''text-purple-600'' None,
        Mm ''Workers'' (nat_string i) ''text-amber-600'' None])"

text \<open>\<open>M_\<close>\<close>

definition state_badge :: "string \<Rightarrow> view" where
  "state_badge e =
     (let t = (case HP e of None \<Rightarrow> ''bg-gray-100 text-gray-700'' | Some c \<Rightarrow> c) in
      Elem ''span'' [Attr ''className''
          (''inline-flex items-center px-2 py-0.5 rounded-full text-xs font-medium '' @ t)]
        [whenn (e = ''active'') (Elem ''span'' [] []), Txt e])"

definition queue_card :: "browser \<Rightarrow> queue_item \<Rightarrow> view" where
  "queue_card B t =
     (let c = q_counts t; a = ct_available c + ct_active c + ct_scheduled c + ct_retryable c in
      Elem ''Link'' [Attr ''to'' (''/queues?name='' @ q_name t)] [
        Elem ''div'' [] [Elem ''span'' [] [Txt (q_name t)], whenn (q_paused t) (state_badge ''cancelled'')],
        Elem ''div'' [] [Txt (rl B a)],
        Elem ''div'' [] [
          Elem ''span'' [] [Txt (nat_string (ct_available c)), Txt '' ready''],
          Elem ''span'' [] [Txt (nat_string (ct_active c)), Txt '' active''],
          whenn (0 < ct_retryable c)
            (Elem ''span'' [] [Txt (nat_string (ct_retryable c)), Txt '' retrying''])],
        (case q_throughput t of None \<Rightarrow> Nothing
         | Some p \<Rightarrow> Elem ''div'' [] [Txt (pM (tp_processed p)), Txt '' processed''])])"

text \<open>\<open>$P\<close>, the queues of the dashboard.\<close>

definition dashboard_queues :: "browser \<Rightarrow> queue_item list \<Rightarrow> view" where
  "dashboard_queues B e =
     (if e = [] then Elem ''p'' [] [Txt ''No queues found.'']
      else Elem ''div'' [] (map (queue_card B) (take 6 e)))"

end
