(* ===== verification/Admin_Pages.thy ===== *)
theory Admin_Pages
  imports Admin_Layout
begin

text \<open>
  The pages of the admin UI: what each renders from its data and state, what its handlers do, and how
  its state changes. The pages are \<open>Cre\<close> (dashboard), \<open>Nre\<close> (queues), \<open>Bre\<close> (jobs), \<open>Hre\<close> (workers),
  \<open>Pre\<close> (dead letters) and \<open>kre\<close> (settings).
\<close>

section \<open>Dashboard\<close>

text \<open>\<open>Rre\<close>: the chart is recharts' to draw; its rows are the history with a local time added.\<close>

definition history_row :: "browser \<Rightarrow> history_point \<Rightarrow> json" where
  "history_row B a = JObj [(''timestamp'', JStr (hp_timestamp a)),
     (''processed'', JInt (int (hp_processed a))), (''failed'', JInt (int (hp_failed a))),
     (''time'', JStr (locale_time B (hp_timestamp a)))]"

definition gradient :: "string \<Rightarrow> string \<Rightarrow> view" where
  "gradient i color = Elem ''linearGradient'' [Attr ''id'' i, Attr ''x1'' ''0'', Attr ''y1'' ''0'',
       Attr ''x2'' ''0'', Attr ''y2'' ''1''] [
     Elem ''stop'' [Attr ''offset'' ''5%'', Attr ''stopColor'' color, Attr ''stopOpacity'' ''0.3''] [],
     Elem ''stop'' [Attr ''offset'' ''95%'', Attr ''stopColor'' color, Attr ''stopOpacity'' ''0''] []]"

definition area :: "string \<Rightarrow> string \<Rightarrow> string \<Rightarrow> string \<Rightarrow> view" where
  "area key color fill name = Elem ''Area'' [Attr ''type'' ''monotone'', Attr ''dataKey'' key,
     Attr ''stroke'' color, Attr ''fill'' fill, Attr ''strokeWidth'' ''2'', Attr ''name'' name] []"

definition Rre :: "browser \<Rightarrow> history_point list \<Rightarrow> view" where
  "Rre B e =
     (if e = [] then Elem ''p'' [] [Txt ''No history data available.'']
      else Elem ''div'' [] [Elem ''ResponsiveContainer''
          [Attr ''width'' ''100%'', Attr ''height'' ''100%''] [
        Elem ''AreaChart'' [Data ''data'' (JArr (map (history_row B) e)),
            Data ''margin'' (JObj [(''top'', JInt 4), (''right'', JInt 4), (''bottom'', JInt 0),
              (''left'', JInt 0)])] [
          Elem ''defs'' [] [gradient ''colorProcessed'' ''#22C55E'', gradient ''colorFailed'' ''#EF4444''],
          Elem ''XAxis'' [Attr ''dataKey'' ''time'', Data ''tick'' (JObj [(''fontSize'', JInt 10)])] [],
          Elem ''YAxis'' [Data ''tick'' (JObj [(''fontSize'', JInt 10)]), Data ''width'' (JInt 40)] [],
          Elem ''Tooltip'' [Data ''contentStyle'' (JObj [(''fontSize'', JInt 12)])] [],
          area ''processed'' ''#22C55E'' ''url(#colorProcessed)'' ''Processed'',
          area ''failed'' ''#EF4444'' ''url(#colorFailed)'' ''Failed'']]])"

definition Mre :: view where
  "Mre = Elem ''div'' [] [Txt (''Loading dashboard'' @ ellipsis)]"

definition jre :: "string \<Rightarrow> view" where
  "jre e = Elem ''div'' [] [
     Elem ''h2'' [] [Txt ''Failed to connect''],
     Elem ''p'' [] [Txt e],
     Elem ''p'' [] [Txt ''Make sure an OJS backend is running and accessible.'']]"

definition Cre :: "browser \<Rightarrow> dashboard_stats poll \<Rightarrow> queue_item list poll \<Rightarrow> history_point list poll \<Rightarrow> view" where
  "Cre B st qs hist =
     (if po_loading st \<and> po_data st = None then Mre
      else (case po_error st of
          Some e \<Rightarrow> jre e
        | None \<Rightarrow> (case po_data st of
            None \<Rightarrow> Nothing
          | Some c \<Rightarrow> Elem ''div'' [] [
              Elem ''h1'' [] [Txt ''Dashboard''],
              LP B (ds_jobs c) (ds_throughput c) (ds_queues c) (ds_workers c),
              Elem ''div'' [] [
                Elem ''section'' [] [Elem ''h2'' [] [Txt ''Throughput (5m)''],
                  Rre B (case po_data hist of None \<Rightarrow> [] | Some g \<Rightarrow> g)],
                Elem ''section'' [] [Elem ''h2'' [] [Txt ''Queues''],
                  dashboard_queues B (case po_data qs of None \<Rightarrow> [] | Some y \<Rightarrow> y)]]])))"

text \<open>The requests of its three polls; the history's failure is caught and read as no data.\<close>

definition dashboard_calls :: "api_call list" where
  "dashboard_calls = [CStats, CQueues 1 50, CStatsHistory ''5m'' '''' '''']"

section \<open>Queues\<close>

definition queue_row :: "browser \<Rightarrow> string option \<Rightarrow> queue_item \<Rightarrow> view" where
  "queue_row B busy h = Elem ''tr'' [] [
     Elem ''td'' [] [Txt (q_name h)],
     Elem ''td'' [] [Txt (rl B (ct_available (q_counts h)))],
     Elem ''td'' [] [Txt (rl B (ct_active (q_counts h)))],
     Elem ''td'' [] [Txt (rl B (ct_scheduled (q_counts h)))],
     Elem ''td'' [] [Txt (rl B (ct_retryable (q_counts h)))],
     Elem ''td'' [] [Txt (rl B (ct_completed (q_counts h)))],
     Elem ''td'' [] [Txt (rl B (ct_discarded (q_counts h)))],
     Elem ''td'' [] [Txt (case q_throughput h of None \<Rightarrow> em_dash | Some t \<Rightarrow> pM (tp_processed t))],
     Elem ''td'' [] [if q_paused h then Elem ''span'' [] [Txt ''Paused'']
                     else Elem ''span'' [] [Txt ''Active'']],
     Elem ''td'' [] [Elem ''button'' [On ''onClick'' (ToggleQueue h),
         Flag ''disabled'' (busy = Some (q_name h))]
       [Txt (if busy = Some (q_name h) then ellipsis
             else if q_paused h then ''Resume'' else ''Pause'')]]]"

definition Dre :: "browser \<Rightarrow> string option \<Rightarrow> queue_item list \<Rightarrow> view" where
  "Dre B busy e = Elem ''div'' [] [
     Elem ''table'' [] [
       Elem ''thead'' [] [Elem ''tr'' [] (map (\<lambda>t. Elem ''th'' [] [Txt t])
         [''Queue'', ''Available'', ''Active'', ''Scheduled'', ''Retrying'', ''Completed'', ''Failed'',
          ''Throughput'', ''Status'', ''Actions''])],
       Elem ''tbody'' [] (map (queue_row B busy) e)],
     whenn (e = []) (Elem ''p'' [] [Txt ''No queues found.''])]"

text \<open>The handler \<open>s\<close>: busy while the call runs, a refresh when it succeeded, idle again in any case.\<close>

definition toggle_queue :: "bool \<Rightarrow> queue_item \<Rightarrow> ui_effect list" where
  "toggle_queue ok h =
     [SetBusy (Some (q_name h)),
      Api (if q_paused h then CResumeQueue (q_name h) else CPauseQueue (q_name h))] @
     (if ok then [Refresh] else []) @ [SetBusy None] @ (if ok then [] else [Throw])"

definition Nre :: "browser \<Rightarrow> string option \<Rightarrow> queue_item list poll \<Rightarrow> view" where
  "Nre B busy p = Elem ''div'' [] [
     Elem ''div'' [] [Elem ''h1'' [] [Txt ''Queues''],
       Elem ''button'' [On ''onClick'' RefreshClick] [Txt ''Refresh'']],
     Dre B busy (case po_data p of None \<Rightarrow> [] | Some a \<Rightarrow> a)]"

section \<open>Jobs\<close>

definition job_row :: "browser \<Rightarrow> job_item \<Rightarrow> view" where
  "job_row B a = Elem ''tr'' [On ''onClick'' (SelectJob (ji_id a))] [
     Elem ''td'' [] [Txt (take 12 (ji_id a)), Txt ellipsis],
     Elem ''td'' [] [Txt (ji_type a)],
     Elem ''td'' [] [Txt (ji_queue a)],
     Elem ''td'' [] [state_badge (ji_state a)],
     Elem ''td'' [] [Txt (nat_string (ji_attempt a))],
     Elem ''td'' [] [Txt (kb B (ji_created_at a))]]"

definition zre :: "browser \<Rightarrow> job_item list \<Rightarrow> view" where
  "zre B e = Elem ''div'' [] [
     Elem ''table'' [] [
       Elem ''thead'' [] [Elem ''tr'' [] (map (\<lambda>t. Elem ''th'' [] [Txt t])
         [''ID'', ''Type'', ''Queue'', ''State'', ''Attempt'', ''Created''])],
       Elem ''tbody'' [] (map (job_row B) e)],
     whenn (e = []) (Elem ''p'' [] [Txt ''No jobs found matching filters.''])]"

definition Ure :: "string list" where
  "Ure = [''available'', ''scheduled'', ''pending'', ''active'', ''completed'', ''retryable'',
     ''cancelled'', ''discarded'']"

text \<open>
  The filter object as its entries in insertion order; \<open>{ ...e, k: v }\<close> overwrites in place or appends.
  An empty selection becomes \<open>undefined\<close>.
\<close>

type_synonym filters = "(string \<times> string option) list"

fun spread :: "string \<Rightarrow> string option \<Rightarrow> filters \<Rightarrow> filters" where
  "spread k v [] = [(k, v)]"
| "spread k v ((k', v') # fs) = (if k = k' then (k, v) # fs else (k', v') # spread k v fs)"

definition falsy_undefined :: "string \<Rightarrow> string option" where
  "falsy_undefined s = (if s = '''' then None else Some s)"

definition filter_of :: "string \<Rightarrow> filters \<Rightarrow> string option" where
  "filter_of k fs = (case map_of fs k of None \<Rightarrow> None | Some v \<Rightarrow> v)"

definition filter_text :: "string \<Rightarrow> filters \<Rightarrow> string" where
  "filter_text k fs = (case filter_of k fs of None \<Rightarrow> '''' | Some s \<Rightarrow> s)"

definition options_of :: "string list \<Rightarrow> view list" where
  "options_of xs = map (\<lambda>s. Elem ''option'' [Attr ''value'' s] [Txt s]) xs"

definition qre :: "filters \<Rightarrow> string list \<Rightarrow> string \<Rightarrow> view" where
  "qre e t i = Elem ''div'' [] [
     Elem ''select'' [Attr ''value'' (filter_text ''queue'' e), On ''onChange'' ChangeQueueFilter]
       (Elem ''option'' [Attr ''value'' ''''] [Txt ''All queues''] # options_of t),
     Elem ''select'' [Attr ''value'' (filter_text ''state'' e), On ''onChange'' ChangeStateFilter]
       (Elem ''option'' [Attr ''value'' ''''] [Txt ''All states''] # options_of Ure),
     Elem ''form'' [On ''onSubmit'' SubmitTypeFilter] [
       Elem ''input'' [Attr ''type'' ''text'', Attr ''value'' i, On ''onChange'' ChangeTypeText,
         Attr ''placeholder'' (''Job type'' @ ellipsis)] [],
       Elem ''button'' [Attr ''type'' ''submit''] [Txt ''Filter'']],
     whenn (filter_text ''queue'' e \<noteq> '''' \<or> filter_text ''state'' e \<noteq> '''' \<or> filter_text ''type'' e \<noteq> '''')
       (Elem ''button'' [On ''onClick'' ClearFilters] [Txt ''Clear filters''])]"

text \<open>The jobs page: its filters, page, selected job, and the text in the type field.\<close>

record jobs_page =
  jp_filters :: filters
  jp_page :: int
  jp_selected :: "string option"
  jp_type_text :: string

definition jobs_page_init :: jobs_page where
  "jobs_page_init = \<lparr>jp_filters = [], jp_page = 1, jp_selected = None, jp_type_text = ''''\<rparr>"

text \<open>\<open>onChange\<close> of the filter bar: new filters, and back to the first page.\<close>

definition change_filters :: "filters \<Rightarrow> jobs_page \<Rightarrow> jobs_page" where
  "change_filters w s = s\<lparr>jp_filters := w, jp_page := 1\<rparr>"

fun jobs_event :: "ui_event \<Rightarrow> string \<Rightarrow> jobs_page \<Rightarrow> jobs_page" where
  "jobs_event ChangeQueueFilter val s =
     change_filters (spread ''queue'' (falsy_undefined val) (jp_filters s)) s"
| "jobs_event ChangeStateFilter val s =
     change_filters (spread ''state'' (falsy_undefined val) (jp_filters s)) s"
| "jobs_event SubmitTypeFilter val s =
     change_filters (spread ''type'' (falsy_undefined (jp_type_text s)) (jp_filters s)) s"
| "jobs_event ChangeTypeText val s = s\<lparr>jp_type_text := val\<rparr>"
| "jobs_event ClearFilters val s = (change_filters [] s)\<lparr>jp_type_text := ''''\<rparr>"
| "jobs_event (SelectJob i) val s = s\<lparr>jp_selected := Some i\<rparr>"
| "jobs_event CloseDetail val s = s\<lparr>jp_selected := None\<rparr>"
| "jobs_event (GoPage p) val s = s\<lparr>jp_page := p\<rparr>"
| "jobs_event _ val s = s"

text \<open>The request of its poll: \<open>e.jobs({ ...t, page: i, per_page: 25 })\<close>.\<close>

definition jobs_call :: "jobs_page \<Rightarrow> api_call" where
  "jobs_call s = CJobs (map (\<lambda>(k, v). (k, map_option PStr v)) (jp_filters s) @
     [(''page'', Some (PInt (jp_page s))), (''per_page'', Some (PInt 25))])"

section \<open>One job\<close>

text \<open>\<open>Ub\<close>, the JSON viewer.\<close>

definition Ub :: "json \<Rightarrow> bool \<Rightarrow> view" where
  "Ub e t =
     (let i = stringify2 '''' e in
      Elem ''div'' [] [
        Elem ''button'' [On ''onClick'' (CopyText i)] [Txt ''Copy''],
        Elem ''button'' [On ''onClick'' ToggleExpand] [Txt (if t then ''Collapse'' else ''Expand'')],
        Elem ''pre'' [] [Txt (if t then i else stringify e)]])"

definition Nm :: "browser \<Rightarrow> string \<Rightarrow> string \<Rightarrow> view" where
  "Nm B label t = Elem ''div'' [] [Elem ''span'' [] [Txt label], Elem ''span'' [] [Txt (locale_date B t)]]"

definition timeline :: "browser \<Rightarrow> job_metadata option \<Rightarrow> view list" where
  "timeline B m =
     (case m of None \<Rightarrow> []
      | Some d \<Rightarrow> map (\<lambda>(label, t). whenn (t \<noteq> '''') (Nm B label t))
          [(''Created'', md_created_at d), (''Enqueued'', md_enqueued_at d),
           (''Started'', md_started_at d), (''Completed'', md_completed_at d),
           (''Cancelled'', md_cancelled_at d), (''Discarded'', md_discarded_at d)])"

definition failure_entry :: "browser \<Rightarrow> job_failure \<Rightarrow> view" where
  "failure_entry B R = Elem ''div'' [] [
     Elem ''div'' [] [
       Elem ''span'' [] [Txt (jf_type R)],
       Elem ''span'' [] [Txt ''Attempt '', Txt (nat_string (jf_attempt R)), Txt ('' '' @ utf8 [0xC2, 0xB7] @ '' ''),
         Txt (kb B (jf_occurred_at R))]],
     Elem ''p'' [] [Txt (jf_message R)],
     (case jf_backtrace R of None \<Rightarrow> Nothing
      | Some bt \<Rightarrow> Elem ''pre'' [] [Txt (js_join [CHR 0x0A] bt)])]"

definition titled :: "string \<Rightarrow> view \<Rightarrow> view" where
  "titled h n = Elem ''section'' [] [Elem ''h3'' [] [Txt h], n]"

text \<open>The row of the job's state with the two actions.\<close>

definition detail_actions :: "browser \<Rightarrow> job_detail \<Rightarrow> view" where
  "detail_actions B i =
     (let it = jd_item i in
      Elem ''div'' [] [
        state_badge (ji_state it),
        Elem ''span'' [] [Txt ''Attempt '', Txt (nat_string (ji_attempt it)),
          Txt (if jd_max_attempts i \<noteq> 0 then '' / '' @ nat_string (jd_max_attempts i) else '''')],
        Elem ''span'' [] [Txt (kb B (ji_created_at it))],
        Elem ''div'' [] [],
        whenn (ji_state it \<in> set [''discarded'', ''cancelled''])
          (Elem ''button'' [On ''onClick'' RetryJobClick] [Txt ''Retry'']),
        whenn (ji_state it \<in> set [''available'', ''scheduled'', ''pending'', ''retryable''])
          (Elem ''button'' [On ''onClick'' CancelJobClick] [Txt ''Cancel''])])"

text \<open>\<open>open_sections\<close> is the state of the viewers, in the order args, meta, result, retry policy.\<close>

definition yH :: "browser \<Rightarrow> job_detail option \<Rightarrow> string option \<Rightarrow> bool \<times> bool \<times> bool \<times> bool \<Rightarrow> view" where
  "yH B job err open_sections =
     (case err of
        Some s \<Rightarrow> Elem ''div'' [] [Txt s]
      | None \<Rightarrow> (case job of
          None \<Rightarrow> Elem ''div'' [] [Txt (''Loading'' @ ellipsis)]
        | Some i \<Rightarrow> (case open_sections of (o1, o2, o3, o4) \<Rightarrow>
            Elem ''div'' [] [
              Elem ''div'' [On ''onClick'' CloseDetail] [],
              Elem ''div'' [] [
                Elem ''div'' [] [
                  Elem ''div'' [] [Elem ''h2'' [] [Txt (ji_type (jd_item i))],
                    Elem ''p'' [] [Txt (ji_id (jd_item i))]],
                  Elem ''button'' [On ''onClick'' CloseDetail] [Txt (utf8 [0xC3, 0x97])]],
                Elem ''div'' [] [
                  detail_actions B i,
                  titled ''Timeline'' (Elem ''div'' [] (timeline B (jd_metadata i))),
                  titled ''Arguments'' (Ub (jd_args i) o1),
                  whenn (jd_meta i \<noteq> []) (titled ''Metadata'' (Ub (JObj (jd_meta i)) o2)),
                  whenn (jd_errors i \<noteq> []) (titled ''Error History''
                    (Elem ''div'' [] (map (failure_entry B) (jd_errors i)))),
                  whenn (jd_result i \<noteq> JNull) (titled ''Result'' (Ub (jd_result i) o3)),
                  (case jd_retry_policy i of None \<Rightarrow> Nothing
                   | Some p \<Rightarrow> titled ''Retry Policy'' (Ub p o4))]]])))"

text \<open>The handlers \<open>g\<close> and \<open>b\<close>: the call, and a reload of the job when it succeeded.\<close>

definition detail_action :: "bool \<Rightarrow> string \<Rightarrow> ui_event \<Rightarrow> ui_effect list" where
  "detail_action ok e ev =
     (case ev of
        RetryJobClick \<Rightarrow> Api (CRetryJob e) # (if ok then [Api (CJob e)] else [Throw])
      | CancelJobClick \<Rightarrow> Api (CCancelJob e) # (if ok then [Api (CJob e)] else [Throw])
      | _ \<Rightarrow> [])"

section \<open>Pages of a listing\<close>

definition page_count :: "int \<Rightarrow> int \<Rightarrow> int" where
  "page_count a t = max 1 ((a + t - 1) div t)"

definition mH :: "int \<Rightarrow> int \<Rightarrow> int \<Rightarrow> view" where
  "mH e t a =
     (let c = page_count a t in
      if c \<le> 1 then Nothing
      else Elem ''div'' [] [
        Elem ''span'' [] [Txt ''Showing '', Txt (int_string ((e - 1) * t + 1)), Txt en_dash,
          Txt (int_string (min (e * t) a)), Txt '' of '', Txt (int_string a)],
        Elem ''div'' [] [
          Elem ''button'' [On ''onClick'' (GoPage (e - 1)), Flag ''disabled'' (e \<le> 1)] [Txt ''Prev''],
          Elem ''span'' [] [Txt (int_string e), Txt '' / '', Txt (int_string c)],
          Elem ''button'' [On ''onClick'' (GoPage (e + 1)), Flag ''disabled'' (c \<le> e)] [Txt ''Next'']]])"

definition Bre :: "browser \<Rightarrow> jobs_page \<Rightarrow> (job_item list \<times> pagination) poll \<Rightarrow> queue_item list poll \<Rightarrow>
    job_detail option \<times> string option \<Rightarrow> bool \<times> bool \<times> bool \<times> bool \<Rightarrow> view" where
  "Bre B s b qs det os = Elem ''div'' [] [
     Elem ''div'' [] [Elem ''h1'' [] [Txt ''Jobs''],
       Elem ''button'' [On ''onClick'' RefreshClick] [Txt ''Refresh'']],
     qre (jp_filters s) (map q_name (case po_data qs of None \<Rightarrow> [] | Some S \<Rightarrow> S)) (jp_type_text s),
     zre B (case po_data b of None \<Rightarrow> [] | Some d \<Rightarrow> fst d),
     (case po_data b of None \<Rightarrow> Nothing
      | Some d \<Rightarrow> mH (pg_page (snd d)) (pg_per_page (snd d)) (pg_total (snd d))),
     (case jp_selected s of None \<Rightarrow> Nothing
      | Some i \<Rightarrow> whenn (i \<noteq> '''') (yH B (fst det) (snd det) os))]"

section \<open>The confirmation dialog\<close>

record dialog =
  dg_open :: bool
  dg_title :: string
  dg_message :: string
  dg_confirm :: string
  dg_destructive :: bool

definition vH :: "dialog \<Rightarrow> bool \<Rightarrow> view" where
  "vH d y =
     (if \<not> dg_open d then Nothing
      else Elem ''div'' [On ''onClick'' DialogCancel] [
        Elem ''div'' [On ''onClick'' StopPropagation] [
          Elem ''h3'' [] [Txt (dg_title d)],
          Elem ''p'' [] [Txt (dg_message d)],
          Elem ''div'' [] [
            Elem ''button'' [On ''onClick'' DialogCancel] [Txt ''Cancel''],
            Elem ''button'' [On ''onClick'' DialogConfirm, Flag ''disabled'' y,
                Attr ''className'' (''px-4 py-2 text-sm rounded text-white '' @
                  (if dg_destructive d then ''bg-red-600 hover:bg-red-700''
                   else ''bg-blue-600 hover:bg-blue-700'') @ '' disabled:opacity-50'')]
              [Txt (if y then ''Processing'' @ ellipsis else dg_confirm d)]]]])"

text \<open>\<open>b\<close>: processing while \<open>onConfirm\<close> runs, whose effects are \<open>fx\<close>; its rejection leaves the handler.\<close>

definition confirm_click :: "ui_effect list \<Rightarrow> ui_effect list" where
  "confirm_click fx =
     (if Throw \<in> set fx then SetProcessing True # filter ((\<noteq>) Throw) fx @ [SetProcessing False, Throw]
      else SetProcessing True # fx @ [SetProcessing False])"

section \<open>Workers\<close>

definition worker_row :: "browser \<Rightarrow> worker_item \<Rightarrow> view" where
  "worker_row B y = Elem ''tr'' [] [
     Elem ''td'' [] [Txt (take 16 (wi_worker_id y))],
     Elem ''td'' [] [Txt (case wi_hostname y of None \<Rightarrow> em_dash | Some h \<Rightarrow> h)],
     Elem ''td'' [] [Elem ''span'' [Attr ''className''
         (''inline-flex px-2 py-0.5 rounded-full text-xs font-medium '' @ worker_badge (wi_worker_state y))]
       [Txt (wi_worker_state y)]],
     Elem ''td'' [] [Txt (js_join '', '' (wi_queues y))],
     Elem ''td'' [] [Txt (nat_string (wi_active y))],
     Elem ''td'' [] [Txt (kb B (wi_last_heartbeat_at y))],
     Elem ''td'' [] [Elem ''div'' [] [
       whenn (wi_worker_state y = ''running'')
         (Elem ''button'' [On ''onClick'' (AskQuiet (wi_worker_id y))] [Txt ''Quiet'']),
       whenn (wi_worker_state y = ''stale'')
         (Elem ''button'' [On ''onClick'' (AskRemove (wi_worker_id y))] [Txt ''Remove''])]]]"

text \<open>The dialog of the workers table; \<open>i\<close> is the pending action, its ID and \<open>quiet\<close> or \<open>deregister\<close>.\<close>

definition worker_dialog :: "(string \<times> string) option \<Rightarrow> dialog" where
  "worker_dialog i =
     (let quiet = (case i of None \<Rightarrow> False | Some a \<Rightarrow> snd a = ''quiet'') in
      \<lparr>dg_open = (i \<noteq> None),
       dg_title = (if quiet then ''Quiet Worker'' else ''Remove Stale Worker''),
       dg_message = (if quiet
         then ''This will signal the worker to stop fetching new jobs. Active jobs will finish.''
         else ''This will remove the stale worker and requeue its active jobs.''),
       dg_confirm = (if quiet then ''Quiet'' else ''Remove''),
       dg_destructive = (case i of None \<Rightarrow> False | Some a \<Rightarrow> snd a = ''deregister'')\<rparr>)"

definition Lre :: "browser \<Rightarrow> (string \<times> string) option \<Rightarrow> bool \<Rightarrow> worker_item list \<Rightarrow> view" where
  "Lre B i processing e = Frag [
     Elem ''div'' [] [
       Elem ''table'' [] [
         Elem ''thead'' [] [Elem ''tr'' [] (map (\<lambda>t. Elem ''th'' [] [Txt t])
           [''Worker ID'', ''Hostname'', ''State'', ''Queues'', ''Active'', ''Last Heartbeat'', ''Actions''])],
         Elem ''tbody'' [] (map (worker_row B) e)],
       whenn (e = []) (Elem ''p'' [] [Txt ''No workers connected.''])],
     vH (worker_dialog i) processing]"

text \<open>The handler \<open>s\<close> of the dialog: nothing without a pending action; a failed call keeps it pending.\<close>

definition worker_confirm :: "bool \<Rightarrow> (string \<times> string) option \<Rightarrow> ui_effect list" where
  "worker_confirm ok i =
     (case i of
        None \<Rightarrow> []
      | Some (w, action) \<Rightarrow>
          Api (if action = ''quiet'' then CQuietWorker w else CDeregisterWorker w) #
          (if ok then [SetConfirm None, Refresh] else [Throw]))"

definition Hre :: "browser \<Rightarrow> (string \<times> string) option \<Rightarrow> bool \<Rightarrow> (worker_item list \<times> worker_counts option) poll \<Rightarrow> view" where
  "Hre B i processing p = Elem ''div'' [] [
     Elem ''div'' [] [
       Elem ''h1'' [] [Txt ''Workers''],
       Elem ''div'' [] [
         (case Option.bind (po_data p) snd of None \<Rightarrow> Nothing
          | Some s \<Rightarrow> Elem ''div'' [] [
              Elem ''span'' [] [Txt (nat_string (wc_running s)), Txt '' running''],
              whenn (0 < wc_quiet s) (Elem ''span'' [] [Txt (nat_string (wc_quiet s)), Txt '' quiet'']),
              whenn (0 < wc_stale s) (Elem ''span'' [] [Txt (nat_string (wc_stale s)), Txt '' stale''])]),
         Elem ''button'' [On ''onClick'' RefreshClick] [Txt ''Refresh'']]],
     Lre B i processing (case po_data p of None \<Rightarrow> [] | Some a \<Rightarrow> fst a)]"

section \<open>Dead letters\<close>

definition stat_card :: "string \<Rightarrow> string \<Rightarrow> view" where
  "stat_card label val = Elem ''div'' [] [Elem ''div'' [] [Txt label], Elem ''div'' [] [Txt val]]"

definition dead_row :: "browser \<Rightarrow> string option \<Rightarrow> job_item \<Rightarrow> view" where
  "dead_row B busy S = Elem ''tr'' [] [
     Elem ''td'' [On ''onClick'' (SelectJob (ji_id S))] [Txt (take 12 (ji_id S)), Txt ellipsis],
     Elem ''td'' [On ''onClick'' (SelectJob (ji_id S))] [Txt (ji_type S)],
     Elem ''td'' [] [Txt (ji_queue S)],
     Elem ''td'' [] [state_badge (ji_state S)],
     Elem ''td'' [] [Txt (kb B (ji_created_at S))],
     Elem ''td'' [] [Elem ''div'' [] [
       Elem ''button'' [On ''onClick'' (RetryDead (ji_id S)), Flag ''disabled'' (busy = Some (ji_id S))]
         [Txt ''Retry''],
       Elem ''button'' [On ''onClick'' (DeleteDead (ji_id S)), Flag ''disabled'' (busy = Some (ji_id S))]
         [Txt ''Delete'']]]]"

definition bulk_dialog :: "bool \<Rightarrow> dead_stats option \<Rightarrow> dialog" where
  "bulk_dialog s t = \<lparr>dg_open = s, dg_title = ''Bulk Retry All Dead Letter Jobs'',
     dg_message = ''This will retry all '' @
       nat_string (case t of None \<Rightarrow> 0 | Some d \<Rightarrow> dl_total d) @ '' dead letter jobs. Are you sure?'',
     dg_confirm = ''Retry All'', dg_destructive = False\<rparr>"

text \<open>\<open>$re\<close>\<close>

definition dead_letters :: "browser \<Rightarrow> bool \<Rightarrow> string option \<Rightarrow> bool \<Rightarrow> dead_stats option \<Rightarrow> job_item list \<Rightarrow> view" where
  "dead_letters B s busy processing t e = Frag [
     (case t of None \<Rightarrow> Nothing
      | Some d \<Rightarrow> Elem ''div'' [] (stat_card ''Total Dead'' (rl B (dl_total d)) #
          (case dl_by_error_type d of None \<Rightarrow> []
           | Some bt \<Rightarrow> map (\<lambda>(S, E). stat_card S (rl B E)) (take 3 bt)))),
     Elem ''div'' [] [Elem ''button'' [On ''onClick'' AskBulkRetry, Flag ''disabled'' (e = [])]
       [Txt ''Bulk Retry All'']],
     Elem ''div'' [] [
       Elem ''table'' [] [
         Elem ''thead'' [] [Elem ''tr'' [] (map (\<lambda>t. Elem ''th'' [] [Txt t])
           [''ID'', ''Type'', ''Queue'', ''State'', ''Created'', ''Actions''])],
         Elem ''tbody'' [] (map (dead_row B busy) e)],
       whenn (e = []) (Elem ''p'' [] [Txt (''Dead letter queue is empty. '' @ utf8 [0xF0, 0x9F, 0x8E, 0x89])])],
     vH (bulk_dialog s t) processing]"

text \<open>The handlers \<open>b\<close> and \<open>O\<close> of a row, and \<open>onConfirm\<close> of the bulk dialog.\<close>

definition dead_action :: "bool \<Rightarrow> ui_event \<Rightarrow> ui_effect list" where
  "dead_action ok ev =
     (let run = (\<lambda>i call. [SetBusy (Some i), Api call] @ (if ok then [Refresh] else []) @ [SetBusy None] @
          (if ok then [] else [Throw]))
      in case ev of
           RetryDead i \<Rightarrow> run i (CRetryDeadLetter i)
         | DeleteDead i \<Rightarrow> run i (CDeleteDeadLetter i)
         | _ \<Rightarrow> [])"

definition bulk_confirm :: "bool \<Rightarrow> ui_effect list" where
  "bulk_confirm ok = Api (CBulkRetryDeadLetter (JObj [])) #
     (if ok then [SetDialog False, Refresh] else [Throw])"

definition dead_letter_calls :: "int \<Rightarrow> api_call list" where
  "dead_letter_calls page =
     [CDeadLetter [(''page'', Some (PInt page)), (''per_page'', Some (PInt 25))], CDeadLetterStats]"

definition Pre :: "browser \<Rightarrow> bool \<Rightarrow> string option \<Rightarrow> bool \<Rightarrow> (job_item list \<times> pagination) poll \<Rightarrow>
    dead_stats option poll \<Rightarrow> string option \<Rightarrow> job_detail option \<times> string option \<Rightarrow>
    bool \<times> bool \<times> bool \<times> bool \<Rightarrow> view" where
  "Pre B s busy processing y st sel det os = Elem ''div'' [] [
     Elem ''div'' [] [Elem ''h1'' [] [Txt ''Dead Letter Queue''],
       Elem ''button'' [On ''onClick'' RefreshClick] [Txt ''Refresh'']],
     dead_letters B s busy processing (Option.bind (po_data st) (\<lambda>x. x))
       (case po_data y of None \<Rightarrow> [] | Some d \<Rightarrow> fst d),
     (case po_data y of None \<Rightarrow> Nothing
      | Some d \<Rightarrow> mH (pg_page (snd d)) (pg_per_page (snd d)) (pg_total (snd d))),
     (case sel of None \<Rightarrow> Nothing | Some i \<Rightarrow> whenn (i \<noteq> '''') (yH B (fst det) (snd det) os))]"

section \<open>Settings\<close>

definition Vh :: "string \<Rightarrow> string \<Rightarrow> view" where
  "Vh label val = Elem ''div'' [] [Elem ''span'' [] [Txt label], Elem ''span'' [] [Txt val]]"

definition extension_row :: "string \<Rightarrow> extension \<Rightarrow> view" where
  "extension_row tier s = Elem ''div'' [] [Elem ''span'' [] [Txt tier], Elem ''span'' [] [Txt (ex_name s)],
     Elem ''span'' [] [Txt ''v'', Txt (ex_version s)]]"

definition official :: "extensions \<Rightarrow> extension list" where
  "official t = (case t of ExtensionTiers (Some o') _ \<Rightarrow> o' | _ \<Rightarrow> [])"

definition experimental :: "extensions \<Rightarrow> extension list" where
  "experimental t = (case t of ExtensionTiers _ (Some x) \<Rightarrow> x | _ \<Rightarrow> [])"

definition legacy :: "extensions \<Rightarrow> string list" where
  "legacy t = (case t of ExtensionList l \<Rightarrow> l | _ \<Rightarrow> [])"

text \<open>\<open>s.replace(/_/g, " ")\<close> of a capability's name.\<close>

definition spaced :: "string \<Rightarrow> string" where
  "spaced s = map (\<lambda>c. if c = CHR ''_'' then CHR '' '' else c) s"

definition kre :: "manifest_info option \<Rightarrow> bool \<Rightarrow> view" where
  "kre m expanded = (case m of
     None \<Rightarrow> Elem ''p'' [] [Txt (''Loading manifest'' @ ellipsis)]
   | Some e \<Rightarrow>
       (let t = mf_extensions e; a = official t; i = experimental t; c = legacy t in
        Elem ''div'' [] [
          Elem ''h1'' [] [Txt ''Settings & Backend Info''],
          Elem ''section'' [] [
            Elem ''h2'' [] [Txt ''Implementation''],
            Vh ''Name'' (im_name (mf_implementation e)),
            Vh ''Version'' (im_version (mf_implementation e)),
            Vh ''Language'' (im_language (mf_implementation e)),
            Vh ''Backend'' (mf_backend e),
            Vh ''Conformance'' (NP (mf_conformance_level e)),
            whenn (mf_conformance_tier e \<noteq> '''') (Vh ''Tier'' (mf_conformance_tier e)),
            Vh ''Protocols'' (js_join '', '' (mf_protocols e))],
          (case mf_capabilities e of None \<Rightarrow> Nothing
           | Some cs \<Rightarrow> Elem ''section'' [] [
               Elem ''h2'' [] [Txt ''Capabilities''],
               Elem ''div'' [] (map (\<lambda>(s, h). Elem ''div'' [] [
                 Elem ''span'' [Attr ''className'' (if h then ''text-green-600'' else ''text-gray-400'')]
                   [Txt (if h then utf8 [0xE2, 0x9C, 0x93] else utf8 [0xE2, 0x9C, 0x97])],
                 Elem ''span'' [] [Txt (spaced s)]]) cs)]),
          whenn (a \<noteq> [] \<or> i \<noteq> [] \<or> c \<noteq> []) (Elem ''section'' [] (
            [Elem ''h2'' [] [Txt ''Extensions'']] @
            map (extension_row ''Official'') a @
            map (extension_row ''Experimental'') i @
            map (\<lambda>s. Elem ''div'' [] [Txt s]) c)),
          Elem ''section'' [] [
            Elem ''h2'' [] [Txt ''Raw Manifest''],
            Ub (mf_json e) expanded]]))"

section \<open>The routes of the UI\<close>

text \<open>\<open>Gre\<close>: under the basename \<open>/ojs/admin\<close>, each page by the path below the layout route.\<close>

datatype page = Dashboard | QueuesPage | JobsPage | WorkersPage | DeadLetterPage | SettingsPage

definition default_basename :: string where
  "default_basename = ''/ojs/admin''"

definition admin_pages :: "(string option \<times> page) list" where
  "admin_pages = [(None, Dashboard), (Some ''queues'', QueuesPage), (Some ''jobs'', JobsPage),
     (Some ''workers'', WorkersPage), (Some ''dead-letter'', DeadLetterPage),
     (Some ''settings'', SettingsPage)]"

section \<open>The tree of a job\<close>

lemma handlers_badge [simp]: "handlers (state_badge s) = []"
  by (simp add: state_badge_def Let_def)

lemma handlers_Ub: "h \<in> set (handlers (Ub v t)) \<Longrightarrow> snd h \<in> {CopyText (stringify2 '''' v), ToggleExpand}"
  by (auto simp: Ub_def Let_def)

lemma handlers_timeline [simp]: "concat (map handlers (timeline B m)) = []"
  by (auto simp: timeline_def Nm_def split: option.splits)

lemma handlers_failure [simp]: "handlers (failure_entry B f) = []"
  by (simp add: failure_entry_def split: option.splits)

lemma offers_retry:
  "RetryJobClick \<in> snd ` set (handlers (yH B (Some i) None os)) \<longleftrightarrow>
     ji_state (jd_item i) \<in> {''discarded'', ''cancelled''}"
  by (cases os) (force simp: yH_def detail_actions_def titled_def Let_def dest!: handlers_Ub
      split: option.splits if_splits)

lemma offers_cancel:
  "CancelJobClick \<in> snd ` set (handlers (yH B (Some i) None os)) \<longleftrightarrow>
     ji_state (jd_item i) \<in> {''available'', ''scheduled'', ''pending'', ''retryable''}"
  by (cases os) (force simp: yH_def detail_actions_def titled_def Let_def dest!: handlers_Ub
      split: option.splits if_splits)

text \<open>The panel of a loaded job lets the user retry it exactly in the states discarded and cancelled, and
  cancel it exactly in the states available, scheduled, pending and retryable; no other control of the
  panel makes an API call.\<close>

lemma detail_offers_actions:
  fixes i :: job_detail and B :: browser and os :: "bool \<times> bool \<times> bool \<times> bool"
  defines "hs \<equiv> snd ` set (handlers (yH B (Some i) None os))"
  shows "(RetryJobClick \<in> hs \<longleftrightarrow> ji_state (jd_item i) \<in> {''discarded'', ''cancelled''}) \<and>
    (CancelJobClick \<in> hs \<longleftrightarrow>
       ji_state (jd_item i) \<in> {''available'', ''scheduled'', ''pending'', ''retryable''}) \<and>
    (\<forall>h \<in> hs. h \<notin> {RetryJobClick, CancelJobClick} \<longrightarrow> detail_action ok (ji_id (jd_item i)) h = [])"
proof -
  obtain o1 o2 o3 o4 where os: "os = (o1, o2, o3, o4)" by (cases os)
  have "hs \<subseteq> {CloseDetail, RetryJobClick, CancelJobClick, ToggleExpand} \<union> range CopyText"
    unfolding hs_def os
    by (auto simp: yH_def detail_actions_def titled_def Let_def dest!: handlers_Ub
      split: option.splits if_splits)
  moreover have "RetryJobClick \<in> hs \<longleftrightarrow> ji_state (jd_item i) \<in> {''discarded'', ''cancelled''}"
    and "CancelJobClick \<in> hs \<longleftrightarrow> ji_state (jd_item i) \<in> {''available'', ''scheduled'', ''pending'', ''retryable''}"
    unfolding hs_def by (rule offers_retry offers_cancel)+
  ultimately show ?thesis by (auto simp: detail_action_def)
qed

section \<open>Pagination\<close>

text \<open>On a page within the listing's page count, every page button that can be clicked leads to a page
  within the count, and the text names a range of items that exist.\<close>

lemma pagination_in_range:
  assumes "0 < t" "0 \<le> a" "1 \<le> e" "e \<le> page_count a t" "(ev, GoPage p) \<in> set (handlers (mH e t a))"
  shows "1 \<le> p \<and> p \<le> page_count a t \<and> (e - 1) * t + 1 \<le> min (e * t) a"
proof -
  define c where "c = page_count a t"
  have c: "1 < c" using assms(5) by (auto simp: mH_def Let_def c_def split: if_splits)
  then have "c = (a + t - 1) div t" by (simp add: c_def page_count_def)
  then have "c * t \<le> a + t - 1"
    using pos_mod_sign [OF assms(1), of "a + t - 1"] by (simp flip: minus_mod_eq_div_mult)
  moreover have "(e - 1) * t \<le> (c - 1) * t" using assms(1,4) by (simp add: c_def)
  ultimately have "(e - 1) * t + 1 \<le> a" by (simp add: algebra_simps)
  moreover have "(e - 1) * t + 1 \<le> e * t" using assms(1) by (simp add: algebra_simps)
  moreover have "p = e - 1 \<and> 1 < e \<or> p = e + 1 \<and> e < c"
    using assms(5) by (auto simp: mH_def Let_def c_def split: if_splits)
  ultimately show ?thesis using assms(3,4) by (auto simp: c_def)
qed

section \<open>Filters\<close>

definition filters_ok :: "filters \<Rightarrow> bool" where
  "filters_ok fs \<longleftrightarrow> distinct (map fst fs) \<and> set (map fst fs) \<subseteq> {''queue'', ''state'', ''type''} \<and>
     Some '''' \<notin> snd ` set fs"

lemma filters_ok_Nil: "filters_ok []"
  by (simp add: filters_ok_def)

lemma spread_keys: "set (map fst (spread k v fs)) = insert k (set (map fst fs))"
  by (induction k v fs rule: spread.induct) auto

lemma spread_distinct: "distinct (map fst fs) \<Longrightarrow> distinct (map fst (spread k v fs))"
proof (induction k v fs rule: spread.induct)
  case (2 k v k' v' fs)
  then show ?case using spread_keys [of k v fs] by auto
qed simp

lemma spread_values: "snd ` set (spread k v fs) \<subseteq> insert v (snd ` set fs)"
  by (induction k v fs rule: spread.induct) auto

lemma spread_ok:
  assumes "filters_ok fs" "k \<in> {''queue'', ''state'', ''type''}"
  shows "filters_ok (spread k (falsy_undefined v) fs)"
proof -
  have "Some '''' \<noteq> falsy_undefined v" by (simp add: falsy_undefined_def)
  then have "Some '''' \<notin> snd ` set (spread k (falsy_undefined v) fs)"
    using assms(1) spread_values [of k "falsy_undefined v" fs] unfolding filters_ok_def by blast
  moreover have "set (map fst (spread k (falsy_undefined v) fs)) \<subseteq> {''queue'', ''state'', ''type''}"
    using assms unfolding filters_ok_def spread_keys by blast
  moreover have "distinct (map fst (spread k (falsy_undefined v) fs))"
    using assms(1) unfolding filters_ok_def by (blast intro: spread_distinct)
  ultimately show ?thesis unfolding filters_ok_def by blast
qed

text \<open>The events a user can raise on the jobs page, each with the text of its target.\<close>

definition jobs_events :: "(ui_event \<times> string) list \<Rightarrow> jobs_page \<Rightarrow> jobs_page" where
  "jobs_events evs s = fold (\<lambda>(ev, v). jobs_event ev v) evs s"

lemma change_filters_sel [simp]:
  "jp_filters (change_filters fs s) = fs" "jp_page (change_filters fs s) = 1"
  by (simp_all add: change_filters_def)

lemma jobs_event_ok:
  assumes "filters_ok (jp_filters s)"
  shows "filters_ok (jp_filters (jobs_event ev v s))"
proof -
  have "filters_ok (spread k (falsy_undefined w) (jp_filters s))"
    if "k = ''queue'' \<or> k = ''state'' \<or> k = ''type''" for k w
    by (rule spread_ok [OF assms]) (use that in blast)
  then show ?thesis using assms by (cases ev) (simp_all add: filters_ok_Nil del: spread.simps)
qed

lemma jobs_events_ok: "filters_ok (jp_filters s) \<Longrightarrow> filters_ok (jp_filters (jobs_events evs s))"
  by (induction evs arbitrary: s) (auto simp: jobs_events_def jobs_event_ok)

lemma set_param_new: "k \<notin> set (map fst ps) \<Longrightarrow> set_param k v ps = ps @ [(k, v)]"
  by (induction k v ps rule: set_param.induct) auto

lemma fold_params:
  assumes "distinct (map fst t)" "set (map fst t) \<inter> set (map fst ps) = {}"
  shows "fold (\<lambda>(i, c) a. case c of None \<Rightarrow> a | Some v \<Rightarrow> set_param i (param_string v) a) t ps =
    ps @ List.map_filter (\<lambda>(k, v). map_option (\<lambda>x. (k, param_string x)) v) t"
  using assms
proof (induction t arbitrary: ps)
  case Nil
  then show ?case by (simp add: List.map_filter_def)
next
  case (Cons x t)
  obtain k v where x: "x = (k, v)" by (cases x)
  show ?case
  proof (cases v)
    case None
    then show ?thesis using Cons by (simp add: x List.map_filter_def)
  next
    case (Some p)
    then have "set_param k (param_string p) ps = ps @ [(k, param_string p)]"
      using Cons.prems by (simp add: x set_param_new)
    moreover have "set (map fst t) \<inter> set (map fst (ps @ [(k, param_string p)])) = {}"
      using Cons.prems by (auto simp: x)
    ultimately show ?thesis using Cons Some by (simp add: x List.map_filter_def)
  qed
qed


lemma map_filter_append: "List.map_filter f (xs @ ys) = List.map_filter f xs @ List.map_filter f ys"
  by (simp add: List.map_filter_def)

lemma map_filter_some:
  "List.map_filter (\<lambda>(k, v). map_option (\<lambda>x. (k, param_string x)) v)
     (map (\<lambda>(k, v). (k, map_option PStr v)) fs) = List.map_filter (\<lambda>(k, v). map_option (Pair k) v) fs"
  by (induction fs) (auto simp: List.map_filter_def)

text \<open>After any sequence of events on the jobs page no filter is the empty string and none is listed
  twice, so the query sent for the jobs holds each filter that is set at most once, with its value, and
  then the page and 25 per page.\<close>

lemma jobs_query:
  fixes evs :: "(ui_event \<times> string) list"
  defines "s \<equiv> jobs_events evs jobs_page_init"
  shows "filters_ok (jp_filters s) \<and>
    rq_url (call_request base (jobs_call s)) = base @ ''/ojs/v1/admin/jobs?'' @ params_string
      (List.map_filter (\<lambda>(k, v). map_option (Pair k) v) (jp_filters s) @
       [(''page'', int_string (jp_page s)), (''per_page'', int_string 25)])"
proof
  show ok: "filters_ok (jp_filters s)"
    unfolding s_def by (rule jobs_events_ok) (simp add: jobs_page_init_def filters_ok_def)
  let ?t = "map (\<lambda>(k, v). (k, map_option PStr v)) (jp_filters s) @
    [(''page'', Some (PInt (jp_page s))), (''per_page'', Some (PInt 25))]"
  have keys: "map fst ?t = map fst (jp_filters s) @ [''page'', ''per_page'']" by auto
  have "distinct (map fst ?t)"
    using ok unfolding keys filters_ok_def by auto
  then have "entries_params ?t = List.map_filter (\<lambda>(k, v). map_option (\<lambda>x. (k, param_string x)) v) ?t"
    using fold_params [of ?t "[]"] by (simp add: entries_params_def)
  then show "rq_url (call_request base (jobs_call s)) = base @ ''/ojs/v1/admin/jobs?'' @ params_string
      (List.map_filter (\<lambda>(k, v). map_option (Pair k) v) (jp_filters s) @
       [(''page'', int_string (jp_page s)), (''per_page'', int_string 25)])"
    by (simp add: jobs_call_def jobs_def request_def map_filter_append map_filter_some
      List.map_filter_simps)
qed

section \<open>Concrete instances\<close>

definition sample_detail :: job_detail where
  "sample_detail = \<lparr>jd_item = \<lparr>ji_id = ''j1'', ji_type = ''email'', ji_queue = ''default'',
     ji_state = ''discarded'', ji_attempt = 3, ji_created_at = ''2024-01-01''\<rparr>,
     jd_max_attempts = 3, jd_metadata = None, jd_args = JArr [], jd_meta = [], jd_errors = [],
     jd_result = JNull, jd_retry_policy = None\<rparr>"

end
