(* ===== verification/Router_Paths.thy ===== *)
theory Router_Paths
  imports JS_Prelude
begin

text \<open>
  The path functions of the router the admin UI bundles (react-router in
  \<open>internal/admin/dist/index-DxrWcVFD.js\<close>): parsing and printing locations (\<open>dv\<close>, \<open>Pb\<close>, \<open>YR\<close>), joining and
  resolving paths (\<open>Wc\<close>, \<open>Y3\<close>, \<open>m7\<close>, \<open>$q\<close>), the basename (\<open>rs\<close>), decoding (\<open>p7\<close>).
\<close>

section \<open>Locations\<close>

record rlocation =
  l_pathname :: string
  l_search :: string
  l_hash :: string

text \<open>The partial path \<open>dv\<close> returns: a part the string does not have is \<open>undefined\<close>.\<close>

record partial_path =
  pp_pathname :: "string option"
  pp_search :: "string option"
  pp_hash :: "string option"

definition dv :: "string \<Rightarrow> partial_path" where
  "dv e =
     (if e = [] then \<lparr>pp_pathname = None, pp_search = None, pp_hash = None\<rparr>
      else
        (let (hash, e) = (case index_of CHR ''#'' e of
               None \<Rightarrow> (None, e) | Some a \<Rightarrow> (Some (drop a e), take a e));
             (search, e) = (case index_of CHR ''?'' e of
               None \<Rightarrow> (None, e) | Some i \<Rightarrow> (Some (drop i e), take i e))
         in \<lparr>pp_pathname = (if e = [] then None else Some e), pp_search = search, pp_hash = hash\<rparr>))"

definition with_mark :: "char \<Rightarrow> string \<Rightarrow> string" where
  "with_mark c s = (if s \<noteq> [] \<and> s \<noteq> [c] then (if hd s = c then s else c # s) else [])"

text \<open>\<open>createPath\<close>.\<close>

definition Pb :: "string \<Rightarrow> string \<Rightarrow> string \<Rightarrow> string" where
  "Pb e t a = e @ with_mark CHR ''?'' t @ with_mark CHR ''#'' a"

definition or_else :: "string option \<Rightarrow> string \<Rightarrow> string" where
  "or_else v d = (case v of None \<Rightarrow> d | Some x \<Rightarrow> x)"

text \<open>\<open>createLocation\<close> of a string: what the string does not give comes from the current pathname.\<close>

definition YR :: "string \<Rightarrow> string \<Rightarrow> rlocation" where
  "YR e t = (let p = dv t in
     \<lparr>l_pathname = or_else (pp_pathname p) e, l_search = or_else (pp_search p) '''',
      l_hash = or_else (pp_hash p) ''''\<rparr>)"

definition b7 :: "string \<Rightarrow> string" where
  "b7 e = (if e = [] \<or> e = ''?'' then [] else if starts_with e ''?'' then e else CHR ''?'' # e)"

definition S7 :: "string \<Rightarrow> string" where
  "S7 e = (if e = [] \<or> e = ''#'' then [] else if starts_with e ''#'' then e else CHR ''#'' # e)"

section \<open>Slashes\<close>

text \<open>\<open>s.replace(/\/\/+/g, "/")\<close>\<close>

fun collapse :: "string \<Rightarrow> string" where
  "collapse [] = []"
| "collapse [c] = [c]"
| "collapse (c # d # s) =
     (if c = CHR ''/'' \<and> d = CHR ''/'' then collapse (d # s) else c # collapse (d # s))"

definition Wc :: "string list \<Rightarrow> string" where
  "Wc e = collapse (js_join ''/'' e)"

definition g7 :: "string \<Rightarrow> string" where
  "g7 e = CHR ''/'' # strip_start CHR ''/'' (strip_end CHR ''/'' e)"

text \<open>\<open>s.replace(/(.)\/+$/, "$1")\<close>: trailing slashes go, but not the first character.\<close>

definition trim_slashes :: "string \<Rightarrow> string" where
  "trim_slashes s = (case s of [] \<Rightarrow> [] | c # t \<Rightarrow> c # strip_end CHR ''/'' t)"

section \<open>Resolving\<close>

text \<open>One segment of the path on the stack of segments, which is held reversed.\<close>

definition Y3_step :: "string \<Rightarrow> string list \<Rightarrow> string list" where
  "Y3_step c a =
     (if c = ''..'' then (if 1 < length a then tl a else a)
      else if c \<noteq> ''.'' then c # a else a)"

definition Y3 :: "string \<Rightarrow> string \<Rightarrow> string" where
  "Y3 e t =
     (let a = fold Y3_step (js_split CHR ''/'' e) (rev (js_split CHR ''/'' (strip_end CHR ''/'' t)))
      in if 1 < length a then js_join ''/'' (rev a) else ''/'')"

definition m7 :: "partial_path \<Rightarrow> string \<Rightarrow> rlocation" where
  "m7 e t =
     (let s = (case pp_pathname e of
          None \<Rightarrow> t
        | Some a \<Rightarrow>
            if a = [] then t
            else (let a = collapse a in
                  if starts_with a ''/'' then Y3 (drop 1 a) ''/'' else Y3 a t))
      in \<lparr>l_pathname = s, l_search = b7 (or_else (pp_search e) ''''),
          l_hash = S7 (or_else (pp_hash e) '''')\<rparr>)"

text \<open>
  \<open>$q\<close>, \<open>resolveTo\<close>, of a string: \<open>t\<close> are the pathnames of the matched routes, \<open>a\<close> the current pathname,
  \<open>i\<close> whether \<open>..\<close> is relative to the path. The loop shifts leading \<open>..\<close> segments off.
\<close>

fun shift_dots :: "string list \<Rightarrow> int \<Rightarrow> string list \<times> int" where
  "shift_dots [] S = ([], S)"
| "shift_dots (x # xs) S = (if x = ''..'' then shift_dots xs (S - 1) else (x # xs, S))"

definition resolve_to :: "string \<Rightarrow> string list \<Rightarrow> string \<Rightarrow> bool \<Rightarrow> rlocation" where
  "resolve_to e t a i =
     (let c = dv e; s = (e = [] \<or> pp_pathname c = Some []);
          h = (if s then Some ''/'' else pp_pathname c);
          (c, y) = (case h of
              None \<Rightarrow> (c, a)
            | Some h \<Rightarrow>
                (let S = int (length t) - 1;
                     (c, S) = (if \<not> i \<and> starts_with h ''..'' then
                         (let (E, S) = shift_dots (js_split CHR ''/'' h) S
                          in (c\<lparr>pp_pathname := Some (js_join ''/'' E)\<rparr>, S))
                       else (c, S))
                 in (c, if 0 \<le> S then t ! nat S else ''/'')));
          g = m7 c y;
          b = (case h of None \<Rightarrow> False | Some h \<Rightarrow> h \<noteq> [] \<and> h \<noteq> ''/'' \<and> ends_with h ''/'');
          O' = ((s \<or> h = Some ''.'') \<and> ends_with a ''/'')
      in if \<not> ends_with (l_pathname g) ''/'' \<and> (b \<or> O')
         then g\<lparr>l_pathname := l_pathname g @ ''/''\<rparr> else g)"

section \<open>The basename\<close>

text \<open>\<open>stripBasename\<close>, \<open>None\<close> for \<open>null\<close>.\<close>

definition rs :: "string \<Rightarrow> string \<Rightarrow> string option" where
  "rs e t =
     (if t = ''/'' then Some e
      else if \<not> starts_with (js_lower e) (js_lower t) then None
      else
        (let a = (if ends_with t ''/'' then length t - 1 else length t) in
         if a < length e \<and> e ! a \<noteq> CHR ''/'' then None
         else (let r = drop a e in Some (if r = [] then ''/'' else r))))"

text \<open>\<open>useHref\<close>: the pathname a link points to under the basename.\<close>

definition D7_pathname :: "string \<Rightarrow> string \<Rightarrow> string" where
  "D7_pathname a s = (if a \<noteq> ''/'' then (if s = ''/'' then a else Wc [a, s]) else s)"

section \<open>Decoding\<close>

text \<open>Well-formed UTF-8, which \<open>decodeURIComponent\<close> demands of the decoded bytes.\<close>

definition in_range :: "nat \<Rightarrow> nat \<Rightarrow> char \<Rightarrow> bool" where
  "in_range lo hi c = (let n = (of_char c :: nat) in lo \<le> n \<and> n \<le> hi)"

fun utf8_ok :: "string \<Rightarrow> bool" where
  "utf8_ok [] = True"
| "utf8_ok (a # s) =
     (if in_range 0 0x7F a then utf8_ok s
      else (case s of
          [] \<Rightarrow> False
        | b # s1 \<Rightarrow>
            if in_range 0xC2 0xDF a then in_range 0x80 0xBF b \<and> utf8_ok s1
            else (case s1 of
                [] \<Rightarrow> False
              | c # s2 \<Rightarrow>
                  if in_range 0xE0 0xEF a then
                    (if in_range 0xE0 0xE0 a then in_range 0xA0 0xBF b
                     else if in_range 0xED 0xED a then in_range 0x80 0x9F b
                     else in_range 0x80 0xBF b) \<and> in_range 0x80 0xBF c \<and> utf8_ok s2
                  else (case s2 of
                      [] \<Rightarrow> False
                    | d # s3 \<Rightarrow>
                        in_range 0xF0 0xF4 a \<and>
                        (if in_range 0xF0 0xF0 a then in_range 0x90 0xBF b
                         else if in_range 0xF4 0xF4 a then in_range 0x80 0x8F b
                         else in_range 0x80 0xBF b) \<and>
                        in_range 0x80 0xBF c \<and> in_range 0x80 0xBF d \<and> utf8_ok s3))))"

definition decodeURIComponent :: "string \<Rightarrow> string option" where
  "decodeURIComponent s = (case percent_decode s of
     None \<Rightarrow> None | Some t \<Rightarrow> if utf8_ok t then Some t else None)"

text \<open>\<open>s.replace(/\//g, "%2F")\<close> and back.\<close>

definition escape_slash :: "string \<Rightarrow> string" where
  "escape_slash s = concat (map (\<lambda>c. if c = CHR ''/'' then ''%2F'' else [c]) s)"

fun unescape_slash :: "string \<Rightarrow> string" where
  "unescape_slash [] = []"
| "unescape_slash (c # s) =
     (if c = CHR ''%'' \<and> take 2 s = ''2F'' then CHR ''/'' # unescape_slash (drop 2 s)
      else c # unescape_slash s)"

fun map_all :: "('a \<Rightarrow> 'b option) \<Rightarrow> 'a list \<Rightarrow> 'b list option" where
  "map_all f [] = Some []"
| "map_all f (x # xs) = (case f x of
     None \<Rightarrow> None | Some y \<Rightarrow> map_option ((#) y) (map_all f xs))"

text \<open>\<open>decodePath\<close>: on a malformed escape the path is taken as it is.\<close>

definition p7 :: "string \<Rightarrow> string" where
  "p7 e = (case map_all decodeURIComponent (js_split CHR ''/'' e) of
     None \<Rightarrow> e | Some ts \<Rightarrow> js_join ''/'' (map escape_slash ts))"

text \<open>\<open>y7\<close>: an absolute URL, \<open>scheme:\<close> or \<open>//\<close>.\<close>

definition scheme_char :: "char \<Rightarrow> bool" where
  "scheme_char c = (is_alnum c \<or> c \<in> set ''+.-'')"

definition is_alpha :: "char \<Rightarrow> bool" where
  "is_alpha c = (let n = (of_char (lower_char c) :: nat) in 97 \<le> n \<and> n \<le> 122)"

definition y7 :: "string \<Rightarrow> bool" where
  "y7 s = (starts_with s ''//'' \<or>
     (s \<noteq> [] \<and> is_alpha (hd s) \<and>
      (case dropWhile scheme_char s of c # _ \<Rightarrow> c = CHR '':'' | [] \<Rightarrow> False)))"

section \<open>Round trips\<close>

lemma index_of_split:
  "index_of c s = Some n \<Longrightarrow> s = take n s @ c # drop (Suc n) s \<and> c \<notin> set (take n s)"
  by (induction s arbitrary: n) (auto split: if_splits)

lemma index_of_None: "index_of c s = None \<longleftrightarrow> c \<notin> set s"
  by (induction s) auto

lemma index_of_append:
  "c \<notin> set s \<Longrightarrow> index_of c (s @ c # t) = Some (length s)"
  by (induction s) auto

text \<open>
  C35: Printing a location and parsing the text gives the location back: for a pathname without \<open>?\<close> and
  \<open>#\<close> that is not empty, a search that is empty or starts with \<open>?\<close> and goes on without \<open>#\<close>, and a hash that is
  empty or starts with \<open>#\<close> and goes on.
\<close>

theorem location_roundtrip:
  assumes "p \<noteq> ''''" "CHR ''?'' \<notin> set p" "CHR ''#'' \<notin> set p"
    and "s = '''' \<or> (\<exists>t. t \<noteq> '''' \<and> s = CHR ''?'' # t \<and> CHR ''#'' \<notin> set t)"
    and "h = '''' \<or> (\<exists>t. t \<noteq> '''' \<and> h = CHR ''#'' # t)"
  shows "YR current (Pb p s h) = \<lparr>l_pathname = p, l_search = s, l_hash = h\<rparr>"
proof -
  have s: "with_mark CHR ''?'' s = s" and h: "with_mark CHR ''#'' h = h"
    using assms(4,5) by (auto simp: with_mark_def)
  have nh: "CHR ''#'' \<notin> set (p @ s)" using assms(3,4) by auto
  have hash: "index_of CHR ''#'' (p @ s @ h) = (if h = [] then None else Some (length (p @ s)))"
  proof (cases "h = []")
    case True
    then show ?thesis using nh by (simp add: index_of_None)
  next
    case False
    then obtain t where "h = CHR ''#'' # t" using assms(5) by auto
    then show ?thesis using index_of_append [OF nh, of t] by simp
  qed
  have srch: "index_of CHR ''?'' (p @ s) = (if s = [] then None else Some (length p))"
  proof (cases "s = []")
    case True
    then show ?thesis using assms(2) by (simp add: index_of_None)
  next
    case False
    then obtain t where "s = CHR ''?'' # t" using assms(4) by auto
    then show ?thesis using index_of_append [OF assms(2), of t] by simp
  qed
  have ne: "p @ s @ h \<noteq> []" using assms(1) by simp
  show ?thesis
    using assms(1) srch hash by (auto simp: YR_def Pb_def s h dv_def Let_def or_else_def)
qed

lemma location_roundtrip_witness:
  "YR ''/'' (Pb ''/queues'' ''?name=default'' '''') =
    \<lparr>l_pathname = ''/queues'', l_search = ''?name=default'', l_hash = ''''\<rparr>"
  by (rule location_roundtrip) simp_all

section \<open>No dots are left\<close>

text \<open>A segment that is neither \<open>.\<close> nor \<open>..\<close>.\<close>

definition plain_segment :: "string \<Rightarrow> bool" where
  "plain_segment x \<longleftrightarrow> x \<noteq> ''.'' \<and> x \<noteq> ''..''"

definition stack_ok :: "string list \<Rightarrow> bool" where
  "stack_ok a \<longleftrightarrow> a \<noteq> [] \<and> last a = [] \<and> (\<forall>x \<in> set a. plain_segment x \<and> CHR ''/'' \<notin> set x)"

lemma stack_ok_step:
  assumes "stack_ok a" "CHR ''/'' \<notin> set c"
  shows "stack_ok (Y3_step c a)"
proof -
  have "stack_ok (tl a)" if "1 < length a"
    using assms(1) that by (cases a) (auto simp: stack_ok_def split: if_splits)
  moreover have "stack_ok (c # a)" if "plain_segment c"
    using assms that by (auto simp: stack_ok_def)
  ultimately show ?thesis
    using assms(1) by (simp add: Y3_step_def plain_segment_def)
qed

lemma stack_ok_fold: "stack_ok a \<Longrightarrow> \<forall>c \<in> set cs. CHR ''/'' \<notin> set c \<Longrightarrow> stack_ok (fold Y3_step cs a)"
  by (induction cs arbitrary: a) (simp_all add: stack_ok_step)

lemma strip_end_append: "\<exists>k. s = strip_end c s @ replicate k c"
proof -
  have "\<forall>x \<in> set (takeWhile ((=) c) (rev s)). x = c" by (auto dest: set_takeWhileD)
  then have "takeWhile ((=) c) (rev s) = replicate (length (takeWhile ((=) c) (rev s))) c"
    by (metis replicate_length_same)
  then have "rev s = replicate (length (takeWhile ((=) c) (rev s))) c @ dropWhile ((=) c) (rev s)"
    by (metis takeWhile_dropWhile_id)
  then have "s = rev (dropWhile ((=) c) (rev s)) @ replicate (length (takeWhile ((=) c) (rev s))) c"
    by (metis rev_append rev_replicate rev_rev_ident)
  then show ?thesis by (auto simp: strip_end_def)
qed

lemma split_strip_subset: "set (js_split c (strip_end c s)) \<subseteq> set (js_split c s)"
proof -
  have "set (js_split c u) \<subseteq> set (js_split c (u @ replicate k c))" for u k
    by (cases k) (auto simp: js_split_append_sep)
  then show ?thesis by (metis strip_end_append)
qed

lemma stack_ok_base:
  assumes "t = CHR ''/'' # t'" "\<forall>x \<in> set (js_split CHR ''/'' t). plain_segment x"
  shows "stack_ok (rev (js_split CHR ''/'' (strip_end CHR ''/'' t)))"
proof -
  have "hd (js_split CHR ''/'' (strip_end CHR ''/'' t)) = []"
  proof (cases "strip_end CHR ''/'' t")
    case (Cons x u)
    then have "x = CHR ''/''" using strip_end_append [of t "CHR ''/''"] assms(1) by auto
    then show ?thesis using Cons by simp
  qed simp
  moreover have "plain_segment x \<and> CHR ''/'' \<notin> set x"
    if "x \<in> set (js_split CHR ''/'' (strip_end CHR ''/'' t))" for x
    using that assms(2) split_strip_subset js_split_pieces by blast
  ultimately show ?thesis by (simp add: stack_ok_def last_rev)
qed

text \<open>Resolving any path against an absolute base without dot segments gives an absolute path without dot
  segments: whatever \<open>..\<close> the path has, it never leaves the root.\<close>

lemma resolve_no_dots:
  assumes "t = CHR ''/'' # t'" "\<forall>x \<in> set (js_split CHR ''/'' t). plain_segment x"
  shows "starts_with (Y3 e t) ''/'' \<and> (\<forall>x \<in> set (js_split CHR ''/'' (Y3 e t)). plain_segment x)"
proof -
  define a where "a = fold Y3_step (js_split CHR ''/'' e) (rev (js_split CHR ''/'' (strip_end CHR ''/'' t)))"
  have a: "stack_ok a"
    unfolding a_def by (rule stack_ok_fold [OF stack_ok_base [OF assms]]) (use js_split_pieces in blast)
  show ?thesis
  proof (cases "1 < length a")
    case True
    have eq: "Y3 e t = js_join ''/'' (rev a)" using True by (simp add: Y3_def a_def Let_def)
    obtain b where b: "rev a = [] # b" "b \<noteq> []"
      using a True by (cases "rev a") (auto simp: stack_ok_def hd_rev [symmetric])
    have "starts_with (Y3 e t) ''/''" by (simp add: eq b js_join_Cons starts_with_def)
    moreover have "js_split CHR ''/'' (Y3 e t) = rev a"
      unfolding eq by (rule js_split_join) (use a in \<open>auto simp: stack_ok_def\<close>)
    ultimately show ?thesis using a by (simp add: stack_ok_def)
  next
    case False
    then have "Y3 e t = ''/''" by (simp add: Y3_def a_def Let_def)
    then show ?thesis by (simp add: starts_with_def plain_segment_def)
  qed
qed

section \<open>Links under a basename\<close>

fun no_double :: "string \<Rightarrow> bool" where
  "no_double [] = True"
| "no_double [c] = True"
| "no_double (c # d # s) \<longleftrightarrow> \<not> (c = CHR ''/'' \<and> d = CHR ''/'') \<and> no_double (d # s)"

lemma collapse_id: "no_double s \<Longrightarrow> collapse s = s"
  by (induction s rule: collapse.induct) auto

lemma no_double_collapse: "no_double (collapse s)"
proof (induction s rule: collapse.induct)
  case (3 c d s)
  have "hd (collapse (d # s)) = d \<and> collapse (d # s) \<noteq> []" for d s
    by (induction "d # s" arbitrary: d s rule: collapse.induct) auto
  then obtain u where "collapse (d # s) = d # u" by (metis list.collapse)
  then show ?case using 3 by auto
qed simp_all

lemma collapse_join:
  "no_double a \<Longrightarrow> a = [] \<or> last a \<noteq> CHR ''/'' \<Longrightarrow>
    collapse (a @ CHR ''/'' # CHR ''/'' # u) = a @ collapse (CHR ''/'' # u)"
  by (induction a rule: collapse.induct) auto

text \<open>A pathname inside the application survives the link: the address a link shows under the basename,
  stripped of the basename again, is the pathname, for every basename and pathname that start with a
  slash and have no empty segment, the basename without a slash at its end.\<close>

lemma basename_roundtrip:
  assumes "a = CHR ''/'' # a'" "no_double a" "last a \<noteq> CHR ''/''"
    and "s = CHR ''/'' # s'" "no_double s"
  shows "rs (D7_pathname a s) a = Some s"
proof -
  have a: "a \<noteq> ''/''" "\<not> ends_with a ''/''"
    using assms(1,3) by (auto simp: ends_with_def last_conv_nth drop_Suc nth_tl
      simp flip: Cons_nth_drop_Suc split: if_splits)
  have low: "starts_with (js_lower (a @ u)) (js_lower a)" for u
    by (simp add: starts_with_def js_lower_def)
  show ?thesis
  proof (cases "s = ''/''")
    case True
    then show ?thesis using a low [of "[]"] by (simp add: D7_pathname_def rs_def Let_def)
  next
    case False
    have "Wc [a, s] = a @ s"
      using assms collapse_join [OF assms(2), of s'] by (simp add: Wc_def collapse_id)
    then show ?thesis using a low [of s] False assms(4)
      by (simp add: D7_pathname_def rs_def Let_def nth_append)
  qed
qed

end
