(* ===== verification/Router_Match.thy ===== *)
theory Router_Match
  imports Router_Paths
begin

text \<open>
  Route matching of the bundled router: the route objects made from \<open><Route>\<close> elements (\<open>GR\<close>), their
  branches (\<open>Bq\<close>, with \<open>Lq\<close> for optional segments), the ranking (\<open>s7\<close>, \<open>f7\<close>, \<open>r7\<close>), a branch against
  a pathname (\<open>h7\<close>, \<open>wO\<close>, \<open>d7\<close>) and the search for the first match (\<open>n7\<close>, \<open>qq\<close>).

  \<open>h7\<close> compiles a path to a regular expression. Here it is compiled to pieces with the same meaning,
  and \<open>match_pieces\<close> is the backtracking matcher for them; a \<open>?\<close> never reaches it from the route table,
  since \<open>Bq\<close> hands it the paths \<open>Lq\<close> has expanded.
\<close>

section \<open>Route objects\<close>

datatype 'p route = Route
  (r_path: "string option") (r_index: bool) (r_case: bool) (r_element: "'p option")
  (r_children: "'p route list")

text \<open>
  The children of \<open><Routes>\<close>: what is no element, fragments, \<open><Route>\<close> elements with their props and
  children, other elements (by their name).
\<close>

datatype 'p route_child =
  NotAnElement
| Fragment "'p route_child list"
| RouteElement "string option" bool bool "'p option" "'p route_child list"
| OtherElement string

fun GR :: "'p route_child list \<Rightarrow> string + 'p route list" where
  "GR [] = Inr []"
| "GR (NotAnElement # cs) = GR cs"
| "GR (Fragment fs # cs) =
     (case GR fs of Inl e \<Rightarrow> Inl e
      | Inr xs \<Rightarrow> (case GR cs of Inl e \<Rightarrow> Inl e | Inr ys \<Rightarrow> Inr (xs @ ys)))"
| "GR (OtherElement n # cs) =
     Inl (''['' @ n @ ''] is not a <Route> component. All component children of <Routes> must be a <Route> or <React.Fragment>'')"
| "GR (RouteElement p idx cased el fs # cs) =
     (if idx \<and> fs \<noteq> [] then Inl ''An index route cannot have child routes.''
      else (case GR fs of Inl e \<Rightarrow> Inl e
        | Inr xs \<Rightarrow> (case GR cs of Inl e \<Rightarrow> Inl e
          | Inr ys \<Rightarrow> Inr (Route p idx cased el xs # ys))))"

section \<open>Optional segments\<close>

lemma length_js_join_tl:
  assumes "js_split c s = x # y # ys"
  shows "length (js_join [c] (y # ys)) < length s"
proof -
  have "s = js_join [c] (x # y # ys)" using js_join_split [of c s] assms by simp
  then show ?thesis by simp
qed

text \<open>
  The segments \<open>a\<close> (with its \<open>?\<close> taken off as \<open>s\<close>) and \<open>i\<close>: the expansions of the rest with \<open>s\<close> in front, then
  without it.
\<close>

definition strip_mark :: "string \<Rightarrow> string" where
  "strip_mark a = (if ends_with a ''?'' then butlast a else a)"

function Lq :: "string \<Rightarrow> string list" where
  "Lq e =
     (case js_split CHR ''/'' e of
        [] \<Rightarrow> []
      | [a] \<Rightarrow> if ends_with a ''?'' then [strip_mark a, ''''] else [strip_mark a]
      | a # b # bs \<Rightarrow>
          (let s = strip_mark a; h = Lq (js_join ''/'' (b # bs));
               y = map (\<lambda>g. if g = '''' then s else js_join ''/'' [s, g]) h @
                   (if ends_with a ''?'' then h else [])
           in map (\<lambda>g. if starts_with e ''/'' \<and> g = '''' then ''/'' else g) y))"
  by pat_completeness auto
termination
  by (relation "measure length") (auto dest: length_js_join_tl)

declare Lq.simps [simp del]

section \<open>Branches\<close>

record 'p meta =
  m_relativePath :: string
  m_caseSensitive :: bool
  m_childrenIndex :: nat
  m_route :: "'p route"

record 'p branch =
  br_path :: string
  br_score :: int
  br_metas :: "'p meta list"

text \<open>\<open>s7\<close>: a splat costs 2, an index earns 2; a parameter segment 3, an empty one 1, a static one 10.\<close>

definition word_char :: "char \<Rightarrow> bool" where
  "word_char c = (is_alnum c \<or> c = CHR ''_'' \<or> c = CHR ''-'')"

definition dynamic_segment :: "string \<Rightarrow> bool" where
  "dynamic_segment s = (case s of c # t \<Rightarrow> c = CHR '':'' \<and> t \<noteq> [] \<and> list_all word_char t | [] \<Rightarrow> False)"

definition s7 :: "string \<Rightarrow> bool \<Rightarrow> int" where
  "s7 e t =
     (let a = js_split CHR ''/'' e;
          i = int (length a) + (if ''*'' \<in> set a then -2 else 0) + (if t then 2 else 0)
      in fold (\<lambda>s c. c + (if dynamic_segment s then 3 else if s = '''' then 1 else 10))
           (filter (\<lambda>c. c \<noteq> ''*'') a) i)"

text \<open>The path variants of a route: itself, or the expansions of a path that has a \<open>?\<close>.\<close>

definition route_variants :: "bool \<Rightarrow> string option \<Rightarrow> (bool \<times> string) list" where
  "route_variants c p =
     (case p of
        None \<Rightarrow> [(c, '''')]
      | Some q \<Rightarrow> if CHR ''?'' \<in> set q then map (Pair True) (Lq q) else [(c, q)])"

fun concat_results :: "(string + 'a list) list \<Rightarrow> string + 'a list" where
  "concat_results [] = Inr []"
| "concat_results (Inl e # ts) = Inl e"
| "concat_results (Inr xs # ts) = map_sum id (append xs) (concat_results ts)"

text \<open>
  One variant \<open>b\<close> of the route \<open>h\<close> under the path \<open>i\<close>: an absolute path must extend \<open>i\<close>, or else is an error,
  or is skipped where it comes from an optional segment (\<open>g\<close>). \<open>kids\<close> are the branches of the children,
  as a function of the path and metas they hang under; they come before the route's own branch.
\<close>

definition route_branches ::
    "'p meta list \<Rightarrow> string \<Rightarrow> nat \<Rightarrow> 'p route \<Rightarrow> bool \<times> string \<Rightarrow>
     ('p meta list \<Rightarrow> string \<Rightarrow> bool \<Rightarrow> string + 'p branch list) \<Rightarrow> string + 'p branch list" where
  "route_branches a i y h gb kids =
     (case gb of (g, b) \<Rightarrow>
       if starts_with b ''/'' \<and> \<not> starts_with b i \<and> g then Inr []
       else if starts_with b ''/'' \<and> \<not> starts_with b i
       then Inl (''Absolute route path '' @ b @ '' nested under path '' @ i @ '' is not valid.'')
       else
         (let rel = (if starts_with b ''/'' then drop (length i) b else b);
              S = Wc [i, rel];
              E = a @ [\<lparr>m_relativePath = rel, m_caseSensitive = r_case h, m_childrenIndex = y,
                        m_route = h\<rparr>];
              own = (if r_path h = None \<and> \<not> r_index h then []
                     else [\<lparr>br_path = S, br_score = s7 S (r_index h), br_metas = E\<rparr>])
          in if r_children h = [] then Inr own
             else if r_index h then Inl ''Index routes must not have child routes.''
             else map_sum id (\<lambda>bs. bs @ own) (kids E S g)))"

fun Bq :: "'p meta list \<Rightarrow> string \<Rightarrow> bool \<Rightarrow> nat \<Rightarrow> 'p route list \<Rightarrow> string + 'p branch list" where
  "Bq a i c y [] = Inr []"
| "Bq a i c y (Route p idx cased el ch # hs) =
     concat_results [
       concat_results (map (\<lambda>gb. route_branches a i y (Route p idx cased el ch) gb
         (\<lambda>E S g. Bq E S g 0 ch)) (route_variants c p)),
       Bq a i c (Suc y) hs]"

section \<open>Ranking\<close>

text \<open>\<open>f7\<close>: siblings by position, anything else equal.\<close>

definition f7 :: "nat list \<Rightarrow> nat list \<Rightarrow> int" where
  "f7 e t = (if e \<noteq> [] \<and> length e = length t \<and> butlast e = butlast t
     then int (last e) - int (last t) else 0)"

definition compare_branches :: "'p branch \<Rightarrow> 'p branch \<Rightarrow> int" where
  "compare_branches t a =
     (if br_score t \<noteq> br_score a then br_score a - br_score t
      else f7 (map m_childrenIndex (br_metas t)) (map m_childrenIndex (br_metas a)))"

text \<open>
  \<open>Array.prototype.sort\<close> is stable; a comparator that is not a total preorder leaves the order to the
  engine, and this is the insertion sort engines use on short arrays.
\<close>

fun insert_by :: "('a \<Rightarrow> 'a \<Rightarrow> int) \<Rightarrow> 'a \<Rightarrow> 'a list \<Rightarrow> 'a list" where
  "insert_by cmp x [] = [x]"
| "insert_by cmp x (y # ys) = (if cmp x y < 0 then x # y # ys else y # insert_by cmp x ys)"

definition r7 :: "'p branch list \<Rightarrow> 'p branch list" where
  "r7 bs = fold (insert_by compare_branches) bs []"

section \<open>A pattern against a pathname\<close>

datatype piece = PLit char | PParam string

datatype final = FSplatAll | FSplat | FEnd | FPrefix | FAny

text \<open>\<open>/:name\<close> is a parameter, any other character stands for itself.\<close>

function parse_pieces :: "string \<Rightarrow> piece list" where
  "parse_pieces [] = []"
| "parse_pieces (c # s) =
     (if c = CHR ''/'' \<and> s \<noteq> [] \<and> hd s = CHR '':'' \<and> takeWhile word_char (tl s) \<noteq> []
      then PParam (takeWhile word_char (tl s)) # parse_pieces (dropWhile word_char (tl s))
      else PLit c # parse_pieces s)"
  by pat_completeness auto
termination
proof (relation "measure length")
  fix c :: char and s :: string
  have "length (dropWhile word_char (tl s)) \<le> length s"
    using length_dropWhile_le [of word_char "tl s"] by simp
  then show "(dropWhile word_char (tl s), c # s) \<in> measure length" by simp
qed auto

declare parse_pieces.simps [simp del]

definition drop_star :: "string \<Rightarrow> string" where
  "drop_star e = (if ends_with e ''*'' then butlast e else e)"

definition pattern_pieces :: "string \<Rightarrow> piece list" where
  "pattern_pieces e =
     parse_pieces (CHR ''/'' # strip_start CHR ''/'' (strip_end CHR ''/'' (drop_star e)))"

definition pattern_final :: "string \<Rightarrow> bool \<Rightarrow> final" where
  "pattern_final e end =
     (if ends_with e ''*'' then (if e = ''*'' \<or> e = ''/*'' then FSplatAll else FSplat)
      else if end then FEnd
      else if e \<noteq> '''' \<and> e \<noteq> ''/'' then FPrefix else FAny)"

text \<open>\<open>h7\<close>: the pieces, how the expression ends, and the names of its parameters.\<close>

definition h7 :: "string \<Rightarrow> bool \<Rightarrow> piece list \<times> final \<times> string list" where
  "h7 e end =
     (let ps = pattern_pieces e in
      (ps, pattern_final e end,
       List.map_filter (\<lambda>p. case p of PParam n \<Rightarrow> Some n | PLit _ \<Rightarrow> None) ps @
       (if ends_with e ''*'' then [''*''] else [])))"

definition all_slashes :: "string \<Rightarrow> bool" where
  "all_slashes s = list_all ((=) CHR ''/'') s"

text \<open>The end of the expression on what is left: the captures it adds and the rest it does not consume.\<close>

definition match_final :: "final \<Rightarrow> string \<Rightarrow> (string list \<times> string) option" where
  "match_final f s =
     (case f of
        FSplatAll \<Rightarrow> Some ([s], [])
      | FSplat \<Rightarrow>
          if starts_with s ''/'' \<and> 1 < length s then Some ([drop 1 s], [])
          else if all_slashes s then Some ([''''], []) else None
      | FEnd \<Rightarrow> if all_slashes s then Some ([], []) else None
      | FPrefix \<Rightarrow> if s = [] \<or> hd s = CHR ''/'' then Some ([], s) else None
      | FAny \<Rightarrow> Some ([], s))"

fun first_some :: "('a \<Rightarrow> 'b option) \<Rightarrow> 'a list \<Rightarrow> 'b option" where
  "first_some f [] = None"
| "first_some f (x # xs) = (case f x of None \<Rightarrow> first_some f xs | Some y \<Rightarrow> Some y)"

text \<open>A parameter takes the longest run without a slash first, and gives back when the rest fails.\<close>

fun match_pieces :: "bool \<Rightarrow> piece list \<Rightarrow> final \<Rightarrow> string \<Rightarrow> (string list \<times> string) option" where
  "match_pieces cs [] f s = match_final f s"
| "match_pieces cs (PLit c # ps) f s =
     (case s of
        [] \<Rightarrow> None
      | x # t \<Rightarrow>
          if (if cs then x = c else lower_char x = lower_char c) then match_pieces cs ps f t else None)"
| "match_pieces cs (PParam n # ps) f s =
     (case s of
        [] \<Rightarrow> None
      | x # t \<Rightarrow>
          if x \<noteq> CHR ''/'' then None
          else first_some (\<lambda>k. map_option (\<lambda>(caps, rest). (take k t # caps, rest))
                 (match_pieces cs ps f (drop k t)))
               (rev [1..<Suc (length (takeWhile ((\<noteq>) CHR ''/'') t))]))"

record path_match =
  pm_params :: "(string \<times> string) list"
  pm_pathname :: string
  pm_pathnameBase :: string

text \<open>\<open>wO\<close>, \<open>matchPath\<close>: the splat's value is cut off the base.\<close>

definition wO :: "string \<Rightarrow> bool \<Rightarrow> bool \<Rightarrow> string \<Rightarrow> path_match option" where
  "wO path cased end t =
     (case h7 path end of (ps, f, names) \<Rightarrow>
       (case match_pieces cased ps f t of
          None \<Rightarrow> None
        | Some (caps, rest) \<Rightarrow>
            (let s = take (length t - length rest) t;
                 base = (if ends_with path ''*''
                         then trim_slashes (take (length s - length (last caps)) s)
                         else trim_slashes s)
             in Some \<lparr>pm_params = zip names (map unescape_slash caps), pm_pathname = s,
                      pm_pathnameBase = base\<rparr>)))"

section \<open>A branch against a pathname\<close>

record 'p rmatch =
  rm_params :: "(string \<times> string) list"
  rm_pathname :: string
  rm_pathnameBase :: string
  rm_route :: "'p route"

text \<open>The loop of \<open>d7\<close>: \<open>c\<close> are the parameters so far, \<open>s\<close> the pathname matched so far.\<close>

fun d7_loop :: "string \<Rightarrow> 'p meta list \<Rightarrow> (string \<times> string) list \<Rightarrow> string \<Rightarrow>
    ((string \<times> string) list \<times> (string \<times> string \<times> 'p route) list) option" where
  "d7_loop t [] c s = Some (c, [])"
| "d7_loop t (g # gs) c s =
     (let O' = (if s = ''/'' then t else (let r = drop (length s) t in if r = [] then ''/'' else r)) in
      case wO (m_relativePath g) (m_caseSensitive g) (gs = []) O' of
        None \<Rightarrow> None
      | Some S \<Rightarrow>
          (let s' = (if pm_pathnameBase S \<noteq> ''/'' then Wc [s, pm_pathnameBase S] else s) in
           case d7_loop t gs (c @ pm_params S) s' of
             None \<Rightarrow> None
           | Some (c', ms) \<Rightarrow> Some (c',
               (Wc [s, pm_pathname S], g7 (Wc [s, pm_pathnameBase S]), m_route g) # ms)))"

text \<open>The parameter object is shared: every match of the branch ends up with all parameters.\<close>

definition d7 :: "'p branch \<Rightarrow> string \<Rightarrow> 'p rmatch list option" where
  "d7 e t =
     (case d7_loop t (br_metas e) [] ''/'' of
        None \<Rightarrow> None
      | Some (c, ms) \<Rightarrow> Some (map (\<lambda>(p, b, r).
          \<lparr>rm_params = c, rm_pathname = p, rm_pathnameBase = b, rm_route = r\<rparr>) ms))"

text \<open>\<open>n7\<close>, \<open>matchRoutes\<close>: the first branch that matches; \<open>Inl\<close> is an invariant of the routes violated.\<close>

definition n7 :: "'p route list \<Rightarrow> string \<Rightarrow> string \<Rightarrow> string + 'p rmatch list option" where
  "n7 e pathname a =
     (case rs (if pathname = '''' then ''/'' else pathname) a of
        None \<Rightarrow> Inr None
      | Some s \<Rightarrow>
          (case Bq [] '''' False 0 e of
             Inl err \<Rightarrow> Inl err
           | Inr bs \<Rightarrow> Inr (first_some (\<lambda>b. d7 b (p7 s)) (r7 bs))))"

end
