(* ===== verification/Router_App.thy ===== *)
theory Router_App
  imports Router_Match Admin_Pages
begin

text \<open>
  The router's components and hooks as the admin UI uses them, without a data router: the history
  (\<open>e7\<close>) over the window's, \<open>BrowserRouter\<close> and \<open>Router\<close> (\<open>J7\<close>), \<open>Routes\<close> (\<open>Qq\<close>, \<open>k7\<close>), links (\<open>kq\<close>, \<open>D7\<close>,
  \<open>dM\<close>, \<open>AP\<close>, \<open>rP\<close>), navigation (\<open>z7\<close>, \<open>T1\<close>, \<open>Hq\<close>) and \<open>NavLink\<close> (\<open>e8\<close>). URL parsing is the browser's and is
  a parameter where it is used. The admin UI's own route table closes the theory.
\<close>

section \<open>The history\<close>

text \<open>
  \<open>window.history\<close>: entries with the index the router stores in their state (\<open>None\<close> for an entry it did not
  make) and the position of the current one. \<open>h_index\<close> is the router's variable \<open>b\<close>, \<open>h_action\<close> its \<open>y\<close>, and
  \<open>h_events\<close> what the listener has been told: the action, the pathname and the delta (\<open>None\<close> for \<open>null\<close>).
\<close>

record history =
  h_entries :: "(string \<times> int option) list"
  h_pos :: nat
  h_index :: int
  h_action :: string
  h_events :: "(string \<times> string \<times> int option) list"

definition current_index :: "history \<Rightarrow> int option" where
  "current_index h = snd (h_entries h ! h_pos h)"

definition notify :: "int option \<Rightarrow> history \<Rightarrow> history" where
  "notify delta h = h\<lparr>h_events := h_events h @ [(h_action h, fst (h_entries h ! h_pos h), delta)]\<rparr>"

text \<open>Creation: an entry without an index is given the index 0.\<close>

definition e7_init :: "(string \<times> int option) list \<Rightarrow> nat \<Rightarrow> history" where
  "e7_init entries p =
     (let h = \<lparr>h_entries = entries, h_pos = p, h_index = 0, h_action = ''POP'', h_events = []\<rparr> in
      case current_index h of
        Some i \<Rightarrow> h\<lparr>h_index := i\<rparr>
      | None \<Rightarrow> h\<lparr>h_entries := entries[p := (fst (entries ! p), Some 0)]\<rparr>)"

text \<open>\<open>push\<close> (\<open>E\<close>): \<open>b = O() + 1\<close>, where \<open>null + 1\<close> is 1; \<open>pushState\<close> drops the entries ahead.\<close>

definition e7_push :: "string \<Rightarrow> history \<Rightarrow> history" where
  "e7_push url h =
     (let b = (case current_index h of None \<Rightarrow> 1 | Some i \<Rightarrow> i + 1)
      in notify (Some 1) (h\<lparr>h_action := ''PUSH'', h_index := b,
           h_entries := take (Suc (h_pos h)) (h_entries h) @ [(url, Some b)],
           h_pos := Suc (h_pos h)\<rparr>))"

text \<open>\<open>replace\<close> (\<open>w\<close>); the index kept in \<open>b\<close> is a number as long as the current entry has one.\<close>

definition e7_replace :: "string \<Rightarrow> history \<Rightarrow> history" where
  "e7_replace url h =
     (let b = current_index h
      in notify (Some 0) (h\<lparr>h_action := ''REPLACE'', h_index := (case b of None \<Rightarrow> 0 | Some i \<Rightarrow> i),
           h_entries := (h_entries h)[h_pos h := (url, b)]\<rparr>))"

text \<open>\<open>go\<close> and the browser's buttons: the browser moves, then the \<open>popstate\<close> listener \<open>S\<close> runs.\<close>

definition e7_pop :: "nat \<Rightarrow> history \<Rightarrow> history" where
  "e7_pop p h =
     (let h1 = h\<lparr>h_pos := p, h_action := ''POP''\<rparr>;
          R = current_index h1;
          N = (case R of None \<Rightarrow> None | Some i \<Rightarrow> Some (i - h_index h))
      in notify N (h1\<lparr>h_index := (case R of None \<Rightarrow> 0 | Some i \<Rightarrow> i)\<rparr>))"

datatype history_op = HPush string | HReplace string | HGo nat

fun history_step :: "history_op \<Rightarrow> history \<Rightarrow> history" where
  "history_step (HPush u) h = e7_push u h"
| "history_step (HReplace u) h = e7_replace u h"
| "history_step (HGo p) h = (if p < length (h_entries h) then e7_pop p h else h)"

section \<open>Where a relative path starts\<close>

text \<open>\<open>v7\<close> and \<open>Hq\<close>: the matches with a path of their own, each by its base, the last by its pathname.\<close>

definition v7 :: "'p rmatch list \<Rightarrow> 'p rmatch list" where
  "v7 e = (case e of [] \<Rightarrow> []
     | m # ms \<Rightarrow> m # filter (\<lambda>t. case r_path (rm_route t) of None \<Rightarrow> False | Some p \<Rightarrow> p \<noteq> '''') ms)"

definition Hq :: "'p rmatch list \<Rightarrow> string list" where
  "Hq e = (let t = v7 e in if t = [] then [] else map rm_pathnameBase (butlast t) @ [rm_pathname (last t)])"

text \<open>\<open>T1\<close>, \<open>useResolvedPath\<close>.\<close>

definition T1 :: "'p rmatch list \<Rightarrow> string \<Rightarrow> string \<Rightarrow> bool \<Rightarrow> rlocation" where
  "T1 matches pathname e path_relative = resolve_to e (Hq matches) pathname path_relative"

section \<open>Navigation\<close>

datatype nav_target = NavDelta int | NavTo string

datatype nav_effect = NGo int | NPush rlocation | NReplace rlocation

text \<open>The function \<open>useNavigate\<close> returns (\<open>z7\<close>); before the first effect it does nothing.\<close>

definition z7 :: "string \<Rightarrow> 'p rmatch list \<Rightarrow> string \<Rightarrow> bool \<Rightarrow> nav_target \<Rightarrow> bool \<Rightarrow> bool \<Rightarrow> nav_effect option" where
  "z7 t matches c mounted g rel_path replace =
     (if \<not> mounted then None
      else (case g of
          NavDelta n \<Rightarrow> Some (NGo n)
        | NavTo e \<Rightarrow>
            (let O' = T1 matches c e rel_path;
                 O' = (if t \<noteq> ''/'' then O'\<lparr>l_pathname :=
                        (if l_pathname O' = ''/'' then t else Wc [t, l_pathname O'])\<rparr> else O')
             in Some (if replace then NReplace O' else NPush O'))))"

section \<open>Links\<close>

record click =
  ck_button :: nat
  ck_meta :: bool
  ck_alt :: bool
  ck_ctrl :: bool
  ck_shift :: bool
  ck_prevented :: bool

definition nP :: "click \<Rightarrow> bool" where
  "nP e = (ck_meta e \<or> ck_alt e \<or> ck_ctrl e \<or> ck_shift e)"

definition rP :: "click \<Rightarrow> string \<Rightarrow> bool" where
  "rP e t = (ck_button e = 0 \<and> (t = '''' \<or> t = ''_self'') \<and> \<not> nP e)"

text \<open>\<open>parse\<close> is \<open>new URL\<close>: origin, pathname, search and hash, \<open>None\<close> when it throws.\<close>

record browser_url =
  u_origin :: string
  u_pathname :: string
  u_search :: string
  u_hash :: string

record window_env =
  we_protocol :: string
  we_origin :: string
  we_parse :: "string \<Rightarrow> browser_url option"

record link_target =
  lt_absolute :: "string option"
  lt_external :: bool
  lt_to :: string

definition kq :: "window_env \<Rightarrow> string \<Rightarrow> string \<Rightarrow> link_target" where
  "kq W e t =
     (if \<not> y7 e then \<lparr>lt_absolute = None, lt_external = False, lt_to = e\<rparr>
      else
        (case we_parse W (if starts_with e ''//'' then we_protocol W @ e else e) of
           None \<Rightarrow> \<lparr>lt_absolute = Some e, lt_external = False, lt_to = e\<rparr>
         | Some h \<Rightarrow>
             (case rs (u_pathname h) t of
                Some y \<Rightarrow>
                  if u_origin h = we_origin W
                  then \<lparr>lt_absolute = Some e, lt_external = False, lt_to = y @ u_search h @ u_hash h\<rparr>
                  else \<lparr>lt_absolute = Some e, lt_external = True, lt_to = e\<rparr>
              | None \<Rightarrow> \<lparr>lt_absolute = Some e, lt_external = True, lt_to = e\<rparr>)))"

text \<open>\<open>D7\<close>, \<open>useHref\<close>.\<close>

definition D7 :: "string \<Rightarrow> 'p rmatch list \<Rightarrow> string \<Rightarrow> string \<Rightarrow> string" where
  "D7 a matches current e =
     (let l = T1 matches current e False
      in Pb (D7_pathname a (l_pathname l)) (l_search l) (l_hash l))"

text \<open>
  The click handler \<open>AP\<close> makes: a plain left click is taken from the browser and navigates, replacing the
  entry when the link leads to where the user is. \<open>O\<close> is the current location, \<open>t\<close> the link's target attribute.
\<close>

definition AP :: "string \<Rightarrow> 'p rmatch list \<Rightarrow> rlocation \<Rightarrow> string \<Rightarrow> bool option \<Rightarrow> string \<Rightarrow> click \<Rightarrow> nav_effect option" where
  "AP base matches O' e a t E =
     (if rP E t then
        (let S = T1 matches (l_pathname O') e False;
             w = (case a of Some r \<Rightarrow> r
                  | None \<Rightarrow> Pb (l_pathname O') (l_search O') (l_hash O') = Pb (l_pathname S) (l_search S) (l_hash S))
         in z7 base matches (l_pathname O') True (NavTo e) False w)
      else None)"

text \<open>\<open>dM\<close>, the anchor of a link: its address, and what a click on it does.\<close>

definition link_href :: "window_env \<Rightarrow> string \<Rightarrow> 'p rmatch list \<Rightarrow> string \<Rightarrow> string \<Rightarrow> string" where
  "link_href W base matches current to =
     (let L = kq W to base in
      case lt_absolute L of Some u \<Rightarrow> u | None \<Rightarrow> D7 base matches current (lt_to L))"

definition link_click ::
    "window_env \<Rightarrow> string \<Rightarrow> 'p rmatch list \<Rightarrow> rlocation \<Rightarrow> string \<Rightarrow> bool \<Rightarrow> string \<Rightarrow> click \<Rightarrow> nav_effect option" where
  "link_click W base matches O' to reload target E =
     (let L = kq W to base in
      if lt_external L \<or> reload \<or> ck_prevented E then None
      else AP base matches O' (lt_to L) None target E)"

text \<open>\<open>e8\<close>: is the link to \<open>S\<close> active at \<open>L\<close>? \<open>enc\<close> is \<open>encodeLocation\<close> of a pathname.\<close>

definition nav_active :: "(string \<Rightarrow> string) \<Rightarrow> bool \<Rightarrow> bool \<Rightarrow> string \<Rightarrow> string \<Rightarrow> bool" where
  "nav_active enc cased end S L =
     (let N = enc S;
          (L, N) = (if cased then (L, N) else (js_lower L, js_lower N));
          p = (if N \<noteq> ''/'' \<and> ends_with N ''/'' then length N - 1 else length N)
      in L = N \<or> (\<not> end \<and> starts_with L N \<and> p < length L \<and> L ! p = CHR ''/''))"

section \<open>Routes\<close>

text \<open>\<open>J7\<close>: the location below the basename, \<open>None\<close> when the URL is not below it.\<close>

definition J7_basename :: "string \<Rightarrow> string" where
  "J7_basename e = CHR ''/'' # strip_start CHR ''/'' e"

definition J7 :: "string \<Rightarrow> rlocation \<Rightarrow> rlocation option" where
  "J7 e l = map_option (\<lambda>C. l\<lparr>l_pathname := C\<rparr>) (rs (l_pathname l) (J7_basename e))"

text \<open>What is rendered: an element with what its outlet shows, or nothing.\<close>

datatype 'p rendered = Empty | Rendered 'p "'p rendered"

text \<open>\<open>k7\<close> without a data router.\<close>

definition k7 :: "'p rmatch list option \<Rightarrow> 'p rendered" where
  "k7 e = (case e of None \<Rightarrow> Empty
     | Some ms \<Rightarrow> foldr (\<lambda>S O'. case r_element (rm_route S) of
         Some el \<Rightarrow> Rendered el O' | None \<Rightarrow> O') ms Empty)"

text \<open>
  \<open>Qq\<close>, \<open>useRoutes\<close>: matching starts behind the base \<open>O\<close> of the parent match \<open>y\<close>; the matches' pathnames are
  encoded again and put behind \<open>O\<close>, and they inherit the parent's parameters.
\<close>

definition encode_marks :: "string \<Rightarrow> string" where
  "encode_marks s = concat (map (\<lambda>c. if c = CHR ''?'' then ''%3F'' else if c = CHR ''#'' then ''%23'' else [c]) s)"

definition after_base :: "string \<Rightarrow> string \<Rightarrow> string" where
  "after_base O' D = (if O' = ''/'' then D
     else (let drop1 = (\<lambda>s. if starts_with s ''/'' then drop 1 s else s);
               U = js_split CHR ''/'' (drop1 O')
           in CHR ''/'' # js_join ''/'' (drop (length U) (js_split CHR ''/'' (drop1 D)))))"

definition Qq :: "(string \<Rightarrow> string) \<Rightarrow> 'p rmatch option \<Rightarrow> 'p route list \<Rightarrow> rlocation \<Rightarrow> string + 'p rmatch list option" where
  "Qq enc y e E =
     (let g = (case y of None \<Rightarrow> [] | Some m \<Rightarrow> rm_params m);
          O' = (case y of None \<Rightarrow> ''/'' | Some m \<Rightarrow> rm_pathnameBase m);
          D = (if l_pathname E = '''' then ''/'' else l_pathname E)
      in case n7 e (after_base O' D) ''/'' of
           Inl err \<Rightarrow> Inl err
         | Inr R \<Rightarrow> Inr (map_option (map (\<lambda>U. U\<lparr>
             rm_params := g @ rm_params U,
             rm_pathname := Wc [O', enc (encode_marks (rm_pathname U))],
             rm_pathnameBase := (if rm_pathnameBase U = ''/'' then O'
               else Wc [O', enc (encode_marks (rm_pathnameBase U))])\<rparr>)) R))"

text \<open>A router with a basename over a \<open>Routes\<close> element: what it shows at a location.\<close>

definition app_matches :: "(string \<Rightarrow> string) \<Rightarrow> string \<Rightarrow> 'p route_child list \<Rightarrow> rlocation \<Rightarrow> string + 'p rmatch list option" where
  "app_matches enc base cs l =
     (case J7 base l of
        None \<Rightarrow> Inr None
      | Some E \<Rightarrow> (case GR cs of Inl e \<Rightarrow> Inl e | Inr rts \<Rightarrow> Qq enc None rts E))"

definition app_view :: "(string \<Rightarrow> string) \<Rightarrow> string \<Rightarrow> 'p route_child list \<Rightarrow> rlocation \<Rightarrow> string + 'p rendered" where
  "app_view enc base cs l = map_sum id k7 (app_matches enc base cs l)"

section \<open>The admin UI\<close>

datatype admin_element = LayoutElement | PageElement page

definition Gre :: "admin_element route_child list" where
  "Gre = [RouteElement None False False (Some LayoutElement)
     (map (\<lambda>(p, pg). RouteElement p (p = None) False (Some (PageElement pg)) []) admin_pages)]"

end
