(* ===== verification/Router_Admin.thy ===== *)
theory Router_Admin
  imports Router_App
begin

text \<open>
  The admin UI's pages under the router: which page an address shows, where the sidebar's links lead,
  and what the router's history keeps.
\<close>

section \<open>Literal patterns\<close>

lemma match_literals:
  "match_pieces False (map PLit l) FEnd s =
    (if length l \<le> length s \<and> js_lower (take (length l) s) = js_lower l \<and>
        all_slashes (drop (length l) s)
     then Some ([], []) else None)"
proof (induction l arbitrary: s)
  case Nil
  then show ?case by (simp add: match_final_def js_lower_def)
next
  case (Cons c l)
  then show ?case by (cases s) (auto simp: js_lower_def)
qed

lemma lower_slash: "lower_char c = CHR ''/'' \<longleftrightarrow> c = CHR ''/''"
proof
  assume l: "lower_char c = CHR ''/''"
  show "c = CHR ''/''"
  proof (cases "65 \<le> (of_char c :: nat) \<and> (of_char c :: nat) \<le> 90")
    case True
    then have "(of_char (lower_char c) :: nat) = of_char c + 32"
      by (simp add: lower_char_def Let_def of_char_of)
    then show ?thesis using l True by simp
  next
    case False
    then show ?thesis using l by (auto simp: lower_char_def Let_def)
  qed
qed (simp add: lower_char_def Let_def)

lemma strip_end_slashes: "all_slashes v \<Longrightarrow> strip_end CHR ''/'' (u @ v) = strip_end CHR ''/'' u"
proof -
  assume "all_slashes v"
  then have "dropWhile ((=) CHR ''/'') (rev v @ rev u) = dropWhile ((=) CHR ''/'') (rev u)"
    by (subst dropWhile_append2) (auto simp: all_slashes_def list_all_iff)
  then show ?thesis by (simp add: strip_end_def)
qed

lemma strip_end_id: "u = [] \<or> last u \<noteq> c \<Longrightarrow> strip_end c u = u"
  by (cases u rule: rev_cases) (auto simp: strip_end_def)

lemma strip_end_drop: "all_slashes (drop (length (strip_end CHR ''/'' s)) s)"
proof -
  obtain k where "s = strip_end CHR ''/'' s @ replicate k CHR ''/''"
    using strip_end_append by blast
  then have "drop (length (strip_end CHR ''/'' s)) s = replicate k CHR ''/''"
    by (metis append_eq_conv_conj)
  then show ?thesis by (simp add: all_slashes_def list_all_iff)
qed

lemma strip_end_take: "take (length (strip_end c s)) s = strip_end c s"
  using strip_end_append [of s c] by (metis append_eq_conv_conj)

text \<open>A pattern that does not end in a slash matches what equals it up to case and slashes at the end.\<close>

lemma literal_iff:
  assumes "l \<noteq> []" "last l \<noteq> CHR ''/''" "js_lower l = l"
  shows "(length l \<le> length s \<and> js_lower (take (length l) s) = js_lower l \<and>
      all_slashes (drop (length l) s)) \<longleftrightarrow> js_lower (strip_end CHR ''/'' s) = l"
proof
  assume *: "length l \<le> length s \<and> js_lower (take (length l) s) = js_lower l \<and>
    all_slashes (drop (length l) s)"
  define u where "u = take (length l) s"
  have u: "js_lower u = l" "u \<noteq> []" using * assms by (auto simp: u_def)
  then have "lower_char (last u) = last l" by (metis js_lower_def last_map)
  then have "last u \<noteq> CHR ''/''" using assms(2) lower_slash by metis
  then have "strip_end CHR ''/'' u = u" by (simp add: strip_end_id)
  moreover have "strip_end CHR ''/'' s = strip_end CHR ''/'' u"
    using strip_end_slashes [of "drop (length l) s" u] * by (simp add: u_def)
  ultimately show "js_lower (strip_end CHR ''/'' s) = l" using u by simp
next
  assume *: "js_lower (strip_end CHR ''/'' s) = l"
  then have len: "length (strip_end CHR ''/'' s) = length l" by (auto simp: js_lower_def)
  then have "length l \<le> length s"
    by (metis strip_end_take length_take min.cobounded1 min_def)
  then show "length l \<le> length s \<and> js_lower (take (length l) s) = js_lower l \<and>
      all_slashes (drop (length l) s)"
    using * strip_end_drop [of s] strip_end_take [of "CHR ''/''" s] assms(3) by (simp add: len)
qed

section \<open>The branches of the admin UI\<close>

definition page_route :: "string option \<times> page \<Rightarrow> admin_element route" where
  "page_route x = Route (fst x) (fst x = None) False (Some (PageElement (snd x))) []"

definition layout_route :: "admin_element route" where
  "layout_route = Route None False False (Some LayoutElement) (map page_route admin_pages)"

definition page_branch :: "nat \<Rightarrow> string option \<times> page \<Rightarrow> admin_element branch" where
  "page_branch y x = \<lparr>br_path = CHR ''/'' # or_else (fst x) '''',
     br_score = (if fst x = None then 6 else 13),
     br_metas = [\<lparr>m_relativePath = '''', m_caseSensitive = False, m_childrenIndex = 0,
         m_route = layout_route\<rparr>,
       \<lparr>m_relativePath = or_else (fst x) '''', m_caseSensitive = False, m_childrenIndex = y,
         m_route = page_route x\<rparr>]\<rparr>"

lemma admin_routes: "GR Gre = Inr [layout_route]"
  by code_simp

lemma admin_branches:
  "map_sum id r7 (Bq [] '''' False 0 [layout_route]) =
   Inr [page_branch 1 (Some ''queues'', QueuesPage), page_branch 2 (Some ''jobs'', JobsPage),
     page_branch 3 (Some ''workers'', WorkersPage), page_branch 4 (Some ''dead-letter'', DeadLetterPage),
     page_branch 5 (Some ''settings'', SettingsPage), page_branch 0 (None, Dashboard)]"
  by code_simp

lemma h7_pages:
  "h7 '''' False = ([PLit CHR ''/''], FAny, [])"
  "h7 '''' True = (map PLit ''/'', FEnd, [])"
  "h7 ''queues'' True = (map PLit ''/queues'', FEnd, [])"
  "h7 ''jobs'' True = (map PLit ''/jobs'', FEnd, [])"
  "h7 ''workers'' True = (map PLit ''/workers'', FEnd, [])"
  "h7 ''dead-letter'' True = (map PLit ''/dead-letter'', FEnd, [])"
  "h7 ''settings'' True = (map PLit ''/settings'', FEnd, [])"
  by code_simp+

text \<open>Does the page with this path show at the decoded pathname \<open>t\<close>?\<close>

definition page_at :: "string \<Rightarrow> string option \<times> page \<Rightarrow> bool" where
  "page_at t x \<longleftrightarrow> js_lower (strip_end CHR ''/'' t) =
     (case fst x of None \<Rightarrow> '''' | Some p \<Rightarrow> CHR ''/'' # p)"

lemma all_slashes_strip: "all_slashes t \<longleftrightarrow> strip_end CHR ''/'' t = []"
  by (auto simp: strip_end_def all_slashes_def list_all_iff dropWhile_eq_Nil_conv)

lemma d7_page:
  assumes "t = CHR ''/'' # t'" "x \<in> set admin_pages"
  shows "map_option (map (\<lambda>m. r_element (rm_route m))) (d7 (page_branch y x) t) =
    (if page_at t x then Some [Some LayoutElement, Some (PageElement (snd x))] else None)"
proof -
  have layout: "wO '''' False False t = Some \<lparr>pm_params = [], pm_pathname = ''/'', pm_pathnameBase = ''/''\<rparr>"
    by (simp add: wO_def h7_pages assms(1) match_final_def trim_slashes_def strip_end_def ends_with_def Let_def)
  have page: "(wO (or_else (fst x) '''') False True t \<noteq> None) = page_at t x"
  proof (cases "fst x")
    case None
    have "length t > 0" by (simp add: assms(1))
    then have "(wO '''' False True t \<noteq> None) \<longleftrightarrow> all_slashes t"
      unfolding wO_def h7_pages(2) prod.case match_literals
      by (simp add: assms(1) js_lower_def all_slashes_def Let_def)
    then show ?thesis using None by (simp add: or_else_def page_at_def all_slashes_strip js_lower_def)
  next
    case (Some p)
    then have p: "h7 p True = (map PLit (CHR ''/'' # p), FEnd, [])" "p \<noteq> []" "last p \<noteq> CHR ''/''"
        "js_lower (CHR ''/'' # p) = CHR ''/'' # p"
      using assms(2) by (auto simp: admin_pages_def h7_pages js_lower_def lower_char_def Let_def)
    have "(wO p False True t \<noteq> None) \<longleftrightarrow>
        js_lower (strip_end CHR ''/'' t) = CHR ''/'' # p"
      using literal_iff [of "CHR ''/'' # p" t] p(2-4)
      unfolding wO_def p(1) prod.case match_literals by (simp add: Let_def split: if_splits)
    then show ?thesis using Some by (simp add: or_else_def page_at_def)
  qed
  show ?thesis
    using page layout
    by (cases "wO (or_else (fst x) '''') False True t")
       (auto simp: d7_def page_branch_def Let_def layout_route_def page_route_def)
qed

section \<open>Which page an address shows\<close>

definition render_elements :: "'p option list option \<Rightarrow> 'p rendered" where
  "render_elements e = (case e of None \<Rightarrow> Empty
     | Some es \<Rightarrow> foldr (\<lambda>el O'. case el of Some x \<Rightarrow> Rendered x O' | None \<Rightarrow> O') es Empty)"

lemma k7_elements: "k7 ms = render_elements (map_option (map (\<lambda>m. r_element (rm_route m))) ms)"
  by (cases ms) (simp_all add: k7_def render_elements_def foldr_map comp_def)

lemma rs_slash:
  assumes "rs e t = Some q" "t \<noteq> ''/''" "\<not> ends_with t ''/''"
  shows "\<exists>u. q = CHR ''/'' # u"
proof -
  have "length t < length e \<Longrightarrow> e ! length t = CHR ''/'' \<Longrightarrow> \<exists>u. drop (length t) e = CHR ''/'' # u"
    by (metis Cons_nth_drop_Suc)
  then show ?thesis
    using assms by (auto simp: rs_def Let_def split: if_splits)
qed

lemma rs_root: "rs e ''/'' = Some e"
  by (simp add: rs_def)

lemma map_all_length: "map_all f xs = Some ys \<Longrightarrow> length ys = length xs"
  by (induction xs arbitrary: ys) (auto split: option.splits)

lemma p7_slash: "\<exists>u. p7 (CHR ''/'' # q) = CHR ''/'' # u"
proof (cases "map_all decodeURIComponent (js_split CHR ''/'' q)")
  case None
  then show ?thesis by (simp add: p7_def decodeURIComponent_def)
next
  case (Some ts)
  then have "ts \<noteq> []" using map_all_length [OF Some] by (metis js_split_neq_Nil length_0_conv)
  then show ?thesis
    using Some by (simp add: p7_def decodeURIComponent_def escape_slash_def js_join_Cons)
qed

lemma first_page:
  assumes "t = CHR ''/'' # t'"
  shows "render_elements (map_option (map (\<lambda>m. r_element (rm_route m)))
      (first_some (\<lambda>b. d7 b t) (projr (map_sum id r7 (Bq [] '''' False 0 [layout_route]))))) =
    (case find (page_at t) admin_pages of
       None \<Rightarrow> Empty
     | Some x \<Rightarrow> Rendered LayoutElement (Rendered (PageElement (snd x)) Empty))"
proof -
  define V where "V = (\<lambda>bs :: admin_element branch list.
    render_elements (map_option (map (\<lambda>m. r_element (rm_route m))) (first_some (\<lambda>b. d7 b t) bs)))"
  have V: "render_elements (map_option (map (\<lambda>m. r_element (rm_route m)))
      (first_some (\<lambda>b. d7 b t) bs)) = V bs" for bs
    by (simp add: V_def)
  have V_Nil: "V [] = Empty" by (simp add: V_def render_elements_def)
  have step: "V (page_branch y x # bs) =
    (if page_at t x then Rendered LayoutElement (Rendered (PageElement (snd x)) Empty) else V bs)"
    if "x \<in> set admin_pages" for x y bs
    using d7_page [OF assms that, of y]
    by (cases "d7 (page_branch y x) t") (auto simp: V_def render_elements_def split: if_splits)
  have mem: "(Some ''queues'', QueuesPage) \<in> set admin_pages" "(Some ''jobs'', JobsPage) \<in> set admin_pages"
    "(Some ''workers'', WorkersPage) \<in> set admin_pages"
    "(Some ''dead-letter'', DeadLetterPage) \<in> set admin_pages"
    "(Some ''settings'', SettingsPage) \<in> set admin_pages" "(None, Dashboard) \<in> set admin_pages"
    by (simp_all add: admin_pages_def)
  show ?thesis
    unfolding admin_branches sum.sel V
    by (simp only: step [OF mem(1)] step [OF mem(2)] step [OF mem(3)] step [OF mem(4)] step [OF mem(5)]
        step [OF mem(6)] V_Nil)
       (simp add: admin_pages_def page_at_def)
qed

text \<open>
  C34: The admin UI shows, at an address below its basename, the page whose path equals the decoded rest of
  the address up to case and slashes at the end, inside the layout, and nothing at any other address.
\<close>

theorem admin_page_at_address:
  assumes "rs (l_pathname l) default_basename = Some q"
  shows "app_view enc default_basename Gre l = Inr (case find (page_at (p7 q)) admin_pages of
      None \<Rightarrow> Empty
    | Some x \<Rightarrow> Rendered LayoutElement (Rendered (PageElement (snd x)) Empty))"
proof -
  have base: "J7_basename default_basename = default_basename"
    by (simp add: J7_basename_def default_basename_def strip_start_def)
  obtain u where q: "q = CHR ''/'' # u"
    using rs_slash [OF assms] by (auto simp: default_basename_def ends_with_def)
  obtain v where v: "p7 q = CHR ''/'' # v" using p7_slash q by blast
  obtain bs where bs: "Bq [] '''' False 0 [layout_route] = Inr bs"
    using admin_branches by (cases "Bq [] '''' False 0 [layout_route]") auto
  have elements: "k7 (map_option (map f) ms) = k7 ms"
    if "\<And>m. rm_route (f m) = rm_route m" for ms :: "admin_element rmatch list option" and f
    by (simp add: k7_elements option.map_comp comp_def that)
  have "app_view enc default_basename Gre l =
      Inr (k7 (first_some (\<lambda>b. d7 b (p7 q)) (r7 bs)))"
    by (simp add: app_view_def app_matches_def J7_def base assms admin_routes Qq_def after_base_def
      n7_def rs_root q bs Let_def elements)
  also have "\<dots> = Inr (case find (page_at (p7 q)) admin_pages of
      None \<Rightarrow> Empty
    | Some x \<Rightarrow> Rendered LayoutElement (Rendered (PageElement (snd x)) Empty))"
    using first_page [OF v] by (simp add: k7_elements bs)
  finally show ?thesis .
qed

lemma admin_page_at_address_witness:
  "app_view (\<lambda>x. x) default_basename Gre
     \<lparr>l_pathname = ''/ojs/admin/Jobs/'', l_search = '''', l_hash = ''''\<rparr> =
   Inr (Rendered LayoutElement (Rendered (PageElement JobsPage) Empty))"
proof -
  have r: "rs (l_pathname \<lparr>l_pathname = ''/ojs/admin/Jobs/'', l_search = '''', l_hash = ''''\<rparr>)
      default_basename = Some ''/Jobs/''" by code_simp
  have "find (page_at (p7 ''/Jobs/'')) admin_pages = Some (Some ''jobs'', JobsPage)" by code_simp
  then show ?thesis
    using admin_page_at_address [OF r, where enc = "\<lambda>x. x"] by simp
qed

section \<open>What the history keeps\<close>

text \<open>Every entry carries its position as its index, and the router's variable is the current one.\<close>

definition history_ok :: "history \<Rightarrow> bool" where
  "history_ok h \<longleftrightarrow> h_pos h < length (h_entries h) \<and> h_index h = int (h_pos h) \<and>
     map snd (h_entries h) = map (\<lambda>k. Some (int k)) [0..<length (h_entries h)]"

lemma history_ok_nth: "history_ok h \<Longrightarrow> k < length (h_entries h) \<Longrightarrow> snd (h_entries h ! k) = Some (int k)"
proof -
  assume "history_ok h" "k < length (h_entries h)"
  then have "map snd (h_entries h) ! k = map (\<lambda>k. Some (int k)) [0..<length (h_entries h)] ! k"
    by (simp add: history_ok_def)
  then show ?thesis using \<open>k < length (h_entries h)\<close> by simp
qed

lemma current_index_ok: "history_ok h \<Longrightarrow> current_index h = Some (int (h_pos h))"
  using history_ok_nth [of h "h_pos h"] by (simp add: current_index_def history_ok_def)

lemma notify_sel [simp]:
  "h_entries (notify d h) = h_entries h" "h_pos (notify d h) = h_pos h" "h_index (notify d h) = h_index h"
  by (simp_all add: notify_def)

lemma history_ok_push: "history_ok h \<Longrightarrow> history_ok (e7_push u h)"
proof -
  assume ok: "history_ok h"
  then have len: "min (length (h_entries h)) (Suc (h_pos h)) = Suc (h_pos h)"
    by (simp add: history_ok_def)
  have "map snd (take (Suc (h_pos h)) (h_entries h)) = map (\<lambda>k. Some (int k)) [0..<Suc (h_pos h)]"
    using ok by (simp add: history_ok_def take_map [symmetric] del: upt_Suc) (simp add: take_map take_upt del: upt_Suc)
  then show ?thesis
    using ok by (simp add: e7_push_def current_index_ok Let_def history_ok_def len)
qed

lemma history_ok_replace: "history_ok h \<Longrightarrow> history_ok (e7_replace u h)"
proof -
  assume ok: "history_ok h"
  have "map snd ((h_entries h)[h_pos h := (u, Some (int (h_pos h)))]) = map snd (h_entries h)"
    using history_ok_nth [OF ok] ok
    by (simp add: map_update history_ok_def list_update_same_conv)
  then show ?thesis
    using ok by (simp add: e7_replace_def current_index_ok Let_def history_ok_def)
qed

lemma history_ok_step: "history_ok h \<Longrightarrow> history_ok (history_step op h)"
proof (cases op)
  case (HGo p)
  assume ok: "history_ok h"
  show ?thesis
  proof (cases "p < length (h_entries h)")
    case True
    then show ?thesis
      using ok history_ok_nth [OF ok True]
      by (simp add: HGo e7_pop_def current_index_def Let_def history_ok_def)
  qed (simp add: HGo ok)
qed (simp_all add: history_ok_push history_ok_replace)

lemma history_ok_run: "history_ok h \<Longrightarrow> history_ok (fold history_step ops h)"
  by (induction ops arbitrary: h) (simp_all add: history_ok_step)

text \<open>In a session that starts on one entry, whatever is pushed, replaced and gone to, each history entry's
  index is its position, and going to an entry tells the listener exactly how far the move was.\<close>

lemma history_indices:
  fixes ops :: "history_op list" and url :: string
  defines "h \<equiv> fold history_step ops (e7_init [(url, None)] 0)"
  assumes "p < length (h_entries h)"
  shows "map snd (h_entries h) = map (\<lambda>k. Some (int k)) [0..<length (h_entries h)] \<and>
    h_index h = int (h_pos h) \<and>
    last (h_events (history_step (HGo p) h)) =
      (''POP'', fst (h_entries h ! p), Some (int p - int (h_pos h)))"
proof -
  have "history_ok (e7_init [(url, None)] 0)"
    by (simp add: e7_init_def current_index_def Let_def history_ok_def)
  then have ok: "history_ok h" unfolding h_def by (rule history_ok_run)
  then show ?thesis
    using assms(2) history_ok_nth [OF ok assms(2)]
    by (simp add: e7_pop_def current_index_def Let_def notify_def history_ok_def)
qed

end
