(* ===== verification/React_Lanes.thy ===== *)
theory React_Lanes
  imports JS_Prelude "HOL-Library.Word"
begin

text \<open>
  The lane model of the bundled React (\<open>internal/admin/dist/index-DxrWcVFD.js\<close>, from \<open>clz32\<close> to
  \<open>lanesToEventPriority\<close>, with the functions of the root scheduler that keep a root's lanes): a set of
  lanes is a 32-bit integer, lower bits are more urgent. JavaScript's bitwise operators work on
  signed 32-bit integers; a lane set is the word with the same bits, and the comparisons of the code
  are the signed ones.
\<close>

unbundle bit_operations_syntax

type_synonym lanes = "32 word"

section \<open>Highest and lowest lane\<close>

text \<open>\<open>Math.clz32\<close>, and the index of the highest lane of a non-empty set, \<open>31 - clz32(l)\<close>.\<close>

definition clz32 :: "lanes \<Rightarrow> nat" where
  "clz32 l = length (takeWhile (\<lambda>i. \<not> bit l i) (rev [0..<32]))"

definition top_lane :: "lanes \<Rightarrow> nat" where
  "top_lane l = 31 - clz32 l"

definition lane_at :: "nat \<Rightarrow> lanes" where
  "lane_at i = push_bit i 1"

definition low_lane :: "lanes \<Rightarrow> lanes" where
  "low_lane l = l AND - l"

section \<open>Choosing lanes\<close>

definition it :: "lanes \<Rightarrow> lanes" where
  "it l =
     (let o1 = l AND 42; x = low_lane l in
      if o1 \<noteq> 0 then o1
      else if x = 1 then 1
      else if x = 2 then 2
      else if x = 4 then 4
      else if x = 8 then 8
      else if x = 16 then 16
      else if x = 32 then 32
      else if x = 64 then 64
      else if x = 128 then 128
      else if x \<in> set [256, 512, 1024, 2048, 4096, 8192, 16384, 32768, 65536, 131072] then l AND 261888
      else if x \<in> set [262144, 524288, 1048576, 2097152] then l AND 3932160
      else if x \<in> set [4194304, 8388608, 16777216, 33554432] then l AND 62914560
      else if x = 67108864 then 67108864
      else if x = 134217728 then 134217728
      else if x = 268435456 then 268435456
      else if x = 536870912 then 536870912
      else if x = 1073741824 then 0
      else l)"

text \<open>The lane bookkeeping of a fiber root (\<open>createFiberRoot\<close>). \<open>hiddenUpdates\<close> holds references to update
  objects, whose lanes are \<open>update_lane\<close>.\<close>

record root =
  tag :: nat
  pendingLanes :: lanes
  suspendedLanes :: lanes
  pingedLanes :: lanes
  warmLanes :: lanes
  expiredLanes :: lanes
  entangledLanes :: lanes
  errorRecoveryDisabledLanes :: lanes
  shellSuspendCounter :: nat
  entanglements :: "lanes list"
  expirationTimes :: "int list"
  hiddenUpdates :: "nat option list option list"
  update_lane :: "nat \<Rightarrow> lanes"
  cancelPendingCommit :: bool
  timeoutHandle :: int
  callbackNode :: "nat option"
  callbackPriority :: lanes

definition ai :: "'a \<Rightarrow> 'a list" where
  "ai v = replicate 31 v"

definition x0 :: "(nat \<Rightarrow> lanes) \<Rightarrow> root" where
  "x0 updates = \<lparr>tag = 1, pendingLanes = 0, suspendedLanes = 0, pingedLanes = 0, warmLanes = 0, expiredLanes = 0,
     entangledLanes = 0, errorRecoveryDisabledLanes = 0, shellSuspendCounter = 0, entanglements = ai 0,
     expirationTimes = ai (- 1), hiddenUpdates = ai None, update_lane = updates, cancelPendingCommit = False,
     timeoutHandle = - 1, callbackNode = None, callbackPriority = 0\<rparr>"

text \<open>\<open>getNextLanes\<close>: the choice among the pending lanes, and whether it replaces the lanes in progress.\<close>

definition fresh_lanes :: "root \<Rightarrow> bool \<Rightarrow> lanes" where
  "fresh_lanes r f =
     (let p = pendingLanes r; s = suspendedLanes r; j = pingedLanes r; w = warmLanes r; Y = p AND 134217727 in
      if Y \<noteq> 0 then
        (if Y AND NOT s \<noteq> 0 then it (Y AND NOT s)
         else if j AND Y \<noteq> 0 then it (j AND Y)
         else if f then 0
         else if Y AND NOT w \<noteq> 0 then it (Y AND NOT w)
         else 0)
      else
        (if p AND NOT s \<noteq> 0 then it (p AND NOT s)
         else if j \<noteq> 0 then it j
         else if f then 0
         else if p AND NOT w \<noteq> 0 then it (p AND NOT w)
         else 0))"

definition Je :: "root \<Rightarrow> lanes \<Rightarrow> bool \<Rightarrow> lanes" where
  "Je r wip f =
     (if pendingLanes r = 0 then 0
      else let x = fresh_lanes r f in
        if x = 0 then 0
        else if wip \<noteq> 0 \<and> wip \<noteq> x \<and> wip AND suspendedLanes r = 0 \<and>
            (low_lane wip \<le>s low_lane x \<or> low_lane x = 32 \<and> low_lane wip AND 4194048 \<noteq> 0)
        then wip else x)"

definition Tt :: "root \<Rightarrow> lanes \<Rightarrow> bool" where
  "Tt r l \<longleftrightarrow> pendingLanes r AND NOT (suspendedLanes r AND NOT (pingedLanes r)) AND l = 0"

definition yt :: "lanes \<Rightarrow> int \<Rightarrow> int" where
  "yt l t =
     (if l \<in> set [1, 2, 4, 8, 64] then t + 250
      else if l \<in> set [16, 32, 128, 256, 512, 1024, 2048, 4096, 8192, 16384, 32768, 65536, 131072, 262144, 524288,
        1048576, 2097152] then t + 5000
      else - 1)"

text \<open>\<open>claimNextRetryLane\<close>, on the counter \<open>Ze\<close>: the lane claimed and the counter's next value.\<close>

definition Pr :: "lanes \<Rightarrow> lanes \<times> lanes" where
  "Pr Ze = (let Z = push_bit 1 Ze in (Ze, if Z AND 62914560 = 0 then 4194304 else Z))"

section \<open>Keeping a root's lanes\<close>

definition Gu :: "lanes \<Rightarrow> root \<Rightarrow> root" where
  "Gu l r =
     (let r = r\<lparr>pendingLanes := pendingLanes r OR l\<rparr> in
      if l \<noteq> 268435456 then r\<lparr>suspendedLanes := 0, pingedLanes := 0, warmLanes := 0\<rparr> else r)"

definition id_spawned :: "lanes \<Rightarrow> lanes \<Rightarrow> root \<Rightarrow> root" where
  "id_spawned l f r =
     (let p = top_lane l; es = entanglements r in
      r\<lparr>pendingLanes := pendingLanes r OR l, suspendedLanes := suspendedLanes r AND NOT l,
        entangledLanes := entangledLanes r OR l,
        entanglements := es[p := es ! p OR 1073741824 OR f AND 261930]\<rparr>)"

text \<open>The lanes of one set, highest first: the loops take the highest lane of what is left.\<close>

lemma takeWhile_top:
  assumes "\<exists>i < k. P i"
  shows "let n = k - 1 - length (takeWhile (\<lambda>i. \<not> P i) (rev [0..<k])) in
    n < k \<and> P n \<and> (\<forall>m < k. n < m \<longrightarrow> \<not> P m)"
  using assms
proof (induction k)
  case (Suc k)
  show ?case
  proof (cases "P k")
    case False
    then have "\<exists>i < k. P i" using Suc.prems less_Suc_eq by auto
    from Suc.IH [OF this] False show ?thesis by (auto simp: Let_def less_Suc_eq)
  qed (simp add: Let_def)
qed simp

lemma some_bit: "(l :: lanes) \<noteq> 0 \<Longrightarrow> \<exists>i < 32. bit l i"
  by (rule ccontr) (auto intro: bit_word_eqI [where b = 0])

lemma top_lane:
  assumes "l \<noteq> 0"
  shows "top_lane l < 32" "bit l (top_lane l)" "bit l m \<Longrightarrow> m \<le> top_lane l"
proof -
  have t: "let n = 32 - 1 - length (takeWhile (\<lambda>i. \<not> bit l i) (rev [0..<32])) in
    n < 32 \<and> bit l n \<and> (\<forall>m < 32. n < m \<longrightarrow> \<not> bit l m)"
    by (rule takeWhile_top [OF some_bit [OF assms]])
  then show "top_lane l < 32" "bit l (top_lane l)"
    by (simp_all add: top_lane_def clz32_def Let_def del: upt_rec_numeral)
  show "m \<le> top_lane l" if "bit l m"
    using t that bit_imp_le_length [OF that]
    by (force simp: top_lane_def clz32_def Let_def linorder_not_less [symmetric] simp del: upt_rec_numeral)
qed

lemma bit_lane_at [simp]: "bit (lane_at i) j \<longleftrightarrow> i = j \<and> j < 32"
  by (auto simp: lane_at_def bit_simps)

lemma clear_top_less:
  assumes "(l :: lanes) \<noteq> 0"
  shows "unat (l AND NOT (lane_at (top_lane l))) < unat l"
proof -
  have "l AND NOT (lane_at (top_lane l)) \<noteq> l"
    using top_lane [OF assms] by (auto simp: bit_eq_iff bit_simps)
  moreover have "l AND NOT (lane_at (top_lane l)) \<le> l"
    by (simp add: word_and_le2)
  ultimately have "l AND NOT (lane_at (top_lane l)) < l" by simp
  then show ?thesis by (rule unat_mono)
qed

lemma signed_pos: "0 <s (l :: lanes) \<Longrightarrow> l \<noteq> 0"
  by auto

text \<open>\<open>markRootFinished\<close>: the loop over the lanes that are no longer pending.\<close>

definition reset_lane :: "nat \<Rightarrow> root \<Rightarrow> root" where
  "reset_lane i r =
     (let r = r\<lparr>entanglements := (entanglements r)[i := 0], expirationTimes := (expirationTimes r)[i := - 1]\<rparr> in
      case hiddenUpdates r ! i of
        None \<Rightarrow> r
      | Some us \<Rightarrow>
          r\<lparr>hiddenUpdates := (hiddenUpdates r)[i := None],
            update_lane := (\<lambda>u. if Some u \<in> set us then update_lane r u AND - 536870913 else update_lane r u)\<rparr>)"

function reset_lanes :: "lanes \<Rightarrow> root \<Rightarrow> root" where
  "reset_lanes l r =
     (if 0 <s l then reset_lanes (l AND NOT (lane_at (top_lane l))) (reset_lane (top_lane l) r) else r)"
  by pat_completeness auto
termination
  by (relation "measure (\<lambda>(l, r). unat l)") (auto dest!: signed_pos clear_top_less)

declare reset_lanes.simps [simp del]

definition ps :: "lanes \<Rightarrow> lanes \<Rightarrow> lanes \<Rightarrow> lanes \<Rightarrow> lanes \<Rightarrow> root \<Rightarrow> root" where
  "ps finished remaining spawned updated suspendedRetry r =
     (let j = pendingLanes r;
          r = r\<lparr>pendingLanes := remaining, suspendedLanes := 0, pingedLanes := 0, warmLanes := 0,
            expiredLanes := expiredLanes r AND remaining, entangledLanes := entangledLanes r AND remaining,
            errorRecoveryDisabledLanes := errorRecoveryDisabledLanes r AND remaining, shellSuspendCounter := 0\<rparr>;
          r = reset_lanes (j AND NOT remaining) r;
          r = (if spawned \<noteq> 0 then id_spawned spawned 0 r else r)
      in if suspendedRetry \<noteq> 0 \<and> updated = 0 \<and> tag r \<noteq> 0
         then r\<lparr>suspendedLanes := suspendedLanes r OR suspendedRetry AND NOT (j AND NOT finished)\<rparr>
         else r)"

text \<open>\<open>markRootEntangled\<close>.\<close>

function entangle :: "lanes \<Rightarrow> lanes \<Rightarrow> lanes list \<Rightarrow> lanes list" where
  "entangle l todo es =
     (if todo \<noteq> 0 then
        let p = top_lane todo; x = lane_at p in
        entangle l (todo AND NOT x)
          (if x AND l OR es ! p AND l \<noteq> 0 then es[p := es ! p OR l] else es)
      else es)"
  by pat_completeness auto
termination
  by (relation "measure (\<lambda>(l, todo, es). unat todo)") (auto dest!: clear_top_less)

declare entangle.simps [simp del]

definition ll :: "lanes \<Rightarrow> root \<Rightarrow> root" where
  "ll l r =
     (let f = entangledLanes r OR l in
      r\<lparr>entangledLanes := f, entanglements := entangle l f (entanglements r)\<rparr>)"

text \<open>\<open>markRootSuspended\<close>, without the lanes of the work in progress the caller takes out first.\<close>

function clear_times :: "lanes \<Rightarrow> int list \<Rightarrow> int list" where
  "clear_times l ts =
     (if 0 <s l then clear_times (l AND NOT (lane_at (top_lane l))) (ts[top_lane l := - 1]) else ts)"
  by pat_completeness auto
termination
  by (relation "measure (\<lambda>(l, ts). unat l)") (auto dest!: signed_pos clear_top_less)

declare clear_times.simps [simp del]

definition Au :: "lanes \<Rightarrow> lanes \<Rightarrow> lanes \<Rightarrow> lanes \<Rightarrow> bool \<Rightarrow> root \<Rightarrow> root" where
  "Au Ay uc l spawned attempted r =
     (let l = l AND NOT Ay AND NOT uc;
          r = r\<lparr>suspendedLanes := suspendedLanes r OR l, pingedLanes := pingedLanes r AND NOT l,
            warmLanes := if attempted then warmLanes r OR l else warmLanes r,
            expirationTimes := clear_times l (expirationTimes r)\<rparr>
      in if spawned \<noteq> 0 then id_spawned spawned l r else r)"

text \<open>\<open>pingSuspendedRoot\<close>: what it does to the root's lanes.\<close>

definition Jg_ping :: "lanes \<Rightarrow> root \<Rightarrow> root" where
  "Jg_ping l r = r\<lparr>pingedLanes := pingedLanes r OR suspendedLanes r AND l, warmLanes := warmLanes r AND NOT l\<rparr>"

text \<open>\<open>prepareFreshStack\<close>: the lanes rendered together with \<open>l\<close>.\<close>

function render_entangled :: "lanes \<Rightarrow> lanes list \<Rightarrow> lanes \<Rightarrow> lanes" where
  "render_entangled todo es l =
     (if 0 <s todo then render_entangled (todo AND NOT (lane_at (top_lane todo))) es (l OR es ! top_lane todo) else l)"
  by pat_completeness auto
termination
  by (relation "measure (\<lambda>(todo, es, l). unat todo)") (auto dest!: signed_pos clear_top_less)

declare render_entangled.simps [simp del]

definition Dl_lanes :: "root \<Rightarrow> lanes \<Rightarrow> lanes" where
  "Dl_lanes r l =
     (let l = (if l AND 8 \<noteq> 0 then l OR l AND 32 else l); p = entangledLanes r in
      if p \<noteq> 0 then render_entangled (p AND l) (entanglements r) l else l)"

section \<open>Scheduling a root\<close>

text \<open>\<open>lanesToEventPriority\<close> and the lane that hydrates a lane (\<open>getBumpedLaneForHydration\<close>).\<close>

definition Ov :: "lanes \<Rightarrow> lanes" where
  "Ov l =
     (let l = low_lane l in
      if 2 <s l then
        (if 8 <s l then (if l AND 134217727 \<noteq> 0 then 32 else 268435456) else 8)
      else 2)"

definition fp :: "lanes \<Rightarrow> lanes" where
  "fp l =
     (if l = 2 then 1
      else if l = 8 then 4
      else if l = 32 then 16
      else if l \<in> set [256, 512, 1024, 2048, 4096, 8192, 16384, 32768, 65536, 131072, 262144, 524288, 1048576,
        2097152, 4194304, 8388608, 16777216, 33554432] then 128
      else if l = 268435456 then 134217728
      else 0)"

definition ja :: "root \<Rightarrow> lanes \<Rightarrow> lanes" where
  "ja r l =
     (let f = low_lane l; f = (if f AND 42 \<noteq> 0 then 1 else fp f) in
      if f AND (suspendedLanes r OR l) \<noteq> 0 then 0 else f)"

text \<open>\<open>markStarvedLanesAsExpired\<close>: the loop at the start of \<open>scheduleTaskForRootDuringMicrotask\<close>.\<close>

definition starve_lane :: "int \<Rightarrow> nat \<Rightarrow> root \<Rightarrow> root" where
  "starve_lane now i r =
     (let Y = lane_at i; t = expirationTimes r ! i in
      if t = - 1 then
        (if Y AND suspendedLanes r = 0 \<or> Y AND pingedLanes r \<noteq> 0
         then r\<lparr>expirationTimes := (expirationTimes r)[i := yt Y now]\<rparr> else r)
      else if t \<le> now then r\<lparr>expiredLanes := expiredLanes r OR Y\<rparr>
      else r)"

function starve_lanes :: "lanes \<Rightarrow> int \<Rightarrow> root \<Rightarrow> root" where
  "starve_lanes l now r =
     (if 0 <s l then starve_lanes (l AND NOT (lane_at (top_lane l))) now (starve_lane now (top_lane l) r) else r)"
  by pat_completeness auto
termination
  by (relation "measure (\<lambda>(l, now, r). unat l)") (auto dest!: signed_pos clear_top_less)

declare starve_lanes.simps [simp del]

definition markStarved :: "int \<Rightarrow> root \<Rightarrow> root" where
  "markStarved now r = starve_lanes (pendingLanes r AND - 62914561) now r"

text \<open>
  The rest of it: the root's next lanes, and the calls to the scheduler, which hands out the task
  \<open>new\<close>. \<open>work\<close> tells whether the root is the one in progress, on lanes \<open>wt\<close>, and whether that work is
  suspended on data (\<open>Ft\<close> is 2 or 9). The scheduler's priorities are named as the code imports them.
\<close>

datatype task_priority = UserBlocking | Normal | Idle

datatype scheduler_call = Cancel_task nat | Schedule_task task_priority

definition lane_task :: "lanes \<Rightarrow> task_priority" where
  "lane_task p =
     (if p \<in> set [2, 8] then UserBlocking else if p = 32 then Normal else if p = 268435456 then Idle else Normal)"

record work =
  working_on :: bool
  wt :: lanes
  Ft :: nat

definition cancel_node :: "root \<Rightarrow> scheduler_call list" where
  "cancel_node r = (case callbackNode r of None \<Rightarrow> [] | Some p \<Rightarrow> [Cancel_task p])"

definition t0 :: "work \<Rightarrow> int \<Rightarrow> nat \<Rightarrow> root \<Rightarrow> lanes \<times> root \<times> scheduler_call list" where
  "t0 w now new r =
     (let r = markStarved now r;
          f = Je r (if working_on w then wt w else 0) (cancelPendingCommit r \<or> timeoutHandle r \<noteq> - 1)
      in if f = 0 \<or> working_on w \<and> (Ft w = 2 \<or> Ft w = 9) \<or> cancelPendingCommit r then
           (0, r\<lparr>callbackNode := None, callbackPriority := 0\<rparr>, cancel_node r)
         else if f AND 3 = 0 \<or> Tt r f then
           let l = low_lane f in
           if l = callbackPriority r then (l, r, [])
           else (l, r\<lparr>callbackPriority := l, callbackNode := Some new\<rparr>,
                   cancel_node r @ [Schedule_task (lane_task (Ov f))])
         else (2, r\<lparr>callbackPriority := 2, callbackNode := None\<rparr>, cancel_node r))"

section \<open>The most urgent lane\<close>

lemma low_lane_odd:
  assumes "bit l n" "\<And>m. m < n \<Longrightarrow> \<not> bit l m"
  shows "low_lane (l :: lanes) = lane_at n"
proof -
  have n: "n < 32" using bit_imp_le_length [OF assms(1)] by simp
  define k where "k = drop_bit n l"
  have l: "l = push_bit n k"
  proof (rule bit_word_eqI)
    fix m assume "m < LENGTH(32)"
    then show "bit l m \<longleftrightarrow> bit (push_bit n k) m"
      using assms(2) [of m] by (cases "m < n") (simp_all add: k_def bit_simps)
  qed
  have "odd k" using assms(1) by (simp add: k_def bit_iff_odd_drop_bit)
  then have "2 * (k div 2) + 1 = k" by (metis mult_div_mod_eq odd_iff_mod_2_eq_one)
  then have k1: "k - 1 = unset_bit 0 k" unfolding unset_bit_0 by (metis add_diff_cancel_right')
  have "- k = NOT (unset_bit 0 k)" using k1 by (simp add: minus_eq_not_minus_1)
  then have "k AND - k = 1"
    using \<open>odd k\<close> by (intro bit_word_eqI) (auto simp: bit_simps bit_1_iff bit_0)
  moreover have "low_lane l = push_bit n (k AND - k)"
    by (simp add: low_lane_def l push_bit_and push_bit_minus)
  ultimately show ?thesis by (simp add: lane_at_def)
qed

lemma low_lane_cases:
  assumes "(l :: lanes) \<noteq> 0"
  obtains n where "n < 32" "bit l n" "\<And>m. m < n \<Longrightarrow> \<not> bit l m" "low_lane l = lane_at n"
proof -
  define n where "n = (LEAST n. bit l n)"
  obtain i where "bit l i" using some_bit [OF assms] by blast
  then have n: "bit l n" unfolding n_def by (rule LeastI)
  have low: "\<not> bit l m" if "m < n" for m using that not_less_Least unfolding n_def by blast
  have "n < 32" using bit_imp_le_length [OF n] by simp
  then show thesis by (rule that [OF _ n low low_lane_odd [OF n low]])
qed

end
