(* ===== verification/React_Roots.thy ===== *)
theory React_Roots
  imports React_Lanes
begin

text \<open>
  Facts about the lanes of a fiber root: which lanes are rendered next, which are rendered together, and
  the invariant its bookkeeping keeps.
\<close>

section \<open>Lane sets\<close>

definition lanes_sub :: "lanes \<Rightarrow> lanes \<Rightarrow> bool" where
  "lanes_sub a b \<longleftrightarrow> a AND NOT b = 0"

lemma lanes_sub_bits: "lanes_sub a b \<longleftrightarrow> (\<forall>i. bit a i \<longrightarrow> bit b i)"
proof
  assume "lanes_sub a b"
  then have z: "bit (a AND NOT b) i = bit (0 :: lanes) i" for i by (simp add: lanes_sub_def)
  show "\<forall>i. bit a i \<longrightarrow> bit b i"
    using z bit_imp_le_length [of a] by (force simp: bit_and_iff bit_not_iff)
next
  assume "\<forall>i. bit a i \<longrightarrow> bit b i"
  then show "lanes_sub a b" unfolding lanes_sub_def by (intro bit_word_eqI) (simp add: bit_and_iff bit_not_iff)
qed

lemma lanes_meet: "a AND b \<noteq> 0 \<longleftrightarrow> (\<exists>i. bit (a :: lanes) i \<and> bit b i)"
proof
  assume "a AND b \<noteq> 0"
  then show "\<exists>i. bit a i \<and> bit b i" using some_bit [of "a AND b"] by (auto simp: bit_and_iff)
next
  assume "\<exists>i. bit a i \<and> bit b i"
  then show "a AND b \<noteq> 0" by (metis bit_and_iff bit_0_eq bot_apply bot_bool_def)
qed

lemma signed_pos_iff: "\<not> bit l 31 \<Longrightarrow> 0 <s (l :: lanes) \<longleftrightarrow> l \<noteq> 0"
proof -
  assume "\<not> bit l 31"
  then have "0 \<le> sint l" by (simp add: sint_uint bit_uint_iff)
  then show ?thesis by (auto simp: word_sless_eq word_sle_eq)
qed

lemma low_lane_bit: "bit (low_lane l) i \<Longrightarrow> bit l i"
  by (simp add: low_lane_def bit_and_iff)

section \<open>The next lanes\<close>



lemma group_bits:
  "bit (261888 :: lanes) n \<longleftrightarrow> 8 \<le> n \<and> n < 18"
  "bit (3932160 :: lanes) n \<longleftrightarrow> 18 \<le> n \<and> n < 22"
  "bit (62914560 :: lanes) n \<longleftrightarrow> 22 \<le> n \<and> n < 26"
  "bit (134217727 :: lanes) n \<longleftrightarrow> n < 27"
proof -
  have eqs: "(261888 :: lanes) = push_bit 8 (mask 10)" "(3932160 :: lanes) = push_bit 18 (mask 4)"
    "(62914560 :: lanes) = push_bit 22 (mask 4)" "(134217727 :: lanes) = mask 27"
    by (simp_all add: mask_eq_exp_minus_1)
  show "bit (261888 :: lanes) n \<longleftrightarrow> 8 \<le> n \<and> n < 18" unfolding eqs(1) by (auto simp: bit_simps)
  show "bit (3932160 :: lanes) n \<longleftrightarrow> 18 \<le> n \<and> n < 22" unfolding eqs(2) by (auto simp: bit_simps)
  show "bit (62914560 :: lanes) n \<longleftrightarrow> 22 \<le> n \<and> n < 26" unfolding eqs(3) by (auto simp: bit_simps)
  show "bit (134217727 :: lanes) n \<longleftrightarrow> n < 27" unfolding eqs(4) by (auto simp: bit_simps)
qed

declare bit_numeral_word_iff [simp del] group_bits [simp]


lemma it_zero [simp]: "it 0 = 0"
  by (simp add: it_def low_lane_def)










text \<open>Work in progress on lanes that are not suspended is only given up for strictly more urgent lanes.\<close>

lemma no_needless_restart:
  assumes "wip \<noteq> 0" "wip AND suspendedLanes r = 0" "x = Je r wip f" "x \<noteq> 0" "x \<noteq> wip"
  shows "low_lane x <s low_lane wip"
proof -
  have "\<not> low_lane wip \<le>s low_lane x"
    using assms unfolding Je_def Let_def by (auto split: if_splits)
  then show ?thesis by (simp add: signed.not_le)
qed

section \<open>Entangled lanes\<close>

lemma entangle_result:
  "length (entangle l todo es) = length es \<and>
   (\<forall>i < length es. entangle l todo es ! i =
      (if bit todo i \<and> (bit l i \<or> es ! i AND l \<noteq> 0) then es ! i OR l else es ! i))"
proof (induction l todo es rule: entangle.induct)
  case (1 l todo es)
  show ?case
  proof (cases "todo = 0")
    case False
    let ?p = "top_lane todo"
    define es' where "es' = (if lane_at ?p AND l OR es ! ?p AND l \<noteq> 0 then es[?p := es ! ?p OR l] else es)"
    have meet: "lane_at ?p AND l OR es ! ?p AND l \<noteq> 0 \<longleftrightarrow> bit l ?p \<or> es ! ?p AND l \<noteq> 0"
      using top_lane(1) [OF False] by (auto simp: or_eq_0_iff lanes_meet)
    have len: "length es' = length es" by (simp add: es'_def)
    have nth: "es' ! i = (if i = ?p \<and> (bit l i \<or> es ! i AND l \<noteq> 0) then es ! i OR l else es ! i)"
      if "i < length es" for i
      unfolding es'_def meet using that by (auto simp: nth_list_update)
    have rest: "bit (todo AND NOT (lane_at ?p)) i \<longleftrightarrow> bit todo i \<and> i \<noteq> ?p" for i
      using bit_imp_le_length [of todo i] by (auto simp: bit_and_iff bit_not_iff)
    have step: "entangle l todo es = entangle l (todo AND NOT (lane_at ?p)) es'"
      using False by (subst entangle.simps) (simp add: Let_def es'_def)
    note IH = "1.IH" [OF False refl refl, folded es'_def]
    show ?thesis
      unfolding step
    proof (intro conjI allI impI)
      fix i assume i: "i < length es"
      then have "entangle l (todo AND NOT (lane_at ?p)) es' ! i =
        (if bit (todo AND NOT (lane_at ?p)) i \<and> (bit l i \<or> es' ! i AND l \<noteq> 0) then es' ! i OR l else es' ! i)"
        using IH len by simp
      then show "entangle l (todo AND NOT (lane_at ?p)) es' ! i =
        (if bit todo i \<and> (bit l i \<or> es ! i AND l \<noteq> 0) then es ! i OR l else es ! i)"
        using top_lane(2) [OF False] nth [OF i] by (cases "i = ?p") (auto simp: rest)
    qed (use IH len in simp)
  qed (subst (1 2) entangle.simps, simp)
qed

lemma entangled_rows:
  "length (entanglements (ll l r)) = length (entanglements r)"
  "i < length (entanglements r) \<Longrightarrow> entanglements (ll l r) ! i =
     (if bit (entangledLanes r OR l) i \<and> (bit l i \<or> entanglements r ! i AND l \<noteq> 0)
      then entanglements r ! i OR l else entanglements r ! i)"
  by (simp_all add: ll_def Let_def entangle_result)

lemma render_entangled_bits:
  assumes "\<not> bit todo 31"
  shows "bit (render_entangled todo es l) j \<longleftrightarrow> bit l j \<or> (\<exists>i. bit todo i \<and> bit (es ! i) j)"
  using assms
proof (induction todo es l rule: render_entangled.induct)
  case (1 todo es l)
  show ?case
  proof (cases "todo = 0")
    case False
    let ?p = "top_lane todo" and ?rest = "todo AND NOT (lane_at (top_lane todo))"
    have rest: "bit ?rest i \<longleftrightarrow> bit todo i \<and> i \<noteq> ?p" for i
      using bit_imp_le_length [of todo i] by (auto simp: bit_and_iff bit_not_iff)
    have pos: "0 <s todo" using signed_pos_iff [OF "1.prems"] False by simp
    have "bit (render_entangled ?rest es (l OR es ! ?p)) j \<longleftrightarrow>
        bit (l OR es ! ?p) j \<or> (\<exists>i. bit ?rest i \<and> bit (es ! i) j)"
      by (rule "1.IH" [OF pos]) (use "1.prems" in \<open>simp add: rest\<close>)
    then show ?thesis
      using top_lane(2) [OF False] pos
      by (subst render_entangled.simps) (auto simp: rest bit_or_iff)
  qed (simp add: render_entangled.simps)
qed

text \<open>Lanes entangled with each other are rendered together from then on: after \<open>markRootEntangled\<close> of a set
  of lanes, preparing to render any of them includes all of them.\<close>

lemma entangled_render_together:
  assumes "length (entanglements r) = 31" "\<not> bit (entangledLanes r OR l) 31" "l' AND l \<noteq> 0"
  shows "lanes_sub (l' OR l) (Dl_lanes (ll l r) l')"
proof -
  obtain i where i: "bit l' i" "bit l i" using assms(3) lanes_meet by blast
  define w where "w = (if l' AND 8 \<noteq> 0 then l' OR l' AND 32 else l')"
  have w: "bit l' j \<Longrightarrow> bit w j" for j by (simp add: w_def bit_or_iff)
  have i31: "i < 31"
    using i(2) bit_imp_le_length [OF i(2)] assms(2) by (cases "i = 31") (auto simp: bit_or_iff)
  let ?f = "entangledLanes r OR l"
  have "?f \<noteq> 0" using i(2) by (auto simp: or_eq_0_iff)
  then have D: "Dl_lanes (ll l r) l' = render_entangled (?f AND w) (entanglements (ll l r)) w"
    by (simp add: Dl_lanes_def ll_def Let_def w_def)
  have "bit (?f AND w) i" using i w by (simp add: bit_and_iff bit_or_iff)
  moreover have "\<not> bit (?f AND w) 31" using assms(2) by (simp add: bit_and_iff)
  moreover have "bit (entanglements (ll l r) ! i) j" if "bit l j" for j
    using entangled_rows(2) [of i r l] i(2) i31 assms(1) that by (simp add: bit_or_iff)
  ultimately show ?thesis
    unfolding D lanes_sub_bits render_entangled_bits [OF \<open>\<not> bit (?f AND w) 31\<close>] using w by (auto simp: bit_or_iff)
qed

section \<open>The invariant of a root\<close>

text \<open>
  The steps of a root, with what their callers guarantee: updates and spawned work are on the 31 lanes,
  only pending lanes are suspended or entangled, and lanes that wait to retry are among the remaining ones.
\<close>

definition small :: "lanes \<Rightarrow> bool" where
  "small l \<longleftrightarrow> \<not> bit l 31"

inductive root_reach :: "(nat \<Rightarrow> lanes) \<Rightarrow> root \<Rightarrow> bool" for u where
  Created: "root_reach u (x0 u)"
| Updated: "root_reach u r \<Longrightarrow> small l \<Longrightarrow> root_reach u (Gu l r)"
| Finished: "root_reach u r \<Longrightarrow> small remaining \<Longrightarrow> small spawned \<Longrightarrow> lanes_sub retry remaining \<Longrightarrow>
    root_reach u (ps finished remaining spawned updated retry r)"
| Suspended: "root_reach u r \<Longrightarrow> lanes_sub l (pendingLanes r) \<Longrightarrow> small spawned \<Longrightarrow>
    root_reach u (Au Ay uc l spawned attempted r)"
| Pinged: "root_reach u r \<Longrightarrow> root_reach u (Jg_ping l r)"
| Entangled: "root_reach u r \<Longrightarrow> lanes_sub l (pendingLanes r) \<Longrightarrow> root_reach u (ll l r)"
| Scheduled: "root_reach u r \<Longrightarrow> root_reach u (fst (snd (t0 w now new r)))"

definition root_ok :: "root \<Rightarrow> bool" where
  "root_ok r \<longleftrightarrow> small (pendingLanes r) \<and> lanes_sub (suspendedLanes r) (pendingLanes r) \<and>
     lanes_sub (pingedLanes r) (pendingLanes r) \<and> lanes_sub (warmLanes r) (pendingLanes r) \<and>
     lanes_sub (expiredLanes r) (pendingLanes r) \<and> lanes_sub (entangledLanes r) (pendingLanes r) \<and>
     length (entanglements r) = 31 \<and> length (expirationTimes r) = 31 \<and> length (hiddenUpdates r) = 31 \<and>
     (\<forall>i < 31. entanglements r ! i \<noteq> 0 \<longrightarrow> bit (entangledLanes r) i) \<and>
     (\<forall>i < 31. expirationTimes r ! i \<noteq> - 1 \<longrightarrow> bit (pendingLanes r) i)"

lemma small_pos: "small l \<Longrightarrow> 0 <s l \<longleftrightarrow> l \<noteq> 0"
  by (simp add: small_def signed_pos_iff)

lemma small_bit: "small l \<Longrightarrow> bit l i \<Longrightarrow> i < 31"
  using bit_imp_le_length [of l i] by (cases "i = 31") (auto simp: small_def)

lemma small_sub: "lanes_sub a b \<Longrightarrow> small b \<Longrightarrow> small a"
  by (auto simp: small_def lanes_sub_bits)

lemma small_clear [simp]: "small l \<Longrightarrow> small (l AND l')"
  by (simp add: small_def bit_and_iff)

lemma bit_clear_top: "bit (l AND NOT (lane_at p)) i \<longleftrightarrow> bit l i \<and> i \<noteq> p"
  using bit_imp_le_length [of l i] by (auto simp: bit_and_iff bit_not_iff)

text \<open>The loops over a set of lanes treat each of its lanes once.\<close>

lemma clear_times_result:
  "small l \<Longrightarrow> length (clear_times l ts) = length ts \<and>
   (\<forall>i < length ts. clear_times l ts ! i = (if bit l i then - 1 else ts ! i))"
proof (induction l ts rule: clear_times.induct)
  case (1 l ts)
  show ?case
  proof (cases "l = 0")
    case False
    have pos: "0 <s l" using False "1.prems" by (simp add: small_pos)
    have step: "clear_times l ts = clear_times (l AND NOT (lane_at (top_lane l))) (ts[top_lane l := - 1])"
      using pos by (subst clear_times.simps) simp
    show ?thesis
      unfolding step using "1.IH" [OF pos] "1.prems" top_lane(2) [OF False]
      by (auto simp: bit_clear_top nth_list_update)
  qed (simp add: clear_times.simps)
qed

lemma reset_lane_simps [simp]:
  "entanglements (reset_lane i r) = (entanglements r)[i := 0]"
  "expirationTimes (reset_lane i r) = (expirationTimes r)[i := - 1]"
  "length (hiddenUpdates (reset_lane i r)) = length (hiddenUpdates r)"
  "pendingLanes (reset_lane i r) = pendingLanes r" "suspendedLanes (reset_lane i r) = suspendedLanes r"
  "pingedLanes (reset_lane i r) = pingedLanes r" "warmLanes (reset_lane i r) = warmLanes r"
  "expiredLanes (reset_lane i r) = expiredLanes r" "entangledLanes (reset_lane i r) = entangledLanes r"
  by (auto simp: reset_lane_def Let_def split: option.splits)

lemma reset_lanes_result:
  assumes "small l" "length (entanglements r) = 31" "length (expirationTimes r) = 31"
  shows "length (entanglements (reset_lanes l r)) = 31 \<and> length (expirationTimes (reset_lanes l r)) = 31 \<and>
    length (hiddenUpdates (reset_lanes l r)) = length (hiddenUpdates r) \<and>
    (\<forall>i < 31. entanglements (reset_lanes l r) ! i = (if bit l i then 0 else entanglements r ! i)) \<and>
    (\<forall>i < 31. expirationTimes (reset_lanes l r) ! i = (if bit l i then - 1 else expirationTimes r ! i)) \<and>
    pendingLanes (reset_lanes l r) = pendingLanes r \<and> suspendedLanes (reset_lanes l r) = suspendedLanes r \<and>
    pingedLanes (reset_lanes l r) = pingedLanes r \<and> warmLanes (reset_lanes l r) = warmLanes r \<and>
    expiredLanes (reset_lanes l r) = expiredLanes r \<and> entangledLanes (reset_lanes l r) = entangledLanes r"
  using assms
proof (induction l r rule: reset_lanes.induct)
  case (1 l r)
  show ?case
  proof (cases "l = 0")
    case False
    have pos: "0 <s l" using False "1.prems" by (simp add: small_pos)
    have step: "reset_lanes l r = reset_lanes (l AND NOT (lane_at (top_lane l))) (reset_lane (top_lane l) r)"
      using pos by (subst reset_lanes.simps) simp
    show ?thesis
      unfolding step using "1.IH" [OF pos] "1.prems" top_lane(2) [OF False]
      by (auto simp: bit_clear_top nth_list_update)
  qed (use "1.prems" in \<open>simp add: reset_lanes.simps\<close>)
qed

lemma starve_lane_simps [simp]:
  "pendingLanes (starve_lane now i r) = pendingLanes r" "suspendedLanes (starve_lane now i r) = suspendedLanes r"
  "pingedLanes (starve_lane now i r) = pingedLanes r" "warmLanes (starve_lane now i r) = warmLanes r"
  "entangledLanes (starve_lane now i r) = entangledLanes r"
  "entanglements (starve_lane now i r) = entanglements r"
  "hiddenUpdates (starve_lane now i r) = hiddenUpdates r"
  by (simp_all add: starve_lane_def Let_def)

lemma nth_update: "xs[i := x] ! j = (if i = j \<and> i < length xs then x else xs ! j)"
  by (cases "i < length xs") (auto simp: nth_list_update list_update_beyond)

lemma starve_lane_ok: "root_ok r \<Longrightarrow> bit (pendingLanes r) i \<Longrightarrow> root_ok (starve_lane now i r)"
  unfolding root_ok_def
  by (auto simp: starve_lane_def Let_def lanes_sub_bits bit_or_iff nth_update)

lemma starve_lanes_ok:
  "root_ok r \<Longrightarrow> lanes_sub l (pendingLanes r) \<Longrightarrow> root_ok (starve_lanes l now r)"
proof (induction l now r rule: starve_lanes.induct)
  case (1 l now r)
  have small: "small l" using "1.prems" small_sub by (auto simp: root_ok_def)
  show ?case
  proof (cases "l = 0")
    case False
    have pos: "0 <s l" using small_pos [OF small] False by simp
    have "root_ok (starve_lane now (top_lane l) r)"
      by (rule starve_lane_ok) (use "1.prems" top_lane(2) [OF False] in \<open>auto simp: lanes_sub_bits\<close>)
    then show ?thesis
      using "1.IH" [OF pos] "1.prems"(2) pos
      by (subst starve_lanes.simps) (simp add: lanes_sub_bits bit_clear_top)
  qed (use "1.prems" in \<open>simp add: starve_lanes.simps\<close>)
qed

lemma id_spawned_ok:
  assumes "root_ok r" "small l" "l \<noteq> 0"
  shows "root_ok (id_spawned l f r)"
  using assms(1) assms(2) small_bit [OF assms(2)] top_lane(2) [OF assms(3)] unfolding root_ok_def
  by (auto simp: id_spawned_def Let_def small_def lanes_sub_bits bit_or_iff bit_and_iff nth_update)

lemma Gu_ok:
  assumes "root_ok r" "small l"
  shows "root_ok (Gu l r)"
  using assms unfolding root_ok_def
  by (auto simp: Gu_def Let_def small_def lanes_sub_bits bit_or_iff)

lemma ps_ok:
  assumes "root_ok r" "small remaining" "small spawned" "lanes_sub retry remaining"
  shows "root_ok (ps finished remaining spawned updated retry r)"
proof -
  define r1 where "r1 = r\<lparr>pendingLanes := remaining, suspendedLanes := 0, pingedLanes := 0, warmLanes := 0,
            expiredLanes := expiredLanes r AND remaining, entangledLanes := entangledLanes r AND remaining,
            errorRecoveryDisabledLanes := errorRecoveryDisabledLanes r AND remaining, shellSuspendCounter := 0\<rparr>"
  define r2 where "r2 = reset_lanes (pendingLanes r AND NOT remaining) r1"
  define r3 where "r3 = (if spawned \<noteq> 0 then id_spawned spawned 0 r2 else r2)"
  have res: "small (pendingLanes r AND NOT remaining)" "length (entanglements r1) = 31" "length (expirationTimes r1) = 31"
    using assms(1) by (simp_all add: r1_def root_ok_def)
  have "root_ok r2"
    using reset_lanes_result [OF res, folded r2_def] assms(1,2) unfolding root_ok_def
    by (auto simp: r1_def lanes_sub_bits bit_and_iff bit_not_iff)
  then have ok: "root_ok r3" using id_spawned_ok [OF _ assms(3)] by (simp add: r3_def)
  have sub: "bit (pendingLanes r3) i" if "bit retry i" for i
    using reset_lanes_result [OF res, folded r2_def] assms(4) that
    by (auto simp: r3_def id_spawned_def Let_def r1_def lanes_sub_bits bit_or_iff)
  have "ps finished remaining spawned updated retry r =
    (if retry \<noteq> 0 \<and> updated = 0 \<and> tag r3 \<noteq> 0
     then r3\<lparr>suspendedLanes := suspendedLanes r3 OR retry AND NOT (pendingLanes r AND NOT finished)\<rparr> else r3)"
    unfolding ps_def Let_def r1_def [symmetric] r2_def [symmetric] r3_def [symmetric] by simp
  then show ?thesis
    using ok sub by (auto simp: root_ok_def lanes_sub_bits bit_or_iff bit_and_iff)
qed

lemma Au_ok:
  assumes "root_ok r" "lanes_sub l (pendingLanes r)" "small spawned"
  shows "root_ok (Au Ay uc l spawned attempted r)"
proof -
  define l' where "l' = l AND NOT Ay AND NOT uc"
  define r1 where "r1 = r\<lparr>suspendedLanes := suspendedLanes r OR l', pingedLanes := pingedLanes r AND NOT l',
            warmLanes := if attempted then warmLanes r OR l' else warmLanes r,
            expirationTimes := clear_times l' (expirationTimes r)\<rparr>"
  have l': "lanes_sub l' (pendingLanes r)" using assms(2) by (auto simp: l'_def lanes_sub_bits bit_and_iff)
  have "small l'" using small_sub [OF l'] assms(1) by (simp add: root_ok_def)
  then have "root_ok r1"
    using clear_times_result [of l' "expirationTimes r"] assms(1) l' unfolding root_ok_def
    by (auto simp: r1_def lanes_sub_bits bit_or_iff bit_and_iff)
  then show ?thesis
    using id_spawned_ok [OF _ assms(3)]
    unfolding Au_def Let_def l'_def [symmetric] r1_def [symmetric] by simp
qed

lemma ll_ok:
  assumes "root_ok r" "lanes_sub l (pendingLanes r)"
  shows "root_ok (ll l r)"
proof -
  have "entanglements (ll l r) ! i \<noteq> 0 \<longrightarrow> bit (entangledLanes (ll l r)) i" if "i < 31" for i
    using entangled_rows(2) [of i r l] assms(1) that
    by (auto simp: root_ok_def ll_def Let_def bit_or_iff)
  then show ?thesis
    using assms entangled_rows(1) [of l r] unfolding root_ok_def
    by (auto simp: ll_def Let_def lanes_sub_bits bit_or_iff)
qed

lemma t0_ok:
  assumes "root_ok r"
  shows "root_ok (fst (snd (t0 w now new r)))"
proof -
  have "root_ok (markStarved now r)"
    unfolding markStarved_def
    by (rule starve_lanes_ok [OF assms]) (auto simp: lanes_sub_bits bit_and_iff)
  then show ?thesis
    unfolding t0_def Let_def by (auto simp: root_ok_def)
qed

text \<open>
  C26: Whatever happens to a root, its suspended, pinged, warm, expired and entangled lanes are pending, only
  entangled lanes have entanglements and only pending lanes have an expiration time.
\<close>

theorem root_invariant:
  assumes "root_reach u r"
  shows "root_ok r"
  using assms
proof (induction rule: root_reach.induct)
  case Created
  show ?case by (simp add: root_ok_def x0_def ai_def small_def lanes_sub_def)
next
  case (Pinged r l)
  then show ?case by (auto simp: root_ok_def Jg_ping_def lanes_sub_bits bit_or_iff bit_and_iff)
qed (simp_all add: Gu_ok ps_ok Au_ok ll_ok t0_ok)

section \<open>The theorems at a concrete root\<close>



lemma root_invariant_witness: "root_ok (ll 2 (Gu 34 (x0 (\<lambda>u. 0))))"
proof (rule root_invariant [where u = "\<lambda>u. 0"], rule root_reach.Entangled, rule root_reach.Updated)
  show "root_reach (\<lambda>u. 0) (x0 (\<lambda>u. 0))" by (rule root_reach.Created)
qed (simp_all add: Gu_def x0_def small_def lanes_sub_def bit_numeral_word_iff)

end
