(* ===== verification/React_Events.thy ===== *)
theory React_Events
  imports React_Roots
begin

text \<open>
  Event priorities of the bundled React DOM (\<open>getEventPriority\<close>) and the events it keeps to replay once a
  dehydrated boundary has been hydrated (\<open>queueIfContinuousEvent\<close>, \<open>clearIfContinuousEvent\<close>).
\<close>

section \<open>Priorities\<close>

text \<open>The scheduler's current priority level, as the code compares it.\<close>

datatype level = ImmediatePriority | UserBlockingPriority | NormalPriority | LowPriority | IdlePriority | NoPriority

definition discrete_events :: "string list" where
  "discrete_events =
     [''beforetoggle'', ''cancel'', ''click'', ''close'', ''contextmenu'', ''copy'', ''cut'', ''auxclick'',
      ''dblclick'', ''dragend'', ''dragstart'', ''drop'', ''focusin'', ''focusout'', ''input'', ''invalid'',
      ''keydown'', ''keypress'', ''keyup'', ''mousedown'', ''mouseup'', ''paste'', ''pause'', ''play'',
      ''pointercancel'', ''pointerdown'', ''pointerup'', ''ratechange'', ''reset'', ''resize'', ''seeked'',
      ''submit'', ''toggle'', ''touchcancel'', ''touchend'', ''touchstart'', ''volumechange'', ''change'',
      ''selectionchange'', ''textInput'', ''compositionstart'', ''compositionend'', ''compositionupdate'',
      ''beforeblur'', ''afterblur'', ''beforeinput'', ''blur'', ''fullscreenchange'', ''focus'', ''hashchange'',
      ''popstate'', ''select'', ''selectstart'']"

definition continuous_events :: "string list" where
  "continuous_events =
     [''drag'', ''dragenter'', ''dragexit'', ''dragleave'', ''dragover'', ''mousemove'', ''mouseout'',
      ''mouseover'', ''pointermove'', ''pointerout'', ''pointerover'', ''scroll'', ''touchmove'', ''wheel'',
      ''mouseenter'', ''mouseleave'', ''pointerenter'', ''pointerleave'']"

definition message_priority :: "level \<Rightarrow> lanes" where
  "message_priority l =
     (case l of
        ImmediatePriority \<Rightarrow> 2
      | UserBlockingPriority \<Rightarrow> 8
      | NormalPriority \<Rightarrow> 32
      | LowPriority \<Rightarrow> 32
      | IdlePriority \<Rightarrow> 268435456
      | NoPriority \<Rightarrow> 32)"

definition gh :: "level \<Rightarrow> string \<Rightarrow> lanes" where
  "gh l e =
     (if e \<in> set discrete_events then 2
      else if e \<in> set continuous_events then 8
      else if e = ''message'' then message_priority l
      else 32)"

text \<open>\<open>resolveUpdatePriority\<close>: the priority set explicitly, or the one of the window's current event.\<close>

definition dp :: "lanes \<Rightarrow> level \<Rightarrow> string option \<Rightarrow> lanes" where
  "dp p l event = (if p \<noteq> 0 then p else case event of None \<Rightarrow> 32 | Some e \<Rightarrow> gh l e)"

section \<open>Replayed events\<close>

text \<open>A queued event: what blocks it, its name and flags, the native event, the containers it goes to.\<close>

record queued =
  blockedOn :: "nat option"
  domEventName :: string
  eventSystemFlags :: lanes
  nativeEvent :: nat
  targetContainers :: "nat option list"

record replay =
  q_or :: "queued option"
  q_Dr :: "queued option"
  q_Xr :: "queued option"
  q_To :: "int \<rightharpoonup> queued"
  q_vi :: "int \<rightharpoonup> queued"

text \<open>\<open>accumulateOrCreateContinuousQueuedReplayableEvent\<close>; the attempt to hydrate what blocks a new event is the
  caller's (\<open>ex\<close>) and does not touch the queue.\<close>

definition Nc :: "queued option \<Rightarrow> nat option \<Rightarrow> string \<Rightarrow> lanes \<Rightarrow> nat option \<Rightarrow> nat \<Rightarrow> queued" where
  "Nc q blocked name flags container native =
     (let fresh = \<lparr>blockedOn = blocked, domEventName = name, eventSystemFlags = flags, nativeEvent = native,
            targetContainers = [container]\<rparr> in
      case q of
        None \<Rightarrow> fresh
      | Some e \<Rightarrow>
          if nativeEvent e \<noteq> native then fresh
          else e\<lparr>eventSystemFlags := eventSystemFlags e OR flags,
            targetContainers := (if container \<noteq> None \<and> container \<notin> set (targetContainers e)
              then targetContainers e @ [container] else targetContainers e)\<rparr>)"

definition EE :: "nat option \<Rightarrow> string \<Rightarrow> lanes \<Rightarrow> nat option \<Rightarrow> nat \<Rightarrow> int \<Rightarrow> replay \<Rightarrow> replay \<times> bool" where
  "EE blocked name flags container native pointerId s =
     (if name = ''focusin'' then (s\<lparr>q_or := Some (Nc (q_or s) blocked name flags container native)\<rparr>, True)
      else if name = ''dragenter'' then (s\<lparr>q_Dr := Some (Nc (q_Dr s) blocked name flags container native)\<rparr>, True)
      else if name = ''mouseover'' then (s\<lparr>q_Xr := Some (Nc (q_Xr s) blocked name flags container native)\<rparr>, True)
      else if name = ''pointerover'' then
        (s\<lparr>q_To := (q_To s)(pointerId \<mapsto> Nc (q_To s pointerId) blocked name flags container native)\<rparr>, True)
      else if name = ''gotpointercapture'' then
        (s\<lparr>q_vi := (q_vi s)(pointerId \<mapsto> Nc (q_vi s pointerId) blocked name flags container native)\<rparr>, True)
      else (s, False))"

definition Cu :: "string \<Rightarrow> int \<Rightarrow> replay \<Rightarrow> replay" where
  "Cu name pointerId s =
     (if name \<in> {''focusin'', ''focusout''} then s\<lparr>q_or := None\<rparr>
      else if name \<in> {''dragenter'', ''dragleave''} then s\<lparr>q_Dr := None\<rparr>
      else if name \<in> {''mouseover'', ''mouseout''} then s\<lparr>q_Xr := None\<rparr>
      else if name \<in> {''pointerover'', ''pointerout''} then s\<lparr>q_To := (q_To s)(pointerId := None)\<rparr>
      else if name \<in> {''gotpointercapture'', ''lostpointercapture''} then s\<lparr>q_vi := (q_vi s)(pointerId := None)\<rparr>
      else s)"

section \<open>Facts\<close>





definition ends :: "string \<Rightarrow> string \<Rightarrow> bool" where
  "ends start stop \<longleftrightarrow> (start, stop) \<in> {(''focusin'', ''focusout''), (''dragenter'', ''dragleave''),
     (''mouseover'', ''mouseout''), (''pointerover'', ''pointerout''), (''gotpointercapture'', ''lostpointercapture'')}"

text \<open>The leaving event that ends a continuous event removes what was queued to replay for it, and touches no
  other queued event.\<close>

lemma replay_cleared:
  assumes "ends start stop"
  shows "snd (EE blocked start flags container native pid s) \<and>
    Cu stop pid (fst (EE blocked start flags container native pid s)) = Cu stop pid s"
  using assms unfolding ends_def
  by (elim insertE emptyE) (simp_all add: EE_def Cu_def)

end
