(* ===== verification/Task_Heap.thy ===== *)
theory Task_Heap
  imports Prelude
begin

text \<open>
  The binary heap of React's scheduler (\<open>scheduler.production.js\<close> in the bundle): an array with
  \<open>push\<close> (\<open>t\<close>), \<open>peek\<close> (\<open>a\<close>) and \<open>pop\<close> (\<open>i\<close>). The locale \<open>min_queue\<close> is what the scheduler needs of it; it
  is interpreted on the array code for every key.
\<close>

section \<open>The interface\<close>

text \<open>Taking the front \<open>n\<close> times.\<close>

fun drain_queue :: "('q \<Rightarrow> 'a option) \<Rightarrow> ('q \<Rightarrow> 'q) \<Rightarrow> nat \<Rightarrow> 'q \<Rightarrow> 'a list" where
  "drain_queue front drop_front 0 q = []"
| "drain_queue front drop_front (Suc n) q =
     (case front q of None \<Rightarrow> [] | Some x \<Rightarrow> x # drain_queue front drop_front n (drop_front q))"

locale min_queue =
  fixes key :: "'a \<Rightarrow> 'k::linorder"
    and ok :: "'q \<Rightarrow> bool" and elems :: "'q \<Rightarrow> 'a multiset"
    and put :: "'a \<Rightarrow> 'q \<Rightarrow> 'q" and front :: "'q \<Rightarrow> 'a option" and drop_front :: "'q \<Rightarrow> 'q"
  assumes ok_put: "ok q \<Longrightarrow> ok (put x q)"
    and elems_put: "ok q \<Longrightarrow> elems (put x q) = add_mset x (elems q)"
    and ok_drop: "ok q \<Longrightarrow> ok (drop_front q)"
    and front_None: "ok q \<Longrightarrow> front q = None \<longleftrightarrow> elems q = {#}"
    and front_min: "ok q \<Longrightarrow> front q = Some x \<Longrightarrow> x \<in># elems q \<and> (\<forall>y \<in># elems q. key x \<le> key y)"
    and elems_drop: "ok q \<Longrightarrow> front q = Some x \<Longrightarrow> elems (drop_front q) = elems q - {#x#}"
begin

lemma drain_elems: "ok q \<Longrightarrow> size (elems q) \<le> n \<Longrightarrow> mset (drain_queue front drop_front n q) = elems q"
proof (induction n arbitrary: q)
  case 0
  then show ?case by simp
next
  case (Suc n)
  show ?case
  proof (cases "front q")
    case None
    then show ?thesis using Suc.prems front_None [of q] by simp
  next
    case (Some x)
    note min = front_min [OF Suc.prems(1) Some]
    have "mset (drain_queue front drop_front n (drop_front q)) = elems q - {#x#}"
      using Suc Some min by (simp add: ok_drop elems_drop size_Diff_singleton)
    then show ?thesis using Some min by simp
  qed
qed

lemma drain_sorted: "ok q \<Longrightarrow> sorted (map key (drain_queue front drop_front n q))"
proof (induction n arbitrary: q)
  case (Suc n)
  show ?case
  proof (cases "front q")
    case (Some x)
    note min = front_min [OF Suc.prems Some]
    have sub: "set (drain_queue front drop_front m p) \<subseteq> set_mset (elems p)" if "ok p" for m p
      using that
    proof (induction m arbitrary: p)
      case (Suc m)
      then show ?case
        using elems_drop ok_drop front_min
        by (auto split: option.splits dest!: in_diffD) (metis in_diffD subsetD)+
    qed simp
    have "key x \<le> key y" if "y \<in> set (drain_queue front drop_front n (drop_front q))" for y
      using sub [OF ok_drop [OF Suc.prems]] that min elems_drop [OF Suc.prems Some]
      by (metis in_diffD subsetD)
    then show ?thesis using Suc Some ok_drop by simp
  qed simp
qed simp

lemma put_all_ok: "ok q \<Longrightarrow> ok (fold put xs q) \<and> elems (fold put xs q) = elems q + mset xs"
  by (induction xs arbitrary: q) (simp_all add: ok_put elems_put)

text \<open>Elements with distinct keys leave in key order, whatever order they came in.\<close>

lemma drain_put_all:
  assumes "ok q" "elems q = {#}" "inj_on key (set xs)"
  shows "drain_queue front drop_front (length xs) (fold put xs q) = sort_key key xs"
proof -
  have p: "ok (fold put xs q)" "elems (fold put xs q) = mset xs"
    using put_all_ok [OF assms(1), of xs] assms(2) by simp_all
  have m: "mset (drain_queue front drop_front (length xs) (fold put xs q)) = mset xs"
    using drain_elems [OF p(1)] p(2) by simp
  show ?thesis
    using sort_key_inj_key_eq [OF m [symmetric] assms(3) drain_sorted [OF p(1)]] by simp
qed

end

section \<open>The array\<close>

definition swap :: "nat \<Rightarrow> nat \<Rightarrow> 'a list \<Rightarrow> 'a list" where
  "swap i j xs = xs[i := xs ! j, j := xs ! i]"

text \<open>The loop of \<open>t\<close>: the new element at \<open>i\<close> changes places with a parent that is greater.\<close>

fun sift_up :: "('a \<Rightarrow> 'k::linorder) \<Rightarrow> nat \<Rightarrow> 'a list \<Rightarrow> 'a list" where
  "sift_up key i xs =
     (if 0 < i \<and> key (xs ! i) < key (xs ! ((i - 1) div 2))
      then sift_up key ((i - 1) div 2) (swap ((i - 1) div 2) i xs) else xs)"

declare sift_up.simps [simp del]

definition heap_push :: "('a \<Rightarrow> 'k::linorder) \<Rightarrow> 'a \<Rightarrow> 'a list \<Rightarrow> 'a list" where
  "heap_push key x xs = sift_up key (length xs) (xs @ [x])"

definition heap_peek :: "'a list \<Rightarrow> 'a option" where
  "heap_peek xs = (case xs of [] \<Rightarrow> None | x # _ \<Rightarrow> Some x)"

text \<open>The loop of \<open>i\<close>: the element at \<open>i\<close> changes places with the lesser child while that is less.\<close>

function sift_down :: "('a \<Rightarrow> 'k::linorder) \<Rightarrow> nat \<Rightarrow> 'a list \<Rightarrow> 'a list" where
  "sift_down key i xs =
     (if i < length xs div 2 then
        (let l = 2 * (i + 1) - 1; r = l + 1 in
         if key (xs ! l) < key (xs ! i) then
           (if r < length xs \<and> key (xs ! r) < key (xs ! l)
            then sift_down key r (swap i r xs) else sift_down key l (swap i l xs))
         else if r < length xs \<and> key (xs ! r) < key (xs ! i)
         then sift_down key r (swap i r xs) else xs)
      else xs)"
  by pat_completeness auto
termination
  by (relation "measure (\<lambda>(key, i, xs). length xs - i)") (auto simp: swap_def)

declare sift_down.simps [simp del]

definition heap_pop :: "('a \<Rightarrow> 'k::linorder) \<Rightarrow> 'a list \<Rightarrow> 'a list" where
  "heap_pop key xs =
     (if length xs \<le> 1 then []
      else sift_down key 0 ((butlast xs)[0 := last xs]))"

section \<open>The heap order\<close>

definition parent :: "nat \<Rightarrow> nat" where
  "parent j = (j - 1) div 2"

definition heap_ok :: "('a \<Rightarrow> 'k::linorder) \<Rightarrow> 'a list \<Rightarrow> bool" where
  "heap_ok key xs \<longleftrightarrow> (\<forall>j. 0 < j \<longrightarrow> j < length xs \<longrightarrow> key (xs ! parent j) \<le> key (xs ! j))"

text \<open>Ordered but for \<open>i\<close> and its parent, and but for \<open>i\<close> and its children; the grandparents are in order.\<close>

definition heap_but_up :: "('a \<Rightarrow> 'k::linorder) \<Rightarrow> nat \<Rightarrow> 'a list \<Rightarrow> bool" where
  "heap_but_up key i xs \<longleftrightarrow> i < length xs \<and>
     (\<forall>j. 0 < j \<longrightarrow> j < length xs \<longrightarrow> j \<noteq> i \<longrightarrow> key (xs ! parent j) \<le> key (xs ! j)) \<and>
     (\<forall>j. 0 < j \<longrightarrow> j < length xs \<longrightarrow> parent j = i \<longrightarrow> 0 < i \<longrightarrow> key (xs ! parent i) \<le> key (xs ! j))"

definition heap_but_down :: "('a \<Rightarrow> 'k::linorder) \<Rightarrow> nat \<Rightarrow> 'a list \<Rightarrow> bool" where
  "heap_but_down key i xs \<longleftrightarrow>
     (\<forall>j. 0 < j \<longrightarrow> j < length xs \<longrightarrow> parent j \<noteq> i \<longrightarrow> key (xs ! parent j) \<le> key (xs ! j)) \<and>
     (\<forall>j. 0 < j \<longrightarrow> j < length xs \<longrightarrow> parent j = i \<longrightarrow> 0 < i \<longrightarrow> key (xs ! parent i) \<le> key (xs ! j))"

lemma swap_length [simp]: "length (swap i j xs) = length xs"
  by (simp add: swap_def)

lemma swap_nth:
  "i < length xs \<Longrightarrow> j < length xs \<Longrightarrow> k < length xs \<Longrightarrow>
    swap i j xs ! k = (if k = j then xs ! i else if k = i then xs ! j else xs ! k)"
  by (simp add: swap_def nth_list_update)

lemma swap_mset [simp]: "i < length xs \<Longrightarrow> j < length xs \<Longrightarrow> mset (swap i j xs) = mset xs"
  unfolding swap_def by (rule mset_swap)

lemma parent_less: "0 < j \<Longrightarrow> parent j < j"
  by (simp add: parent_def) 

lemma parent_child: "parent (2 * i + 1) = i" "parent (2 * i + 2) = i"
  by (simp_all add: parent_def)

lemma child_cases: "0 < j \<Longrightarrow> parent j = i \<longleftrightarrow> j = 2 * i + 1 \<or> j = 2 * i + 2"
  by (cases j) (auto simp: parent_def)

lemma sift_up_ok:
  "heap_but_up key i xs \<Longrightarrow> heap_ok key (sift_up key i xs) \<and> mset (sift_up key i xs) = mset xs"
proof (induction key i xs rule: sift_up.induct)
  case (1 key i xs)
  note b = "1.prems"
  let ?p = "(i - 1) div 2"
  have p: "?p = parent i" by (simp add: parent_def)
  show ?case
  proof (cases "0 < i \<and> key (xs ! i) < key (xs ! ?p)")
    case False
    then have top: "0 < i \<Longrightarrow> key (xs ! parent i) \<le> key (xs ! i)" by (simp add: parent_def)
    have "heap_ok key xs"
      unfolding heap_ok_def
    proof (intro allI impI)
      fix j assume j: "0 < j" "j < length xs"
      show "key (xs ! parent j) \<le> key (xs ! j)"
        using b j top by (cases "j = i") (auto simp: heap_but_up_def)
    qed
    then show ?thesis using False by (subst (1 2) sift_up.simps) auto
  next
    case True
    have len: "i < length xs" "parent i < length xs" "parent i \<noteq> i"
      using b True parent_less [of i] by (auto simp: heap_but_up_def)
    have less: "key (xs ! i) < key (xs ! parent i)" using True by (simp add: parent_def)
    let ?ys = "swap (parent i) i xs"
    have nth: "?ys ! k = (if k = i then xs ! parent i else if k = parent i then xs ! i else xs ! k)"
      if "k < length xs" for k
      using swap_nth [OF len(2,1) that] by simp
    have "heap_but_up key (parent i) ?ys"
      unfolding heap_but_up_def
    proof (intro conjI allI impI)
      show "parent i < length ?ys" using len by simp
    next
      fix j assume j: "0 < j" "j < length ?ys" "j \<noteq> parent i"
      have pj: "parent j < length xs" using parent_less [OF j(1)] j(2) by simp
      show "key (?ys ! parent j) \<le> key (?ys ! j)"
      proof (cases "j = i")
        case eq: True
        then show ?thesis using nth [of j] nth [OF pj] j(2) less len(3) by simp
      next
        case False
        have below: "key (xs ! parent j) \<le> key (xs ! j)" using b j False by (simp add: heap_but_up_def)
        have kid: "parent j = i \<Longrightarrow> key (xs ! parent i) \<le> key (xs ! j)"
          using b j True by (simp add: heap_but_up_def)
        show ?thesis
          using less nth [of j] nth [OF pj] j False below kid
          by (cases "parent j = i"; cases "parent j = parent i") auto
      qed
    next
      fix j assume j: "0 < j" "j < length ?ys" "parent j = parent i" "0 < parent i"
      have pp: "parent (parent i) < length xs" "parent (parent i) \<noteq> parent i" "parent (parent i) \<noteq> i"
        using parent_less [OF j(4)] parent_less [of i] len True by auto
      have up: "key (xs ! parent (parent i)) \<le> key (xs ! parent i)"
        using b j(4) len unfolding heap_but_up_def by auto
      show "key (?ys ! parent (parent i)) \<le> key (?ys ! j)"
      proof (cases "j = i")
        case True
        then show ?thesis using up j nth [of j] nth [OF pp(1)] pp by simp
      next
        case False
        have "j \<noteq> parent i" using parent_less [OF j(1)] j(3) by auto
        moreover have "key (xs ! parent i) \<le> key (xs ! j)"
          using b j(1-3) False unfolding heap_but_up_def by (metis swap_length)
        ultimately show ?thesis using up False j nth [of j] nth [OF pp(1)] pp by simp
      qed
    qed
    then have "heap_ok key (sift_up key ?p (swap ?p i xs)) \<and>
        mset (sift_up key ?p (swap ?p i xs)) = mset (swap ?p i xs)"
      using "1.IH" [OF True] unfolding p by blast
    then show ?thesis using True len by (subst (1 2) sift_up.simps) (simp add: p)
  qed
qed

lemma sift_down_step:
  assumes b: "heap_but_down key i xs" and c: "c < length xs" "0 < c" "parent c = i"
    and less: "key (xs ! c) < key (xs ! i)"
    and least: "\<And>d. d < length xs \<Longrightarrow> 0 < d \<Longrightarrow> parent d = i \<Longrightarrow> key (xs ! c) \<le> key (xs ! d)"
  shows "heap_but_down key c (swap i c xs)"
proof -
  have i: "i < length xs" "i < c" using parent_less [of c] c by simp_all
  let ?ys = "swap i c xs"
  have nth: "?ys ! k = (if k = c then xs ! i else if k = i then xs ! c else xs ! k)" if "k < length xs" for k
    using swap_nth [OF i(1) c(1) that] by simp
  show ?thesis
    unfolding heap_but_down_def
  proof (intro conjI allI impI)
    fix j assume j: "0 < j" "j < length ?ys" "parent j \<noteq> c"
    have pj: "parent j < length xs" "parent j < j" using parent_less [OF j(1)] j(2) by simp_all
    show "key (?ys ! parent j) \<le> key (?ys ! j)"
    proof (cases "parent j = i")
      case True
      then show ?thesis using nth [of j] nth [OF pj(1)] j(1,2) less least [of j] i(2) pj(2) by auto
    next
      case False
      have "key (xs ! parent j) \<le> key (xs ! j)" using b j False by (simp add: heap_but_down_def)
      moreover have "0 < i \<longrightarrow> key (xs ! parent i) \<le> key (xs ! c)"
        using b c by (simp add: heap_but_down_def)
      ultimately show ?thesis
        using nth [of j] nth [OF pj(1)] j False c(3) by auto
    qed
  next
    fix j assume j: "0 < j" "j < length ?ys" "parent j = c" "0 < c"
    have jc: "c < j" using parent_less [OF j(1)] j(3) by simp
    have "key (xs ! c) \<le> key (xs ! j)"
      using b j i(2) unfolding heap_but_down_def by auto
    then show "key (?ys ! parent c) \<le> key (?ys ! j)"
      using nth [of j] nth [of i] i c j jc by auto
  qed
qed

lemma heap_but_down_done:
  assumes "heap_but_down key i xs"
    and "\<And>d. d < length xs \<Longrightarrow> 0 < d \<Longrightarrow> parent d = i \<Longrightarrow> key (xs ! i) \<le> key (xs ! d)"
  shows "heap_ok key xs"
  using assms unfolding heap_but_down_def heap_ok_def by metis

lemma sift_down_ok:
  "heap_but_down key i xs \<Longrightarrow> heap_ok key (sift_down key i xs) \<and> mset (sift_down key i xs) = mset xs"
proof (induction key i xs rule: sift_down.induct)
  case (1 key i xs)
  note b = "1.prems"
  define l r where "l = 2 * (i + 1) - 1" and "r = l + 1"
  have lr: "l = 2 * i + 1" "r = 2 * i + 2" by (simp_all add: l_def r_def)
  have kids: "parent d = i \<longleftrightarrow> d = l \<or> d = r" if "0 < d" for d
    using child_cases [OF that] by (simp add: lr)
  note unfold = sift_down.simps [of key i xs, folded l_def, unfolded Let_def, folded l_def r_def]
  show ?case
  proof (cases "i < length xs div 2")
    case False
    then have "\<not> l < length xs" by (simp add: lr)
    then have "heap_ok key xs" using kids by (intro heap_but_down_done [OF b]) (auto simp: lr)
    then show ?thesis using False by (simp add: unfold)
  next
    case True
    then have l: "l < length xs" "0 < l" "parent l = i" "i < length xs" by (auto simp: lr parent_def)
    have r: "0 < r" "parent r = i" by (auto simp: lr parent_def)
    show ?thesis
    proof (cases "r < length xs \<and> key (xs ! r) < key (xs ! l) \<and> key (xs ! r) < key (xs ! i)")
      case right: True
      then have "heap_but_down key r (swap i r xs)"
        using kids by (intro sift_down_step [OF b _ r]) (auto simp: order.strict_implies_order)
      moreover have "sift_down key i xs = sift_down key r (swap i r xs)"
        using True right by (simp add: unfold)
      ultimately show ?thesis
        using "1.IH"(1) [OF True l_def r_def] "1.IH"(3) [OF True l_def r_def] right l
        by (cases "key (xs ! l) < key (xs ! i)") simp_all
    next
      case not_right: False
      show ?thesis
      proof (cases "key (xs ! l) < key (xs ! i)")
        case left: True
        then have nr: "\<not> (r < length xs \<and> key (xs ! r) < key (xs ! l))" using not_right by auto
        have "heap_but_down key l (swap i l xs)"
          using left nr kids by (intro sift_down_step [OF b l(1-3)]) (auto simp: not_less)
        moreover have "sift_down key i xs = sift_down key l (swap i l xs)"
          unfolding unfold if_P [OF True] if_P [OF left] if_not_P [OF nr] ..
        ultimately show ?thesis using "1.IH"(2) [OF True l_def r_def left nr] l by simp
      next
        case not_left: False
        then have nr: "\<not> (r < length xs \<and> key (xs ! r) < key (xs ! i))" using not_right by auto
        have "heap_ok key xs"
          using not_left nr kids by (intro heap_but_down_done [OF b]) (auto simp: not_less)
        moreover have "sift_down key i xs = xs" unfolding unfold if_P [OF True] if_not_P [OF not_left] if_not_P [OF nr] ..
        ultimately show ?thesis by simp
      qed
    qed
  qed
qed

section \<open>The operations\<close>

lemma heap_push_ok:
  assumes "heap_ok key xs"
  shows "heap_ok key (heap_push key x xs) \<and> mset (heap_push key x xs) = add_mset x (mset xs)"
proof -
  have "heap_but_up key (length xs) (xs @ [x])"
    unfolding heap_but_up_def
  proof (intro conjI allI impI)
    show "length xs < length (xs @ [x])" by simp
  next
    fix j assume j: "0 < j" "j < length (xs @ [x])" "j \<noteq> length xs"
    then show "key ((xs @ [x]) ! parent j) \<le> key ((xs @ [x]) ! j)"
      using assms parent_less [OF j(1)] by (simp add: heap_ok_def nth_append)
  next
    fix j assume j: "0 < j" "j < length (xs @ [x])" "parent j = length xs"
    then show "key ((xs @ [x]) ! parent (length xs)) \<le> key ((xs @ [x]) ! j)"
      using parent_less [OF j(1)] by simp
  qed
  then show ?thesis using sift_up_ok unfolding heap_push_def by fastforce
qed

lemma heap_pop_ok:
  assumes "heap_ok key (y # ys)"
  shows "heap_ok key (heap_pop key (y # ys)) \<and> mset (heap_pop key (y # ys)) = mset ys"
proof (cases "ys = []")
  case True
  then show ?thesis by (simp add: heap_pop_def heap_ok_def)
next
  case False
  then obtain zs z where ys: "ys = zs @ [z]" by (metis append_butlast_last_id)
  have pop: "heap_pop key (y # ys) = sift_down key 0 (z # zs)"
    by (simp add: heap_pop_def ys)
  have nth: "(z # zs) ! j = (y # ys) ! j" if "0 < j" "j < length (z # zs)" for j
    using that by (cases j) (auto simp: ys nth_append)
  have "heap_but_down key 0 (z # zs)"
    unfolding heap_but_down_def
  proof (intro conjI allI impI)
    fix j assume j: "0 < j" "j < length (z # zs)" "parent j \<noteq> 0"
    have pj: "0 < parent j" "parent j < length (z # zs)" using j parent_less [OF j(1)] by simp_all
    have "j < length (y # ys)" using j(2) by (simp add: ys)
    then have "key ((y # ys) ! parent j) \<le> key ((y # ys) ! j)"
      using assms j(1) unfolding heap_ok_def by blast
    then show "key ((z # zs) ! parent j) \<le> key ((z # zs) ! j)"
      unfolding nth [OF pj] nth [OF j(1,2)] .
  qed simp
  then show ?thesis
    unfolding pop using sift_down_ok [of key 0 "z # zs"] by (simp add: ys)
qed

lemma heap_top_least:
  assumes "heap_ok key xs" "j < length xs"
  shows "key (xs ! 0) \<le> key (xs ! j)"
  using assms(2)
proof (induction j rule: less_induct)
  case (less j)
  show ?case
  proof (cases "j = 0")
    case False
    then have "parent j < j" "key (xs ! parent j) \<le> key (xs ! j)"
      using parent_less [of j] assms(1) less.prems by (simp_all add: heap_ok_def)
    then show ?thesis using less by (meson order.trans order.strict_trans)
  qed simp
qed

lemma heap_peek_least:
  assumes "heap_ok key xs" "heap_peek xs = Some x"
  shows "x \<in># mset xs \<and> (\<forall>y \<in># mset xs. key x \<le> key y)"
proof (cases xs)
  case (Cons z zs)
  then have x: "x = xs ! 0" "x \<in> set xs" using assms(2) by (simp_all add: heap_peek_def)
  have "key x \<le> key y" if "y \<in> set xs" for y
    using that heap_top_least [OF assms(1)] unfolding x(1) by (metis in_set_conv_nth)
  then show ?thesis using x(2) by simp
qed (use assms in \<open>simp add: heap_peek_def\<close>)

interpretation task_heap: min_queue key "heap_ok key" mset "heap_push key" heap_peek "heap_pop key"
  for key :: "'a \<Rightarrow> 'k::linorder"
proof (rule min_queue.intro)
  fix q :: "'a list" and x
  assume ok: "heap_ok key q"
  show "heap_ok key (heap_push key x q)" and "mset (heap_push key x q) = add_mset x (mset q)"
    using heap_push_ok [OF ok, of x] by blast+
  show "heap_ok key (heap_pop key q)"
  proof (cases q)
    case (Cons y ys)
    then show ?thesis using heap_pop_ok [of key y ys] ok by blast
  qed (simp add: heap_pop_def heap_ok_def)
  show "(heap_peek q = None) = (mset q = {#})"
    by (cases q) (simp_all add: heap_peek_def)
  assume top: "heap_peek q = Some x"
  show "x \<in># mset q \<and> (\<forall>y \<in># mset q. key x \<le> key y)"
    by (rule heap_peek_least [OF ok top])
  from top obtain ys where q: "q = x # ys" by (cases q) (simp_all add: heap_peek_def)
  show "mset (heap_pop key q) = mset q - {#x#}"
    using heap_pop_ok [of key x ys] ok q by simp
qed

text \<open>Tasks with distinct keys pushed onto the empty heap in any order are popped in ascending key order,
  each exactly once.\<close>

lemma heap_pops_in_order:
  assumes "inj_on key (set xs)"
  shows "drain_queue heap_peek (heap_pop key) (length xs) (fold (heap_push key) xs []) = sort_key key xs"
  using task_heap.drain_put_all [of key "[]" xs] assms
  by (simp add: heap_ok_def)

end
