(* ===== verification/React_Scheduler.thy ===== *)
theory React_Scheduler
  imports Task_Heap "HOL-Library.Product_Lexorder"
begin

text \<open>
  React's cooperative scheduler (\<open>scheduler.production.js\<close> in the bundle): the ready heap \<open>g\<close>, the timer heap
  \<open>b\<close>, and the work loop that runs ready tasks until the frame is used up. Tasks are objects with an identity,
  so they live in a store; a callback is a name whose behaviour the environment gives.
\<close>

section \<open>State\<close>

record task =
  t_callback :: "nat option"
  t_priority :: int
  t_start :: int
  t_expire :: int
  t_sort :: int

text \<open>What the scheduler asks of the host: \<open>Q()\<close>, \<open>be(M, d)\<close> and \<open>L(k)\<close>.\<close>

datatype host_call = Post_work | Set_timer int | Clear_timer

record sched =
  tasks :: "nat \<Rightarrow> task"
  g :: "nat list"
  b :: "nat list"
  O_id :: nat
  S :: "nat option"
  E :: int
  w :: bool
  D :: bool
  C :: bool
  R :: bool
  B :: bool
  X :: int
  F :: int
  ticks :: nat
  host :: "host_call list"
  ran :: "(nat \<times> bool) list"

text \<open>A callback makes calls of the scheduler and then throws, or returns, possibly its continuation.\<close>

datatype api_call = Schedule_callback int nat "int option" | Cancel_callback nat | Request_paint

datatype result = Throws | Returns "nat option"

record env =
  clock :: "nat \<Rightarrow> int"
  behaviour :: "nat \<Rightarrow> bool \<Rightarrow> api_call list \<times> result"

definition now :: "env \<Rightarrow> sched \<Rightarrow> int \<times> sched" where
  "now e s = (clock e (ticks s), s\<lparr>ticks := Suc (ticks s)\<rparr>)"

text \<open>\<open>compare\<close> orders by \<open>sortIndex\<close>, then by \<open>id\<close>.\<close>

definition task_key :: "(nat \<Rightarrow> task) \<Rightarrow> nat \<Rightarrow> int \<times> nat" where
  "task_key ts i = (t_sort (ts i), i)"

definition push_g :: "nat \<Rightarrow> sched \<Rightarrow> sched" where
  "push_g i s = s\<lparr>g := heap_push (task_key (tasks s)) i (g s)\<rparr>"

definition pop_g :: "sched \<Rightarrow> sched" where
  "pop_g s = s\<lparr>g := heap_pop (task_key (tasks s)) (g s)\<rparr>"

definition push_b :: "nat \<Rightarrow> sched \<Rightarrow> sched" where
  "push_b i s = s\<lparr>b := heap_push (task_key (tasks s)) i (b s)\<rparr>"

definition pop_b :: "sched \<Rightarrow> sched" where
  "pop_b s = s\<lparr>b := heap_pop (task_key (tasks s)) (b s)\<rparr>"

definition set_task :: "nat \<Rightarrow> (task \<Rightarrow> task) \<Rightarrow> sched \<Rightarrow> sched" where
  "set_task i f s = s\<lparr>tasks := (tasks s)(i := f (tasks s i))\<rparr>"

lemma length_sift_down: "length (sift_down key i xs) = length xs"
proof (induction key i xs rule: sift_down.induct)
  case (1 key i xs)
  show ?case
    by (subst sift_down.simps) (auto simp: Let_def 1)
qed

lemma length_heap_pop: "length (heap_pop key xs) = length xs - 1"
  by (simp add: heap_pop_def length_sift_down)

section \<open>Timers\<close>

text \<open>\<open>advanceTimers\<close> (\<open>$\<close>): cancelled timers are dropped, due ones become ready.\<close>

function advance_timers :: "int \<Rightarrow> sched \<Rightarrow> sched" where
  "advance_timers V s =
     (case heap_peek (b s) of
        None \<Rightarrow> s
      | Some W \<Rightarrow>
          if t_callback (tasks s W) = None then advance_timers V (pop_b s)
          else if t_start (tasks s W) \<le> V then
            advance_timers V (push_g W (set_task W (\<lambda>t. t\<lparr>t_sort := t_expire t\<rparr>) (pop_b s)))
          else s)"
  by pat_completeness auto
termination
  by (relation "measure (\<lambda>(V, s). length (b s))")
    (auto simp: pop_b_def push_g_def set_task_def length_heap_pop heap_peek_def split: if_splits list.splits)

declare advance_timers.simps [simp del]




section \<open>The interface\<close>






text \<open>\<open>shouldYield\<close> (\<open>re\<close>).\<close>

definition re :: "env \<Rightarrow> sched \<Rightarrow> bool \<times> sched" where
  "re e s = (if R s then (True, s) else let (t, s) = now e s in (\<not> t - F s < X s, s))"

section \<open>The work loop\<close>





section \<open>The invariant\<close>

definition heaps_ok :: "sched \<Rightarrow> bool" where
  "heaps_ok s \<longleftrightarrow> distinct (g s @ b s) \<and> (\<forall>i \<in> set (g s @ b s). i < O_id s) \<and>
     heap_ok (task_key (tasks s)) (g s) \<and> heap_ok (task_key (tasks s)) (b s) \<and>
     (\<forall>i \<in> set (g s). t_sort (tasks s i) = t_expire (tasks s i)) \<and>
     (\<forall>i \<in> set (b s). t_sort (tasks s i) = t_start (tasks s i))"


lemma heap_ok_cong: "(\<And>i. i \<in> set xs \<Longrightarrow> k i = k' i) \<Longrightarrow> heap_ok k xs \<longleftrightarrow> heap_ok k' xs"
proof -
  assume same: "\<And>i. i \<in> set xs \<Longrightarrow> k i = k' i"
  then have nth: "k (xs ! j) = k' (xs ! j)" if "j < length xs" for j using that by simp
  have "k (xs ! parent j) = k' (xs ! parent j)" if "0 < j" "j < length xs" for j
    using nth [of "parent j"] parent_less [OF that(1)] that(2) by simp
  with nth show ?thesis by (simp add: heap_ok_def)
qed

lemma heap_push_set: "heap_ok k xs \<Longrightarrow> set (heap_push k x xs) = insert x (set xs)"
  using heap_push_ok [of k xs x] by (metis set_mset_add_mset_insert set_mset_mset)

lemma heap_push_distinct: "heap_ok k xs \<Longrightarrow> distinct (heap_push k x xs) \<longleftrightarrow> x \<notin> set xs \<and> distinct xs"
  using heap_push_ok [of k xs x] by (metis distinct.simps(2) mset.simps(2) mset_eq_imp_distinct_iff)

lemma heap_pop_facts:
  assumes "heap_ok k xs" "heap_peek xs = Some x"
  shows "heap_ok k (heap_pop k xs)" "mset xs = add_mset x (mset (heap_pop k xs))"
    "set xs = insert x (set (heap_pop k xs))" "distinct xs \<longleftrightarrow> x \<notin> set (heap_pop k xs) \<and> distinct (heap_pop k xs)"
proof -
  obtain ys where xs: "xs = x # ys" using assms(2) by (cases xs) (simp_all add: heap_peek_def)
  have pop: "heap_ok k (heap_pop k xs)" "mset (heap_pop k xs) = mset ys"
    using heap_pop_ok [of k x ys] assms(1) xs by blast+
  then show "heap_ok k (heap_pop k xs)" "mset xs = add_mset x (mset (heap_pop k xs))" by (simp_all add: xs)
  have "set (heap_pop k xs) = set ys" "distinct (heap_pop k xs) = distinct ys"
    using pop(2) mset_eq_setD mset_eq_imp_distinct_iff by blast+
  then show "set xs = insert x (set (heap_pop k xs))" "distinct xs \<longleftrightarrow> x \<notin> set (heap_pop k xs) \<and> distinct (heap_pop k xs)"
    by (simp_all add: xs)
qed

lemma heap_peek_in: "heap_peek xs = Some x \<Longrightarrow> x \<in> set xs"
  by (cases xs) (simp_all add: heap_peek_def)

lemma heap_peek_Nil [simp]: "heap_peek [] = None"
  by (simp add: heap_peek_def)

lemma heap_peek_None [simp]: "heap_peek xs = None \<longleftrightarrow> xs = []"
  by (cases xs) (simp_all add: heap_peek_def)

lemmas sched_defs = push_g_def pop_g_def push_b_def pop_b_def set_task_def now_def

lemma pop_b_ok:
  assumes "heaps_ok s" "heap_peek (b s) = Some W"
  shows "heaps_ok (pop_b s)" "W \<notin> set (g (pop_b s)) \<union> set (b (pop_b s))" "W < O_id (pop_b s)"
proof -
  have h: "heap_ok (task_key (tasks s)) (b s)" using assms(1) by (simp add: heaps_ok_def)
  note pop = heap_pop_facts [OF h assms(2)]
  show "heaps_ok (pop_b s)" "W \<notin> set (g (pop_b s)) \<union> set (b (pop_b s))" "W < O_id (pop_b s)"
    using assms(1) pop unfolding heaps_ok_def pop_b_def by auto
qed


lemma set_task_ok:
  assumes "heaps_ok s"
    and "i \<notin> set (g s) \<union> set (b s) \<or> (t_sort (f (tasks s i)) = t_sort (tasks s i) \<and>
      t_expire (f (tasks s i)) = t_expire (tasks s i) \<and> t_start (f (tasks s i)) = t_start (tasks s i))"
  shows "heaps_ok (set_task i f s)"
proof -
  have "heap_ok (task_key ((tasks s)(i := f (tasks s i)))) xs \<longleftrightarrow> heap_ok (task_key (tasks s)) xs"
    if "set xs \<subseteq> set (g s) \<union> set (b s)" for xs
    by (rule heap_ok_cong) (use assms(2) that in \<open>auto simp: task_key_def\<close>)
  then show ?thesis
    using assms unfolding heaps_ok_def set_task_def by auto
qed

lemma push_g_ok:
  assumes "heaps_ok s" "W \<notin> set (g s) \<union> set (b s)" "W < O_id s" "t_sort (tasks s W) = t_expire (tasks s W)"
  shows "heaps_ok (push_g W s)"
proof -
  have h: "heap_ok (task_key (tasks s)) (g s)" using assms(1) by (simp add: heaps_ok_def)
  show ?thesis
    using assms heap_push_ok [OF h, of W] unfolding heaps_ok_def push_g_def
    by (auto simp: heap_push_set [OF h] heap_push_distinct [OF h])
qed


text \<open>One step of \<open>advanceTimers\<close> that makes a due timer ready.\<close>

definition ready :: "nat \<Rightarrow> sched \<Rightarrow> sched" where
  "ready W s = push_g W (set_task W (\<lambda>t. t\<lparr>t_sort := t_expire t\<rparr>) (pop_b s))"

lemma ready_ok:
  assumes "heaps_ok s" "heap_peek (b s) = Some W"
  shows "heaps_ok (ready W s)"
  unfolding ready_def
proof (rule push_g_ok)
  show "heaps_ok (set_task W (\<lambda>t. t\<lparr>t_sort := t_expire t\<rparr>) (pop_b s))"
    by (rule set_task_ok [OF pop_b_ok(1) [OF assms]]) (use pop_b_ok(2) [OF assms] in blast)
qed (use pop_b_ok(2,3) [OF assms] in \<open>auto simp: set_task_def\<close>)

text \<open>\<open>advanceTimers\<close>, by the front timer.\<close>

lemma advance_step:
  "b s = [] \<Longrightarrow> advance_timers V s = s"
  "heap_peek (b s) = Some W \<Longrightarrow> t_callback (tasks s W) = None \<Longrightarrow> advance_timers V s = advance_timers V (pop_b s)"
  "heap_peek (b s) = Some W \<Longrightarrow> t_callback (tasks s W) \<noteq> None \<Longrightarrow> t_start (tasks s W) \<le> V \<Longrightarrow>
    advance_timers V s = advance_timers V (ready W s)"
  "heap_peek (b s) = Some W \<Longrightarrow> t_callback (tasks s W) \<noteq> None \<Longrightarrow> V < t_start (tasks s W) \<Longrightarrow>
    advance_timers V s = s"
  by (subst (1) advance_timers.simps, auto simp: ready_def)+

lemma advance_induct:
  assumes "\<And>s. b s = [] \<Longrightarrow> P s"
    and "\<And>s W. heap_peek (b s) = Some W \<Longrightarrow> t_callback (tasks s W) = None \<Longrightarrow> P (pop_b s) \<Longrightarrow> P s"
    and "\<And>s W. heap_peek (b s) = Some W \<Longrightarrow> t_callback (tasks s W) \<noteq> None \<Longrightarrow> t_start (tasks s W) \<le> V \<Longrightarrow>
      P (ready W s) \<Longrightarrow> P s"
    and "\<And>s W. heap_peek (b s) = Some W \<Longrightarrow> t_callback (tasks s W) \<noteq> None \<Longrightarrow> V < t_start (tasks s W) \<Longrightarrow> P s"
  shows "P s"
proof (induction "length (b s)" arbitrary: s rule: less_induct)
  case less
  show ?case
  proof (cases "heap_peek (b s)")
    case (Some W)
    then have "length (b (pop_b s)) < length (b s)" "length (b (ready W s)) < length (b s)"
      by (auto simp: ready_def sched_defs length_heap_pop heap_peek_def split: list.splits)
    then show ?thesis using less Some assms(2-4) by (meson not_less)
  qed (use assms(1) in simp)
qed


lemma advance_frame: "\<exists>ready timers ts. advance_timers V s = s\<lparr>g := ready, b := timers, tasks := ts\<rparr>"
proof (induction s rule: advance_induct [where V = V])
  case (1 s)
  have "s = s\<lparr>g := g s, b := b s, tasks := tasks s\<rparr>" by simp
  then show ?case using advance_step(1) [OF 1] by metis
next
  case (2 s W)
  obtain r t ts where "advance_timers V (pop_b s) = (pop_b s)\<lparr>g := r, b := t, tasks := ts\<rparr>" using 2(3) by blast
  then have "advance_timers V s = s\<lparr>g := r, b := t, tasks := ts\<rparr>" by (simp add: advance_step(2) [OF 2(1,2)] pop_b_def)
  then show ?case by blast
next
  case (3 s W)
  obtain r t ts where "advance_timers V (ready W s) = (ready W s)\<lparr>g := r, b := t, tasks := ts\<rparr>" using 3(4) by blast
  then have "advance_timers V s = s\<lparr>g := r, b := t, tasks := ts\<rparr>"
    by (simp add: advance_step(3) [OF 3(1-3)] ready_def sched_defs)
  then show ?case by blast
next
  case (4 s W)
  have "s = s\<lparr>g := g s, b := b s, tasks := tasks s\<rparr>" by simp
  then show ?case using advance_step(4) [OF 4] by metis
qed

lemma advance_simps [simp]:
  "O_id (advance_timers V s) = O_id s" "S (advance_timers V s) = S s" "E (advance_timers V s) = E s"
  "w (advance_timers V s) = w s" "D (advance_timers V s) = D s" "C (advance_timers V s) = C s"
  "R (advance_timers V s) = R s" "B (advance_timers V s) = B s" "X (advance_timers V s) = X s"
  "F (advance_timers V s) = F s" "ticks (advance_timers V s) = ticks s" "host (advance_timers V s) = host s"
  "ran (advance_timers V s) = ran s"
  using advance_frame [of V s] by auto

lemma advance_tasks:
  "tasks (advance_timers V s) i = tasks s i \<or>
   tasks (advance_timers V s) i = (tasks s i)\<lparr>t_sort := t_expire (tasks s i)\<rparr>"
  by (induction s rule: advance_induct [where V = V]) (auto simp: advance_step ready_def sched_defs)

lemma advance_task_fields [simp]:
  "t_callback (tasks (advance_timers V s) i) = t_callback (tasks s i)"
  "t_start (tasks (advance_timers V s) i) = t_start (tasks s i)"
  "t_expire (tasks (advance_timers V s) i) = t_expire (tasks s i)"
  "t_priority (tasks (advance_timers V s) i) = t_priority (tasks s i)"
  using advance_tasks [of V s i] by auto

lemma ready_sets:
  assumes "heaps_ok s" "heap_peek (b s) = Some W"
  shows "set (g (ready W s)) = insert W (set (g s))" "set (b s) = insert W (set (b (ready W s)))"
    "W \<notin> set (b (ready W s))" "W \<notin> set (g s)"
proof -
  let ?s = "set_task W (\<lambda>t. t\<lparr>t_sort := t_expire t\<rparr>) (pop_b s)"
  have "heaps_ok ?s"
    by (rule set_task_ok [OF pop_b_ok(1) [OF assms]]) (use pop_b_ok(2) [OF assms] in blast)
  then have "heap_ok (task_key (tasks ?s)) (g ?s)" by (simp add: heaps_ok_def)
  from heap_push_set [OF this, of W]
  show "set (g (ready W s)) = insert W (set (g s))" by (simp add: ready_def sched_defs)
  have h: "heap_ok (task_key (tasks s)) (b s)" using assms(1) by (simp add: heaps_ok_def)
  show "set (b s) = insert W (set (b (ready W s)))"
    using heap_pop_facts(3) [OF h assms(2)] by (simp add: ready_def sched_defs)
  show "W \<notin> set (b (ready W s))" "W \<notin> set (g s)"
    using pop_b_ok(2) [OF assms] by (simp_all add: ready_def sched_defs)
qed

lemma future_timers:
  assumes "heaps_ok s" "heap_peek (b s) = Some W" "V < t_start (tasks s W)" "i \<in> set (b s)"
  shows "V < t_start (tasks s i)"
proof -
  have h: "heap_ok (task_key (tasks s)) (b s)" using assms(1) by (simp add: heaps_ok_def)
  have "task_key (tasks s) W \<le> task_key (tasks s) i"
    using heap_peek_least [OF h assms(2)] assms(4) by simp
  then have "t_sort (tasks s W) \<le> t_sort (tasks s i)" by (auto simp: task_key_def less_eq_prod_def)
  then show ?thesis
    using assms(1,3,4) heap_peek_in [OF assms(2)] by (simp add: heaps_ok_def)
qed

lemma advanced_sets:
  "heaps_ok s \<Longrightarrow>
    set (g (advance_timers V s)) =
      set (g s) \<union> {i \<in> set (b s). t_start (tasks s i) \<le> V \<and> t_callback (tasks s i) \<noteq> None} \<and>
    set (b (advance_timers V s)) \<subseteq> {i \<in> set (b s). V < t_start (tasks s i)} \<and>
    {i \<in> set (b s). V < t_start (tasks s i) \<and> t_callback (tasks s i) \<noteq> None} \<subseteq> set (b (advance_timers V s))"
proof (induction s rule: advance_induct [where V = V])
  case (1 s)
  then show ?case by (simp add: advance_step)
next
  case (2 s W)
  have h: "heap_ok (task_key (tasks s)) (b s)" using 2 by (simp add: heaps_ok_def)
  have pop: "set (b s) = insert W (set (b (pop_b s)))" "g (pop_b s) = g s" "tasks (pop_b s) = tasks s"
    using heap_pop_facts(3) [OF h 2(1)] by (simp_all add: pop_b_def)
  note IH = 2(3) [OF pop_b_ok(1) [OF 2(4,1)]]
  show ?case
    using IH 2(2) unfolding advance_step(2) [OF 2(1,2)] pop by blast
next
  case (3 s W)
  note sets = ready_sets [OF 3(5,1)]
  have same: "t_start (tasks (ready W s) i) = t_start (tasks s i)"
    "t_callback (tasks (ready W s) i) = t_callback (tasks s i)" for i
    by (simp_all add: ready_def sched_defs)
  note IH = 3(4) [OF ready_ok [OF 3(5,1)]]
  show ?case
    using IH 3(2,3) unfolding advance_step(3) [OF 3(1-3)] sets same by (auto simp: not_le)
next
  case (4 s W)
  have future: "V < t_start (tasks s i)" if "i \<in> set (b s)" for i
    by (rule future_timers [OF 4(4,1,3) that])
  show ?case
    unfolding advance_step(4) [OF 4(1-3)] using future by (auto simp: not_le [symmetric])
qed

text \<open>After the timers have been advanced to a time, the ready tasks are those that were ready and the timers that
  are due by then and not cancelled; every timer left lies in the future; no task is lost but cancelled timers.\<close>

lemma timers_advanced:
  assumes "heaps_ok s"
  shows "set (g (advance_timers V s)) =
      set (g s) \<union> {i \<in> set (b s). t_start (tasks s i) \<le> V \<and> t_callback (tasks s i) \<noteq> None} \<and>
    set (b (advance_timers V s)) \<subseteq> {i \<in> set (b s). V < t_start (tasks s i)} \<and>
    {i \<in> set (b s). V < t_start (tasks s i) \<and> t_callback (tasks s i) \<noteq> None} \<subseteq> set (b (advance_timers V s))"
  by (rule advanced_sets [OF assms])

section \<open>Reachable states\<close>



lemma heaps_ok_cong:
  "g s = g s' \<Longrightarrow> b s = b s' \<Longrightarrow> O_id s = O_id s' \<Longrightarrow> tasks s = tasks s' \<Longrightarrow> heaps_ok s = heaps_ok s'"
  by (simp add: heaps_ok_def)

lemma heaps_ok_updates [simp]:
  "heaps_ok (s\<lparr>S := x1\<rparr>) = heaps_ok s" "heaps_ok (s\<lparr>E := x2\<rparr>) = heaps_ok s" "heaps_ok (s\<lparr>w := x3\<rparr>) = heaps_ok s"
  "heaps_ok (s\<lparr>D := x4\<rparr>) = heaps_ok s" "heaps_ok (s\<lparr>C := x5\<rparr>) = heaps_ok s" "heaps_ok (s\<lparr>R := x6\<rparr>) = heaps_ok s"
  "heaps_ok (s\<lparr>B := x7\<rparr>) = heaps_ok s" "heaps_ok (s\<lparr>X := x8\<rparr>) = heaps_ok s" "heaps_ok (s\<lparr>F := x9\<rparr>) = heaps_ok s"
  "heaps_ok (s\<lparr>ticks := y1\<rparr>) = heaps_ok s" "heaps_ok (s\<lparr>host := y2\<rparr>) = heaps_ok s" "heaps_ok (s\<lparr>ran := y3\<rparr>) = heaps_ok s"
  by (simp_all add: heaps_ok_def)





definition busy :: "sched \<Rightarrow> bool" where
  "busy s \<longleftrightarrow> heaps_ok s \<and> w s \<and> B s \<and> \<not> D s"



lemma busy_updates [simp]:
  "busy (s\<lparr>S := x1\<rparr>) = busy s" "busy (s\<lparr>E := x2\<rparr>) = busy s" "busy (s\<lparr>ran := x3\<rparr>) = busy s"
  "busy (s\<lparr>ticks := x4\<rparr>) = busy s"
  by (simp_all add: busy_def)


lemma re_same [simp]: "g (snd (re e s)) = g s" "b (snd (re e s)) = b s" "S (snd (re e s)) = S s"
  "tasks (snd (re e s)) = tasks s" "ran (snd (re e s)) = ran s"
  by (simp_all add: re_def now_def)










section \<open>The order of work\<close>







section \<open>The theorems at a concrete state\<close>









end
