(* ===== verification/React_Hooks.thy ===== *)
theory React_Hooks
  imports React_Lanes
begin

text \<open>
  The update queues of the state hooks (\<open>useState\<close>, \<open>useReducer\<close>) of the bundled \<open>react-dom\<close>
  (\<open>src/internal/admin/dist/index-DxrWcVFD.js\<close>): dispatching, staging, and rendering with a set of lanes. The
  circular lists of the code (a pointer to the last node) are lists from the first to the last node. A thrown value
  is a value of type \<open>'x\<close>. The field \<open>gesture\<close>, which is null throughout, is left out, as is the second call of
  the reducer in strict mode.
\<close>

section \<open>Updates, hooks and queues\<close>

text \<open>\<open>u_eager\<close> stands for the pair \<open>hasEagerState\<close> and \<open>eagerState\<close>.\<close>

record ('s, 'a) update =
  u_lane :: lanes
  u_revert :: lanes
  u_action :: 'a
  u_eager :: "'s option"

record ('s, 'a) hook =
  memoizedState :: 's
  baseState :: 's
  baseQueue :: "('s, 'a) update list"

type_synonym ('s, 'a, 'x) reducer = "'s \<Rightarrow> 'a \<Rightarrow> 'x + 's"

record ('s, 'a, 'x) queue =
  q_pending :: "('s, 'a) update list"
  q_lanes :: lanes
  lastRenderedReducer :: "('s, 'a, 'x) reducer option"
  lastRenderedState :: 's

text \<open>The lanes of the render (\<open>xl\<close>), of the whole root (\<open>wt\<close>), of the async action in flight (\<open>no\<close>), and
  whether it still has a promise to wait for (\<open>Fn\<close>).\<close>

record render_env =
  xl :: lanes
  wt :: lanes
  no :: lanes
  waiting :: bool

section \<open>Processing a queue: \<open>updateReducerImpl\<close>\<close>

record ('s, 'a, 'x) loop =
  l_state :: 's
  l_base :: 's
  l_queue :: "('s, 'a) update list"
  l_skipped :: lanes
  l_entangled :: bool
  l_threw :: "'x option"

definition update_lane :: "('s, 'a) update \<Rightarrow> lanes" where
  "update_lane u = u_lane u AND NOT 536870912"

definition included :: "render_env \<Rightarrow> ('s, 'a) update \<Rightarrow> bool" where
  "included e u =
     (let l = update_lane u in if l \<noteq> u_lane u then wt e AND l = l else xl e AND l = l)"

text \<open>\<open>te === null ? (Y = te = u, j = _) : te = te.next = u\<close>\<close>

definition keep :: "('s, 'a) update \<Rightarrow> ('s, 'a, 'x) loop \<Rightarrow> ('s, 'a, 'x) loop" where
  "keep u s = s\<lparr>l_base := if l_queue s = [] then l_state s else l_base s, l_queue := l_queue s @ [u]\<rparr>"

definition apply_update :: "('s, 'a, 'x) reducer \<Rightarrow> ('s, 'a) update \<Rightarrow> 's \<Rightarrow> 'x + 's" where
  "apply_update f u st = (case u_eager u of Some e \<Rightarrow> Inr e | None \<Rightarrow> f st (u_action u))"

definition reduce :: "('s, 'a, 'x) reducer \<Rightarrow> ('s, 'a) update \<Rightarrow> ('s, 'a, 'x) loop \<Rightarrow> ('s, 'a, 'x) loop" where
  "reduce f u s =
     (case apply_update f u (l_state s) of Inl x \<Rightarrow> s\<lparr>l_threw := Some x\<rparr> | Inr v \<Rightarrow> s\<lparr>l_state := v\<rparr>)"

text \<open>The body of the loop.\<close>

definition run_update :: "render_env \<Rightarrow> ('s, 'a, 'x) reducer \<Rightarrow> ('s, 'a) update \<Rightarrow> ('s, 'a, 'x) loop \<Rightarrow> ('s, 'a, 'x) loop" where
  "run_update e f u s =
     (let l = update_lane u; r = u_revert u in
      if l_threw s \<noteq> None then s
      else if included e u then
        (if r = 0 then
           reduce f u (s\<lparr>l_queue := if l_queue s = [] then [] else l_queue s @ [u\<lparr>u_lane := 0, u_revert := 0\<rparr>],
                         l_entangled := l_entangled s \<or> l = no e\<rparr>)
         else if xl e AND r = r then s\<lparr>l_entangled := l_entangled s \<or> r = no e\<rparr>
         else reduce f u ((keep (u\<lparr>u_lane := 0\<rparr>) s)\<lparr>l_skipped := l_skipped s OR r\<rparr>))
      else (keep (u\<lparr>u_lane := l\<rparr>) s)\<lparr>l_skipped := l_skipped s OR l\<rparr>)"

definition start_loop :: "'s \<Rightarrow> ('s, 'a, 'x) loop" where
  "start_loop s = \<lparr>l_state = s, l_base = s, l_queue = [], l_skipped = 0, l_entangled = False, l_threw = None\<rparr>"

definition run_updates :: "render_env \<Rightarrow> ('s, 'a, 'x) reducer \<Rightarrow> ('s, 'a) update list \<Rightarrow> 's \<Rightarrow> ('s, 'a, 'x) loop" where
  "run_updates e f us s = fold (run_update e f) us (start_loop s)"

datatype 'x outcome = Rendered | Threw 'x | Suspends

text \<open>The result is the outcome, the current hook, the hook of the render, the queue, and the lanes left for
  later, which the code adds to those of the fiber.\<close>

definition Zp :: "render_env \<Rightarrow> ('s, 'a, 'x) reducer \<Rightarrow> ('s, 'a) hook \<Rightarrow> ('s, 'a) hook \<Rightarrow> ('s, 'a, 'x) queue \<Rightarrow>
    'x outcome \<times> ('s, 'a) hook \<times> ('s, 'a) hook \<times> ('s, 'a, 'x) queue \<times> lanes" where
  "Zp e f cur wip q =
     (let x = baseQueue wip @ q_pending q;
          cur1 = (if q_pending q = [] then cur else cur\<lparr>baseQueue := x\<rparr>);
          q1 = q\<lparr>q_pending := [], lastRenderedReducer := Some f\<rparr>;
          s = run_updates e f x (baseState wip) in
      if x = [] then (Rendered, cur1, wip\<lparr>memoizedState := baseState wip\<rparr>, q1\<lparr>q_lanes := 0\<rparr>, 0)
      else (case l_threw s of
          Some t \<Rightarrow> (Threw t, cur1, wip, q1, l_skipped s)
        | None \<Rightarrow>
            if l_state s \<noteq> memoizedState wip \<and> l_entangled s \<and> waiting e then (Suspends, cur1, wip, q1, l_skipped s)
            else (Rendered, cur1,
              wip\<lparr>memoizedState := l_state s, baseState := if l_queue s = [] then l_state s else l_base s,
                  baseQueue := l_queue s\<rparr>,
              q1\<lparr>lastRenderedState := l_state s\<rparr>, l_skipped s)))"

text \<open>\<open>rerenderReducer\<close>: the updates a component dispatched while it was rendering.\<close>

fun run_all :: "('s, 'a, 'x) reducer \<Rightarrow> 'a list \<Rightarrow> 's \<Rightarrow> 'x + 's" where
  "run_all f [] s = Inr s"
| "run_all f (a # as) s = (case f s a of Inl x \<Rightarrow> Inl x | Inr v \<Rightarrow> run_all f as v)"

definition Kp :: "('s, 'a, 'x) reducer \<Rightarrow> ('s, 'a) hook \<Rightarrow> ('s, 'a, 'x) queue \<Rightarrow>
    'x + ('s, 'a) hook \<times> ('s, 'a, 'x) queue" where
  "Kp f h q =
     (let q1 = q\<lparr>lastRenderedReducer := Some f\<rparr> in
      if q_pending q = [] then Inr (h, q1)
      else (case run_all f (map u_action (q_pending q)) (memoizedState h) of
          Inl x \<Rightarrow> Inl x
        | Inr v \<Rightarrow> Inr (h\<lparr>memoizedState := v, baseState := if baseQueue h = [] then v else baseState h\<rparr>,
                       q1\<lparr>q_pending := [], lastRenderedState := v\<rparr>)))"

section \<open>Dispatching\<close>

text \<open>A component with one such hook: the current hook, the one of the render in progress, the shared queue, the
  updates staged in the global list \<open>_n\<close> (each with the lane it was staged with), and the lanes of the current
  fiber and of its alternate.\<close>

record ('s, 'a, 'x) comp =
  c_hook :: "('s, 'a) hook"
  c_wip :: "('s, 'a) hook option"
  c_queue :: "('s, 'a, 'x) queue"
  c_staged :: "(('s, 'a) update \<times> lanes) list"
  c_lanes :: lanes
  c_alternate :: "lanes option"

definition add_lanes :: "lanes \<Rightarrow> ('s, 'a, 'x) comp \<Rightarrow> ('s, 'a, 'x) comp" where
  "add_lanes l c = c\<lparr>c_lanes := c_lanes c OR l, c_alternate := map_option (\<lambda>a. a OR l) (c_alternate c)\<rparr>"

definition Ua :: "('s, 'a) update \<Rightarrow> lanes \<Rightarrow> ('s, 'a, 'x) comp \<Rightarrow> ('s, 'a, 'x) comp" where
  "Ua u p c = (add_lanes p c)\<lparr>c_staged := c_staged c @ [(u, p)]\<rparr>"

text \<open>\<open>finishQueueingConcurrentUpdates\<close>, on the entries of this queue.\<close>

definition za_entry :: "('s, 'a) update \<times> lanes \<Rightarrow> ('s, 'a, 'x) comp \<Rightarrow> ('s, 'a, 'x) comp" where
  "za_entry up c =
     (let c1 = c\<lparr>c_queue := (c_queue c)\<lparr>q_pending := q_pending (c_queue c) @ [fst up]\<rparr>\<rparr> in
      if snd up \<noteq> 0 then add_lanes (snd up) c1 else c1)"

definition za :: "('s, 'a, 'x) comp \<Rightarrow> ('s, 'a, 'x) comp" where
  "za c = fold za_entry (c_staged c) (c\<lparr>c_staged := []\<rparr>)"

definition new_update :: "lanes \<Rightarrow> 'a \<Rightarrow> ('s, 'a) update" where
  "new_update p a = \<lparr>u_lane = p, u_revert = 0, u_action = a, u_eager = None\<rparr>"

text \<open>An update dispatched by the component while it renders.\<close>

definition uy :: "('s, 'a) update \<Rightarrow> ('s, 'a, 'x) comp \<Rightarrow> ('s, 'a, 'x) comp" where
  "uy u c = c\<lparr>c_queue := (c_queue c)\<lparr>q_pending := q_pending (c_queue c) @ [u]\<rparr>\<rparr>"

text \<open>\<open>dispatchReducerAction\<close> and \<open>dispatchSetState\<close>, with the lane of the update, whether the component is
  rendering, and whether no root is (\<open>rn === null\<close>). The second result says whether the update is scheduled.\<close>

definition sS :: "lanes \<Rightarrow> bool \<Rightarrow> 'a \<Rightarrow> ('s, 'a, 'x) comp \<Rightarrow> ('s, 'a, 'x) comp \<times> bool" where
  "sS p rendering a c =
     (if rendering then (uy (new_update p a) c, False) else (Ua (new_update p a) p c, True))"

definition eager_state :: "'a \<Rightarrow> ('s, 'a, 'x) comp \<Rightarrow> 's option" where
  "eager_state a c =
     (if c_lanes c = 0 \<and> c_alternate c \<in> {None, Some 0} then
        (case lastRenderedReducer (c_queue c) of
           None \<Rightarrow> None
         | Some f \<Rightarrow> (case f (lastRenderedState (c_queue c)) a of Inl x \<Rightarrow> None | Inr v \<Rightarrow> Some v))
      else None)"

definition xu :: "lanes \<Rightarrow> bool \<Rightarrow> bool \<Rightarrow> 'a \<Rightarrow> ('s, 'a, 'x) comp \<Rightarrow> ('s, 'a, 'x) comp \<times> bool" where
  "xu p rendering idle a c =
     (let u = new_update p a in
      if rendering then (uy u c, False)
      else (case eager_state a c of
          None \<Rightarrow> (Ua u p c, True)
        | Some v \<Rightarrow>
            (let u1 = u\<lparr>u_eager := Some v\<rparr> in
             if v = lastRenderedState (c_queue c)
             then (if idle then za (Ua u1 0 c) else Ua u1 0 c, False)
             else (Ua u1 p c, True))))"

text \<open>\<open>entangleTransitionUpdate\<close>\<close>

definition Eg :: "lanes \<Rightarrow> root \<Rightarrow> ('s, 'a, 'x) queue \<Rightarrow> root \<times> ('s, 'a, 'x) queue" where
  "Eg l r q =
     (if l AND 4194048 \<noteq> 0
      then (let w = l OR (q_lanes q AND pendingLanes r) in (ll w r, q\<lparr>q_lanes := w\<rparr>))
      else (r, q))"

section \<open>Rendering a component\<close>

text \<open>The fiber of the render starts without lanes (\<open>renderWithHooks\<close>), its hook as a copy of the current one.\<close>

definition render :: "render_env \<Rightarrow> ('s, 'a, 'x) reducer \<Rightarrow> ('s, 'a, 'x) comp \<Rightarrow> ('s, 'a, 'x) comp \<times> 'x outcome" where
  "render e f c =
     (case Zp e f (c_hook c) (c_hook c) (c_queue c) of (out, cur, wip, q, skipped) \<Rightarrow>
        (c\<lparr>c_hook := cur, c_queue := q, c_alternate := Some skipped,
           c_wip := if out = Rendered then Some wip else None\<rparr>, out))"

text \<open>A component without work of its own in the lanes of the render is copied as it is.\<close>

definition bail_out :: "('s, 'a, 'x) comp \<Rightarrow> ('s, 'a, 'x) comp" where
  "bail_out c = c\<lparr>c_wip := Some (c_hook c), c_alternate := Some (c_lanes c)\<rparr>"

definition commit :: "('s, 'a, 'x) comp \<Rightarrow> ('s, 'a, 'x) comp" where
  "commit c =
     (case (c_wip c, c_alternate c) of
        (Some h, Some l) \<Rightarrow> c\<lparr>c_hook := h, c_wip := None, c_lanes := l, c_alternate := Some (c_lanes c)\<rparr>
      | _ \<Rightarrow> c)"

section \<open>Memoised values\<close>

text \<open>\<open>areHookInputsEqual\<close>, and the updates of \<open>useCallback\<close> and \<open>useMemo\<close>.\<close>

fun Su :: "'d list \<Rightarrow> 'd list option \<Rightarrow> bool" where
  "Su l None = False"
| "Su l (Some ds) = list_all (\<lambda>(a, b). a = b) (zip l ds)"

definition ay :: "'v \<Rightarrow> 'd list option \<Rightarrow> 'v \<times> 'd list option \<Rightarrow> 'v \<times> ('v \<times> 'd list option)" where
  "ay v deps m =
     (case deps of
        Some ds \<Rightarrow> if Su ds (snd m) then (fst m, m) else (v, (v, deps))
      | None \<Rightarrow> (v, (v, deps)))"

definition uS :: "(unit \<Rightarrow> 'v) \<Rightarrow> 'd list option \<Rightarrow> 'v \<times> 'd list option \<Rightarrow> 'v \<times> ('v \<times> 'd list option)" where
  "uS compute deps m =
     (case deps of
        Some ds \<Rightarrow> if Su ds (snd m) then (fst m, m) else (compute (), (compute (), deps))
      | None \<Rightarrow> (compute (), (compute (), deps)))"

end
