(* ===== verification/React_Updates.thy ===== *)
theory React_Updates
  imports React_Hooks
begin

text \<open>
  Facts about the update queues of the state hooks: rendering with any choice of lanes never loses, repeats or
  reorders an update, the eager computation of a state is sound, and a component without pending lanes shows the
  state all its updates lead to.
\<close>

section \<open>What a queue leads to\<close>

text \<open>The state that the updates lead to when all are applied in order; optimistic updates (with a revert lane)
  are to be dropped.\<close>

fun settle :: "('s, 'a, 'x) reducer \<Rightarrow> ('s, 'a) update list \<Rightarrow> 's \<Rightarrow> 'x + 's" where
  "settle f [] s = Inr s"
| "settle f (u # us) s =
     (if u_revert u \<noteq> 0 then settle f us s
      else (case f s (u_action u) of Inl x \<Rightarrow> Inl x | Inr v \<Rightarrow> settle f us v))"

text \<open>An update that changes nothing, and what makes the precomputed states right: an update with one comes after
  such updates only.\<close>

definition idle :: "('s, 'a, 'x) reducer \<Rightarrow> ('s, 'a) update \<Rightarrow> 's \<Rightarrow> bool" where
  "idle f u s \<longleftrightarrow> u_revert u = 0 \<and> f s (u_action u) = Inr s"

abbreviation idle_all :: "('s, 'a, 'x) reducer \<Rightarrow> ('s, 'a) update list \<Rightarrow> 's \<Rightarrow> bool" where
  "idle_all f us s \<equiv> \<forall>u \<in> set us. idle f u s"

abbreviation no_eager :: "('s, 'a) update list \<Rightarrow> bool" where
  "no_eager us \<equiv> \<forall>u \<in> set us. u_eager u = None"

fun eager_ok :: "('s, 'a, 'x) reducer \<Rightarrow> ('s, 'a) update list \<Rightarrow> 's \<Rightarrow> bool" where
  "eager_ok f [] s = True"
| "eager_ok f (u # us) s =
     ((\<forall>v. u_eager u = Some v \<longrightarrow> u_revert u = 0 \<and> f s (u_action u) = Inr v) \<and>
      (if idle f u s then eager_ok f us s else no_eager us))"

lemma settle_append:
  "settle f (xs @ ys) s = (case settle f xs s of Inl x \<Rightarrow> Inl x | Inr v \<Rightarrow> settle f ys v)"
  by (induction xs arbitrary: s) (auto split: sum.splits)

lemma settle_idle: "idle_all f us s \<Longrightarrow> settle f us s = Inr s"
  by (induction us) (auto simp: idle_def)

lemma no_eager_ok: "no_eager us \<Longrightarrow> eager_ok f us s"
  by (induction us) auto

lemma eager_ok_prefix: "eager_ok f (xs @ ys) s \<Longrightarrow> eager_ok f xs s"
  by (induction xs) (auto split: if_splits)

lemma eager_ok_idle: "idle_all f xs s \<Longrightarrow> eager_ok f (xs @ ys) s \<longleftrightarrow> eager_ok f xs s \<and> eager_ok f ys s"
  by (induction xs) auto

lemma eager_ok_plain: "u_eager u = None \<Longrightarrow> eager_ok f (xs @ [u]) s \<longleftrightarrow> eager_ok f xs s"
  by (induction xs) auto

lemma eager_ok_drop:
  "u_revert u \<noteq> 0 \<Longrightarrow> eager_ok f (xs @ u # us) s \<Longrightarrow> eager_ok f (xs @ us) s"
proof (induction xs)
  case Nil
  then have "no_eager us" by (simp add: idle_def split: if_splits)
  then show ?case by (simp add: no_eager_ok)
next
  case (Cons x xs)
  then show ?case by (cases "idle f x s") simp_all
qed

text \<open>Only the action, the revert lane and the precomputed state of an update matter.\<close>

lemma settle_alike:
  assumes "u_revert u = u_revert v" "u_action u = u_action v"
  shows "settle f (xs @ u # us) s = settle f (xs @ v # us) s"
  by (simp add: settle_append assms split: sum.split)

lemma idle_alike: "u_revert u = u_revert v \<Longrightarrow> u_action u = u_action v \<Longrightarrow> idle f u s = idle f v s"
  by (simp add: idle_def)

lemma eager_alike:
  assumes "u_revert u = u_revert v" "u_action u = u_action v" "u_eager u = u_eager v"
  shows "eager_ok f (xs @ u # us) s = eager_ok f (xs @ v # us) s"
proof (induction xs)
  case Nil
  then show ?case by (simp add: assms idle_alike [OF assms(1,2)])
next
  case (Cons x xs)
  then show ?case by (simp add: assms(3))
qed

section \<open>The loop over a queue\<close>

definition loop_start :: "('s, 'a, 'x) loop \<Rightarrow> 's" where
  "loop_start s = (if l_queue s = [] then l_state s else l_base s)"

text \<open>Where the updates kept so far and those to come lead to.\<close>

definition leads :: "('s, 'a, 'x) reducer \<Rightarrow> ('s, 'a) update list \<Rightarrow> ('s, 'a, 'x) loop \<Rightarrow> 'x + 's" where
  "leads f us s = settle f (l_queue s @ us) (loop_start s)"

definition loop_ok :: "('s, 'a, 'x) reducer \<Rightarrow> ('s, 'a) update list \<Rightarrow> ('s, 'a, 'x) loop \<Rightarrow> bool" where
  "loop_ok f us s \<longleftrightarrow> eager_ok f (l_queue s @ us) (loop_start s) \<and>
     (l_queue s \<noteq> [] \<longrightarrow> l_skipped s \<noteq> 0 \<and> (idle_all f (l_queue s) (l_base s) \<longrightarrow> l_state s = l_base s))"

lemma included_zero: "update_lane u = 0 \<Longrightarrow> included e u"
  by (simp add: included_def)

lemma run_threw [simp]: "l_threw s \<noteq> None \<Longrightarrow> run_update e f u s = s"
  by (simp add: run_update_def Let_def)

lemma apply_eager:
  assumes "eager_ok f (xs @ u # us) s" "idle_all f xs s"
  shows "apply_update f u s = f s (u_action u)"
  using assms by (auto simp: eager_ok_idle apply_update_def split: option.split)

lemma or_nonzero: "(a :: lanes) \<noteq> 0 \<Longrightarrow> a OR b \<noteq> 0 \<and> b OR a \<noteq> 0"
  by (auto simp: or_eq_0_iff)

lemma loop_start_keep [simp]: "l_base (keep u s) = loop_start s" "l_queue (keep u s) = l_queue s @ [u]"
  "l_state (keep u s) = l_state s" "l_skipped (keep u s) = l_skipped s" "l_threw (keep u s) = l_threw s"
  "l_entangled (keep u s) = l_entangled s"
  by (simp_all add: keep_def loop_start_def)

lemma reduce_cases:
  assumes "l_threw (reduce f u s) = None" "l_threw s = None"
  obtains v where "apply_update f u (l_state s) = Inr v" "reduce f u s = s\<lparr>l_state := v\<rparr>"
  using assms by (auto simp: reduce_def split: sum.splits)

text \<open>The four ways of the loop's body.\<close>

lemma run_cases:
  assumes "l_threw (run_update e f u s) = None"
  obtains (Skip) "update_lane u \<noteq> 0"
      "run_update e f u s = (keep (u\<lparr>u_lane := update_lane u\<rparr>) s)\<lparr>l_skipped := l_skipped s OR update_lane u\<rparr>"
    | (Drop) t where "u_revert u \<noteq> 0" "run_update e f u s = s\<lparr>l_entangled := t\<rparr>"
    | (Optimistic) v where "u_revert u \<noteq> 0" "apply_update f u (l_state s) = Inr v"
      "run_update e f u s = (keep (u\<lparr>u_lane := 0\<rparr>) s)\<lparr>l_skipped := l_skipped s OR u_revert u, l_state := v\<rparr>"
    | (Apply) v t where "u_revert u = 0" "included e u" "apply_update f u (l_state s) = Inr v" "l_queue s = []"
      "run_update e f u s = s\<lparr>l_queue := [], l_entangled := t, l_state := v\<rparr>"
    | (Rebase) v t where "u_revert u = 0" "apply_update f u (l_state s) = Inr v" "l_queue s \<noteq> []"
      "run_update e f u s = s\<lparr>l_queue := l_queue s @ [u\<lparr>u_lane := 0, u_revert := 0\<rparr>], l_entangled := t, l_state := v\<rparr>"
proof -
  have t: "l_threw s = None" using assms run_threw by (cases "l_threw s") fastforce+
  show ?thesis
  proof (cases "included e u")
    case False
    then have "update_lane u \<noteq> 0" using included_zero by blast
    then show ?thesis using False t by (intro Skip) (simp_all add: run_update_def Let_def)
  next
    case inc: True
    show ?thesis
    proof (cases "u_revert u = 0")
      case True
      let ?s = "s\<lparr>l_queue := if l_queue s = [] then [] else l_queue s @ [u\<lparr>u_lane := 0, u_revert := 0\<rparr>],
                   l_entangled := l_entangled s \<or> update_lane u = no e\<rparr>"
      have run: "run_update e f u s = reduce f u ?s"
        using t inc True by (simp add: run_update_def Let_def)
      with assms t obtain v where "apply_update f u (l_state s) = Inr v" "reduce f u ?s = ?s\<lparr>l_state := v\<rparr>"
        using reduce_cases [of f u ?s] by auto
      then show ?thesis
      proof (cases "l_queue s = []")
        case empty: True
        show ?thesis by (rule Apply) (use run empty True inc \<open>apply_update f u (l_state s) = Inr v\<close>
          \<open>reduce f u ?s = ?s\<lparr>l_state := v\<rparr>\<close> in simp_all)
      next
        case more: False
        show ?thesis by (rule Rebase) (use run more True \<open>apply_update f u (l_state s) = Inr v\<close>
          \<open>reduce f u ?s = ?s\<lparr>l_state := v\<rparr>\<close> in simp_all)
      qed
    next
      case rev: False
      show ?thesis
      proof (cases "xl e AND u_revert u = u_revert u")
        case True
        then show ?thesis using Drop rev inc t by (simp add: run_update_def Let_def)
      next
        case False
        let ?s = "(keep (u\<lparr>u_lane := 0\<rparr>) s)\<lparr>l_skipped := l_skipped s OR u_revert u\<rparr>"
        have run: "run_update e f u s = reduce f u ?s"
          using t inc rev False by (simp add: run_update_def Let_def)
        with assms t obtain v where "apply_update f u (l_state s) = Inr v" "reduce f u ?s = ?s\<lparr>l_state := v\<rparr>"
          using reduce_cases [of f u ?s] by auto
        then show ?thesis using Optimistic [of v] rev run by auto
      qed
    qed
  qed
qed

lemma settle_drop: "u_revert u \<noteq> 0 \<Longrightarrow> settle f (xs @ u # us) s = settle f (xs @ us) s"
  by (simp add: settle_append split: sum.split)

lemma run_step:
  assumes "l_threw (run_update e f u s) = None" "loop_ok f (u # us) s"
  shows "leads f us (run_update e f u s) = leads f (u # us) s \<and> loop_ok f us (run_update e f u s)"
  using assms(1)
proof (cases rule: run_cases)
  case Skip
  have start: "loop_start (run_update e f u s) = loop_start s" by (simp add: Skip(2) loop_start_def)
  let ?u = "u\<lparr>u_lane := update_lane u\<rparr>"
  have "settle f (l_queue s @ ?u # us) t = settle f (l_queue s @ u # us) t"
    "eager_ok f (l_queue s @ ?u # us) t = eager_ok f (l_queue s @ u # us) t" for t
    by (rule settle_alike eager_alike; simp)+
  then show ?thesis
    using assms(2) or_nonzero [OF Skip(1), of "l_skipped s"] unfolding leads_def loop_ok_def start
    by (simp add: Skip(2) loop_start_def)
next
  case (Drop t)
  then show ?thesis
    using assms(2) eager_ok_drop [OF Drop(1), of f "l_queue s" us]
    by (cases "l_queue s = []") (auto simp: leads_def loop_ok_def loop_start_def settle_drop)
next
  case (Optimistic v)
  have start: "loop_start (run_update e f u s) = loop_start s" by (simp add: Optimistic(3) loop_start_def)
  let ?u = "u\<lparr>u_lane := 0\<rparr>"
  have "settle f (l_queue s @ ?u # us) t = settle f (l_queue s @ u # us) t"
    "eager_ok f (l_queue s @ ?u # us) t = eager_ok f (l_queue s @ u # us) t" for t
    by (rule settle_alike eager_alike; simp)+
  then show ?thesis
    using assms(2) or_nonzero [OF Optimistic(1), of "l_skipped s"] Optimistic(1)
    unfolding leads_def loop_ok_def start
    by (simp add: Optimistic(3) idle_def)
next
  case (Apply v t)
  have eag: "eager_ok f (u # us) (l_state s)" using assms(2) Apply(4) by (simp add: loop_ok_def loop_start_def)
  have f: "f (l_state s) (u_action u) = Inr v"
    using apply_eager [of f "[]" u us "l_state s"] eag Apply(3) by simp
  have "eager_ok f us v"
  proof (cases "idle f u (l_state s)")
    case True
    then have "v = l_state s" using f by (simp add: idle_def)
    then show ?thesis using eag True by simp
  next
    case False
    then have "no_eager us" using eag by simp
    then show ?thesis by (rule no_eager_ok)
  qed
  then show ?thesis by (simp add: Apply leads_def loop_ok_def loop_start_def f)
next
  case (Rebase v t)
  let ?u = "u\<lparr>u_lane := 0, u_revert := 0\<rparr>"
  have eag: "eager_ok f (l_queue s @ u # us) (l_base s)"
    and old: "l_skipped s \<noteq> 0" "idle_all f (l_queue s) (l_base s) \<Longrightarrow> l_state s = l_base s"
    using assms(2) Rebase(3) by (auto simp: loop_ok_def loop_start_def)
  have same: "settle f (l_queue s @ ?u # us) w = settle f (l_queue s @ u # us) w"
    "eager_ok f (l_queue s @ ?u # us) w = eager_ok f (l_queue s @ u # us) w" "idle f ?u w = idle f u w" for w
    by (rule settle_alike eager_alike idle_alike; simp add: Rebase(1))+
  have "v = l_base s" if "idle_all f (l_queue s) (l_base s)" "idle f u (l_base s)"
    using apply_eager [OF eag that(1)] old(2) [OF that(1)] Rebase(2) that(2) by (simp add: idle_def)
  then show ?thesis
    using eag old Rebase(3) by (simp add: Rebase(4) leads_def loop_ok_def loop_start_def same)
qed

lemma threw_stays: "l_threw s \<noteq> None \<Longrightarrow> fold (run_update e f) us s = s"
  by (induction us) simp_all

lemma threw_start: "l_threw (fold (run_update e f) us s) = None \<Longrightarrow> l_threw s = None"
  using threw_stays by metis

lemma run_fold:
  assumes "l_threw (fold (run_update e f) us s) = None" "loop_ok f (us @ rest) s"
  shows "leads f rest (fold (run_update e f) us s) = leads f (us @ rest) s \<and>
    loop_ok f rest (fold (run_update e f) us s)"
  using assms
proof (induction us arbitrary: s)
  case (Cons u us)
  let ?s = "run_update e f u s"
  have "l_threw ?s = None" using Cons.prems(1) threw_start by auto
  note step = run_step [OF this, of "us @ rest"]
  show ?case using Cons.IH [of ?s] Cons.prems step by simp
qed simp

lemma reduce_queue [simp]: "l_queue (reduce f u s) = l_queue s"
  by (simp add: reduce_def split: sum.split)

lemma run_reverts:
  assumes "u_revert u = 0" "\<forall>v \<in> set (l_queue s). u_revert v = 0"
  shows "\<forall>v \<in> set (l_queue (run_update e f u s)). u_revert v = 0"
  using assms unfolding run_update_def Let_def by simp

lemma fold_reverts:
  assumes "\<forall>u \<in> set us. u_revert u = 0" "\<forall>v \<in> set (l_queue s). u_revert v = 0"
  shows "\<forall>v \<in> set (l_queue (fold (run_update e f) us s)). u_revert v = 0"
  using assms
proof (induction us arbitrary: s)
  case (Cons u us)
  have "\<forall>v \<in> set (l_queue (run_update e f u s)). u_revert v = 0"
    by (rule run_reverts) (use Cons.prems in auto)
  then have "\<forall>v \<in> set (l_queue (fold (run_update e f) us (run_update e f u s))). u_revert v = 0"
    by (intro Cons.IH) (use Cons.prems(1) in auto)
  then show ?case by simp
qed simp

text \<open>Updates that change nothing leave the loop where it is.\<close>

definition resting :: "('s, 'a, 'x) reducer \<Rightarrow> 's \<Rightarrow> ('s, 'a, 'x) loop \<Rightarrow> bool" where
  "resting f b s \<longleftrightarrow> l_threw s = None \<and> l_state s = b \<and> loop_start s = b \<and> idle_all f (l_queue s) b"

lemma resting_step:
  assumes "resting f b s" "idle f u b" "u_eager u \<in> {None, Some b}"
  shows "resting f b (run_update e f u s)"
proof -
  have app: "apply_update f u b = Inr b" and rev: "u_revert u = 0"
    using assms(2,3) by (auto simp: apply_update_def idle_def)
  have clones: "idle f (u\<lparr>u_lane := l\<rparr>) b" "idle f (u\<lparr>u_lane := l, u_revert := 0\<rparr>) b" for l
    using assms(2) by (simp_all add: idle_def)
  have s: "l_threw s = None" "l_state s = b" "loop_start s = b" "idle_all f (l_queue s) b"
    using assms(1) by (simp_all add: resting_def)
  show ?thesis
  proof (cases "included e u")
    case True
    then show ?thesis
      using s rev app clones
      by (auto simp: resting_def run_update_def Let_def reduce_def loop_start_def)
  next
    case False
    then show ?thesis
      using s clones by (auto simp: resting_def run_update_def Let_def loop_start_def keep_def)
  qed
qed

lemma eager_idle:
  "idle_all f us b \<Longrightarrow> eager_ok f us b \<Longrightarrow> u \<in> set us \<Longrightarrow> u_eager u \<in> {None, Some b}"
proof (induction us)
  case (Cons v us)
  then have v: "idle f v b" "\<And>w. u_eager v = Some w \<Longrightarrow> f b (u_action v) = Inr w" "eager_ok f us b"
    by simp_all
  have "u_eager v \<in> {None, Some b}" using v(1) v(2) by (cases "u_eager v") (simp_all add: idle_def)
  then show ?case using Cons.IH Cons.prems v(3) by auto
qed simp

lemma resting_fold:
  assumes "resting f b s" "\<forall>u \<in> set us. idle f u b \<and> u_eager u \<in> {None, Some b}"
  shows "resting f b (fold (run_update e f) us s)"
  using assms
proof (induction us arbitrary: s)
  case (Cons u us)
  then show ?case using resting_step [of f b s u e] by simp
qed simp

section \<open>A render\<close>

definition hook_ok :: "('s, 'a, 'x) reducer \<Rightarrow> ('s, 'a) update list \<Rightarrow> 'x + 's \<Rightarrow> ('s, 'a) hook \<Rightarrow> bool" where
  "hook_ok f rest goal h \<longleftrightarrow>
     settle f (baseQueue h @ rest) (baseState h) = goal \<and> eager_ok f (baseQueue h @ rest) (baseState h) \<and>
     (idle_all f (baseQueue h) (baseState h) \<longrightarrow> memoizedState h = baseState h) \<and>
     (\<forall>u \<in> set (baseQueue h). u_revert u = 0)"

definition shown :: "('s, 'a, 'x) reducer \<Rightarrow> ('s, 'a) hook \<Rightarrow> 's \<Rightarrow> bool" where
  "shown f h l \<longleftrightarrow> (idle_all f (baseQueue h) (baseState h) \<longrightarrow> l = baseState h)"

lemma run_updates_ok:
  assumes "l_threw (run_updates e f us s) = None" "eager_ok f (us @ rest) s"
    and "\<forall>u \<in> set us. u_revert u = 0" and "t = run_updates e f us s"
  shows "settle f (l_queue t @ rest) (loop_start t) = settle f (us @ rest) s"
    and "eager_ok f (l_queue t @ rest) (loop_start t)"
    and "l_queue t \<noteq> [] \<Longrightarrow> l_skipped t \<noteq> 0 \<and> (idle_all f (l_queue t) (l_base t) \<longrightarrow> l_state t = l_base t)"
    and "\<forall>u \<in> set (l_queue t). u_revert u = 0"
proof -
  have "loop_ok f (us @ rest) (start_loop s)"
    using assms(2) by (simp add: loop_ok_def start_loop_def loop_start_def)
  then have "leads f rest t = leads f (us @ rest) (start_loop s) \<and> loop_ok f rest t"
    using run_fold assms(1,4) unfolding run_updates_def by blast
  then show "settle f (l_queue t @ rest) (loop_start t) = settle f (us @ rest) s"
    and "eager_ok f (l_queue t @ rest) (loop_start t)"
    and "l_queue t \<noteq> [] \<Longrightarrow> l_skipped t \<noteq> 0 \<and> (idle_all f (l_queue t) (l_base t) \<longrightarrow> l_state t = l_base t)"
    by (auto simp: leads_def loop_ok_def start_loop_def loop_start_def)
  show "\<forall>u \<in> set (l_queue t). u_revert u = 0"
    unfolding assms(4) run_updates_def using assms(3) by (intro fold_reverts) (simp_all add: start_loop_def)
qed

lemma run_updates_idle:
  assumes "idle_all f us s" "eager_ok f us s"
  shows "resting f s (run_updates e f us s)"
  unfolding run_updates_def
  using assms eager_idle [OF assms]
  by (intro resting_fold) (auto simp: resting_def start_loop_def loop_start_def)

text \<open>What one render of a hook does: to the current hook, which only takes over the pending updates, and to the
  hook of the render.\<close>

lemma Zp_current:
  assumes "Zp e f cur cur q = (out, cur', wip, q', sk)" "hook_ok f (q_pending q @ rest) goal cur"
    and "\<forall>u \<in> set (q_pending q). u_revert u = 0"
  shows "hook_ok f rest goal cur'" and "q_pending q' = []" and "lastRenderedReducer q' = Some f"
    and "baseQueue cur' = baseQueue cur @ q_pending q" and "baseState cur' = baseState cur"
proof -
  have cur': "cur' = (if q_pending q = [] then cur else cur\<lparr>baseQueue := baseQueue cur @ q_pending q\<rparr>)"
    and q': "q_pending q' = []" "lastRenderedReducer q' = Some f"
    using assms(1) by (auto simp: Zp_def Let_def split: option.splits if_splits)
  show "baseQueue cur' = baseQueue cur @ q_pending q" "baseState cur' = baseState cur"
    by (simp_all add: cur')
  show "hook_ok f rest goal cur'"
    using assms(2,3) by (auto simp: hook_ok_def cur')
qed (use assms(1) in \<open>auto simp: Zp_def Let_def split: option.splits if_splits\<close>)

lemma Zp_rendered:
  assumes "Zp e f cur cur q = (Rendered, cur', wip, q', sk)" "hook_ok f (q_pending q @ rest) goal cur"
    and "\<forall>u \<in> set (q_pending q). u_revert u = 0" "shown f cur (lastRenderedState q)"
  shows "hook_ok f rest goal wip" and "baseQueue wip \<noteq> [] \<Longrightarrow> sk \<noteq> 0" and "shown f wip (lastRenderedState q')"
proof -
  define us where "us = baseQueue cur @ q_pending q"
  define t where "t = run_updates e f us (baseState cur)"
  have cur: "settle f (us @ rest) (baseState cur) = goal" "eager_ok f (us @ rest) (baseState cur)"
    "\<forall>u \<in> set us. u_revert u = 0"
    using assms(2,3) by (auto simp: hook_ok_def us_def)
  show "hook_ok f rest goal wip" "baseQueue wip \<noteq> [] \<Longrightarrow> sk \<noteq> 0" "shown f wip (lastRenderedState q')"
  proof (atomize (full), cases "us = []")
    case True
    then have "wip = cur\<lparr>memoizedState := baseState cur\<rparr>" "lastRenderedState q' = lastRenderedState q" "baseQueue cur = []"
      using assms(1) by (auto simp: Zp_def Let_def us_def)
    then show "hook_ok f rest goal wip \<and> (baseQueue wip \<noteq> [] \<longrightarrow> sk \<noteq> 0) \<and> shown f wip (lastRenderedState q')"
      using cur assms(4) True by (auto simp: hook_ok_def shown_def)
  next
    case False
    then have res: "l_threw t = None" "sk = l_skipped t" "lastRenderedState q' = l_state t"
      "memoizedState wip = l_state t" "baseState wip = loop_start t" "baseQueue wip = l_queue t"
      using assms(1) unfolding us_def [symmetric] t_def
      by (auto simp: Zp_def Let_def us_def [symmetric] loop_start_def split: option.splits if_splits)
    note ok = run_updates_ok [OF res(1) [unfolded t_def] cur(2,3) t_def]
    have "idle_all f (l_queue t) (loop_start t) \<Longrightarrow> l_state t = loop_start t"
      using ok(3) by (auto simp: loop_start_def split: if_splits)
    then show "hook_ok f rest goal wip \<and> (baseQueue wip \<noteq> [] \<longrightarrow> sk \<noteq> 0) \<and> shown f wip (lastRenderedState q')"
      using ok cur(1) by (auto simp: hook_ok_def shown_def res)
  qed
qed

text \<open>Rendering updates that change nothing changes nothing.\<close>

lemma Zp_idle:
  assumes "Zp e f cur cur q = (out, cur', wip, q', sk)" "hook_ok f (q_pending q @ rest) goal cur"
    and "idle_all f (baseQueue cur @ q_pending q) (baseState cur)" "shown f cur (lastRenderedState q)"
  shows "lastRenderedState q' = baseState cur" and "out = Rendered \<Longrightarrow> baseState wip = baseState cur"
    and "out = Rendered \<Longrightarrow> idle_all f (baseQueue wip) (baseState cur)"
proof -
  define us where "us = baseQueue cur @ q_pending q"
  define t where "t = run_updates e f us (baseState cur)"
  have "eager_ok f us (baseState cur)"
    using assms(2) eager_ok_prefix unfolding hook_ok_def us_def by (metis append_assoc)
  then have t: "resting f (baseState cur) t"
    unfolding t_def using assms(3) by (intro run_updates_idle) (simp_all add: us_def)
  have sub: "idle_all f (baseQueue cur) (baseState cur)" using assms(3) by simp
  have old: "lastRenderedState q = baseState cur"
    using assms(3,4) by (auto simp: shown_def)
  show "lastRenderedState q' = baseState cur" "out = Rendered \<Longrightarrow> baseState wip = baseState cur"
    "out = Rendered \<Longrightarrow> idle_all f (baseQueue wip) (baseState cur)"
    using assms(1) t old sub unfolding resting_def loop_start_def
    by (auto simp: Zp_def Let_def us_def [symmetric] t_def [symmetric] split: option.splits if_splits)
qed

end
