(* ===== verification/React_Components.thy ===== *)
theory React_Components
  imports React_Updates
begin

text \<open>
  The life of a component with a state hook: updates are dispatched at any time, staged and queued, rendered with any
  lanes, and renders are committed or given up. In every reachable state the queued updates still lead to what all
  dispatched actions lead to in their order.
\<close>

section \<open>Reachable components\<close>

definition staged :: "('s, 'a, 'x) comp \<Rightarrow> ('s, 'a) update list" where
  "staged c = map fst (c_staged c)"

definition outstanding :: "('s, 'a, 'x) comp \<Rightarrow> ('s, 'a) update list" where
  "outstanding c = q_pending (c_queue c) @ staged c"

definition mount :: "('s, 'a, 'x) reducer \<Rightarrow> 's \<Rightarrow> ('s, 'a, 'x) comp" where
  "mount f s =
     \<lparr>c_hook = \<lparr>memoizedState = s, baseState = s, baseQueue = []\<rparr>, c_wip = None,
      c_queue = \<lparr>q_pending = [], q_lanes = 0, lastRenderedReducer = Some f, lastRenderedState = s\<rparr>,
      c_staged = [], c_lanes = 0, c_alternate = None\<rparr>"

text \<open>The actions dispatched so far are kept as a log. A render is finished when the rest of the tree has been
  rendered and what was staged meanwhile is queued; only then is it committed.\<close>

inductive hook_reach :: "('s, 'a, 'x) reducer \<Rightarrow> 's \<Rightarrow> 'a list \<Rightarrow> bool \<Rightarrow> ('s, 'a, 'x) comp \<Rightarrow> bool" for f s where
  Mounted: "hook_reach f s [] False (mount f s)"
| Dispatched: "hook_reach f s as d c \<Longrightarrow> p \<noteq> 0 \<Longrightarrow> hook_reach f s (as @ [a]) d (fst (xu p False i a c))"
| Queued: "hook_reach f s as d c \<Longrightarrow> hook_reach f s as d (za c)"
| Rendering: "hook_reach f s as d c \<Longrightarrow> hook_reach f s as False (fst (render e f c))"
| Copied: "hook_reach f s as d c \<Longrightarrow> hook_reach f s as False (bail_out c)"
| Finished: "hook_reach f s as d c \<Longrightarrow> hook_reach f s as True (za c)"
| Committed: "hook_reach f s as True c \<Longrightarrow> hook_reach f s as False (commit c)"

section \<open>The invariant\<close>

text \<open>The updates staged without a lane, which were found to change nothing, come first.\<close>

definition quiet :: "('s, 'a, 'x) comp \<Rightarrow> ('s, 'a) update list" where
  "quiet c = map fst (takeWhile (\<lambda>up. snd up = 0) (c_staged c))"

abbreviation idle_hook :: "('s, 'a, 'x) reducer \<Rightarrow> ('s, 'a) hook \<Rightarrow> ('s, 'a) update list \<Rightarrow> bool" where
  "idle_hook f h rest \<equiv> idle_all f (baseQueue h @ rest) (baseState h)"

definition hook_inv :: "('s, 'a, 'x) reducer \<Rightarrow> 'x + 's \<Rightarrow> ('s, 'a, 'x) comp \<Rightarrow> ('s, 'a) hook \<Rightarrow> bool" where
  "hook_inv f goal c h \<longleftrightarrow> hook_ok f (outstanding c) goal h \<and> shown f h (lastRenderedState (c_queue c)) \<and>
     (quiet c \<noteq> [] \<longrightarrow> idle_hook f h (q_pending (c_queue c) @ quiet c))"

definition comp_inv :: "('s, 'a, 'x) reducer \<Rightarrow> 'x + 's \<Rightarrow> bool \<Rightarrow> ('s, 'a, 'x) comp \<Rightarrow> bool" where
  "comp_inv f goal d c \<longleftrightarrow>
     lastRenderedReducer (c_queue c) = Some f \<and> (\<forall>u \<in> set (outstanding c). u_revert u = 0) \<and>
     hook_inv f goal c (c_hook c) \<and> (c_lanes c = 0 \<longrightarrow> idle_hook f (c_hook c) (outstanding c)) \<and>
     (\<forall>h. c_wip c = Some h \<longrightarrow> hook_inv f goal c h \<and>
        (\<exists>l. c_alternate c = Some l \<and>
           (l = 0 \<longrightarrow> idle_hook f h (q_pending (c_queue c))) \<and>
           (l = 0 \<and> (d \<or> c_lanes c = 0) \<longrightarrow> idle_hook f h (outstanding c))))"

lemma set_quiet: "set (quiet c) \<subseteq> set (staged c)"
  unfolding quiet_def staged_def by (auto dest: set_takeWhileD)

lemma hook_okD:
  assumes "hook_ok f rest goal h"
  shows "settle f (baseQueue h @ rest) (baseState h) = goal" "eager_ok f (baseQueue h @ rest) (baseState h)"
  using assms by (simp_all add: hook_ok_def)

section \<open>Dispatching keeps the invariant\<close>

definition then_apply :: "('s, 'a, 'x) reducer \<Rightarrow> 'a \<Rightarrow> 'x + 's \<Rightarrow> 'x + 's" where
  "then_apply f a g = (case g of Inl x \<Rightarrow> Inl x | Inr v \<Rightarrow> f v a)"

lemma run_all_append: "run_all f (as @ [a]) s = then_apply f a (run_all f as s)"
  by (induction as arbitrary: s) (auto simp: then_apply_def split: sum.split)

lemma outstanding_Ua [simp]: "outstanding (Ua u p c) = outstanding c @ [u]"
  by (simp add: outstanding_def staged_def Ua_def add_lanes_def)

lemma Ua_sel [simp]: "c_hook (Ua u p c) = c_hook c" "c_wip (Ua u p c) = c_wip c" "c_queue (Ua u p c) = c_queue c"
  "c_lanes (Ua u p c) = c_lanes c OR p" "c_alternate (Ua u p c) = map_option (\<lambda>a. a OR p) (c_alternate c)"
  by (simp_all add: Ua_def add_lanes_def)

lemma quiet_Ua: "p \<noteq> 0 \<Longrightarrow> quiet (Ua u p c) = quiet c"
  by (simp add: quiet_def Ua_def add_lanes_def takeWhile_tail)

lemma settle_snoc:
  "u_revert u = 0 \<Longrightarrow> settle f (xs @ [u]) s = then_apply f (u_action u) (settle f xs s)"
  by (simp add: settle_append then_apply_def split: sum.split)

text \<open>An update added to a hook: without precomputed state, or with one to a hook whose updates change nothing.\<close>

lemma hook_ok_add:
  assumes "hook_ok f rest goal h" "u_revert u = 0"
    and "u_eager u = None \<or> idle_hook f h rest \<and> (\<forall>v. u_eager u = Some v \<longrightarrow> f (baseState h) (u_action u) = Inr v)"
  shows "hook_ok f (rest @ [u]) (then_apply f (u_action u) goal) h"
proof -
  note h = hook_okD [OF assms(1)]
  have "settle f ((baseQueue h @ rest) @ [u]) (baseState h) = then_apply f (u_action u) goal"
    using settle_snoc [OF assms(2)] h(1) by metis
  moreover have "eager_ok f ((baseQueue h @ rest) @ [u]) (baseState h)"
  proof (cases "u_eager u")
    case None
    then show ?thesis using h(2) eager_ok_plain [of u f "baseQueue h @ rest"] by blast
  next
    case (Some v)
    then have "idle_all f (baseQueue h @ rest) (baseState h)" using assms(3) by auto
    then show ?thesis using h(2) assms(2,3) Some by (simp only: eager_ok_idle) simp
  qed
  ultimately show ?thesis using assms(1) by (simp add: hook_ok_def)
qed

lemma hook_inv_add:
  assumes "hook_inv f goal c h" "u_revert u = 0" "u_eager u = None" "p \<noteq> 0"
  shows "hook_inv f (then_apply f (u_action u) goal) (Ua u p c) h"
  using assms hook_ok_add [of f "outstanding c" goal h u] by (simp add: hook_inv_def quiet_Ua)

lemma shown_idle: "shown f h l \<Longrightarrow> idle_hook f h rest \<Longrightarrow> l = baseState h"
  by (simp add: shown_def)

lemma hook_inv_eager:
  assumes "hook_inv f goal c h" "u_revert u = 0" "idle_hook f h (outstanding c)" "u_eager u = Some v"
    and "f (lastRenderedState (c_queue c)) (u_action u) = Inr v" "p \<noteq> 0 \<or> v = lastRenderedState (c_queue c)"
  shows "hook_inv f (then_apply f (u_action u) goal) (Ua u p c) h"
    and "p = 0 \<Longrightarrow> idle_hook f h (outstanding c @ [u])"
proof -
  have l: "lastRenderedState (c_queue c) = baseState h"
    by (rule shown_idle [OF _ assms(3)]) (use assms(1) in \<open>simp add: hook_inv_def\<close>)
  show idle: "idle_hook f h (outstanding c @ [u])" if "p = 0"
    using assms(2,3,5,6) that by (auto simp: l idle_def)
  have "idle_hook f h (q_pending (c_queue c) @ quiet (Ua u p c))" if "quiet (Ua u p c) \<noteq> []"
  proof (cases "p = 0")
    case True
    have "set (quiet (Ua u p c)) \<subseteq> set (staged c @ [u])"
      using set_quiet [of "Ua u p c"] by (simp add: staged_def Ua_def add_lanes_def)
    then show ?thesis using idle [OF True] by (auto simp: outstanding_def)
  next
    case False
    then show ?thesis using assms(3) set_quiet [of c] by (auto simp: quiet_Ua outstanding_def)
  qed
  moreover have "hook_ok f (outstanding c @ [u]) (then_apply f (u_action u) goal) h"
    using assms by (intro hook_ok_add) (auto simp: hook_inv_def l)
  ultimately show "hook_inv f (then_apply f (u_action u) goal) (Ua u p c) h"
    using assms(1) by (simp add: hook_inv_def)
qed

lemma comp_inv_plain:
  assumes "comp_inv f goal d c" "p \<noteq> 0"
  shows "comp_inv f (then_apply f a goal) d (Ua (new_update p a) p c)"
proof -
  have p: "l OR p \<noteq> 0" for l using or_nonzero [OF assms(2)] by blast
  have "hook_inv f (then_apply f a goal) (Ua (new_update p a) p c) h" if "hook_inv f goal c h" for h
    using hook_inv_add [OF that, of "new_update p a" p] assms(2) by (simp add: new_update_def)
  then show ?thesis using assms(1) p unfolding comp_inv_def by (auto simp: new_update_def)
qed

lemma comp_inv_eager:
  assumes "comp_inv f goal d c" "c_lanes c = 0" "c_alternate c \<in> {None, Some 0}"
    and "f (lastRenderedState (c_queue c)) a = Inr v" "q \<noteq> 0 \<or> v = lastRenderedState (c_queue c)"
  shows "comp_inv f (then_apply f a goal) d (Ua (new_update p a\<lparr>u_eager := Some v\<rparr>) q c)"
proof -
  let ?u = "new_update p a\<lparr>u_eager := Some v\<rparr>"
  have u: "u_revert ?u = 0" "u_eager ?u = Some v" "u_action ?u = a" by (simp_all add: new_update_def)
  have idle: "idle_hook f h (outstanding c)" if "h = c_hook c \<or> c_wip c = Some h" for h
    using assms(1-3) that unfolding comp_inv_def by auto
  have inv: "hook_inv f (then_apply f a goal) (Ua ?u q c) h" "q = 0 \<Longrightarrow> idle_hook f h (outstanding c @ [?u])"
    if "h = c_hook c \<or> c_wip c = Some h" for h
  proof -
    have "hook_inv f goal c h" using assms(1) that unfolding comp_inv_def by auto
    note e = hook_inv_eager [OF this u(1) idle [OF that] u(2)]
    show "hook_inv f (then_apply f a goal) (Ua ?u q c) h" "q = 0 \<Longrightarrow> idle_hook f h (outstanding c @ [?u])"
      using e [unfolded u(3)] assms(4,5) by blast+
  qed
  have pend: "idle_hook f h (q_pending (c_queue c))" if "idle_hook f h (outstanding c)" for h
    using that by (auto simp: outstanding_def)
  have "\<exists>l. c_alternate (Ua ?u q c) = Some l \<and> (l = 0 \<longrightarrow> idle_hook f h (q_pending (c_queue c))) \<and>
      (l = 0 \<and> (d \<or> c_lanes (Ua ?u q c) = 0) \<longrightarrow> idle_hook f h (outstanding (Ua ?u q c)))"
    if "c_wip c = Some h" for h
  proof -
    have "c_alternate c = Some 0" using assms(1,3) that unfolding comp_inv_def by auto
    then show ?thesis using inv(2) [of h] idle [of h] pend that by (simp add: assms(2))
  qed
  moreover have "c_lanes (Ua ?u q c) = 0 \<longrightarrow> idle_hook f (c_hook c) (outstanding (Ua ?u q c))"
    using inv(2) by (simp add: assms(2))
  moreover have "lastRenderedReducer (c_queue c) = Some f" "\<forall>x \<in> set (outstanding (Ua ?u q c)). u_revert x = 0"
    using assms(1) u(1) unfolding comp_inv_def by auto
  ultimately show ?thesis using inv(1) unfolding comp_inv_def by auto
qed

lemma comp_inv_dispatch:
  assumes "comp_inv f goal d c" "p \<noteq> 0"
  shows "\<exists>u q. fst (xu p False i a c) \<in> {Ua u q c, za (Ua u q c)} \<and> comp_inv f (then_apply f a goal) d (Ua u q c)"
proof (cases "eager_state a c")
  case None
  then show ?thesis using comp_inv_plain [OF assms] by (auto simp: xu_def Let_def)
next
  case (Some v)
  then have eager: "c_lanes c = 0" "c_alternate c \<in> {None, Some 0}"
    "f (lastRenderedState (c_queue c)) a = Inr v"
    using assms(1) by (auto simp: eager_state_def comp_inv_def split: if_splits option.splits sum.splits)
  let ?u = "new_update p a\<lparr>u_eager := Some v\<rparr>"
  note e = comp_inv_eager [OF assms(1) eager, of _ p]
  show ?thesis
    using Some e [of 0] e [of p] assms(2) by (cases "v = lastRenderedState (c_queue c)") (auto simp: xu_def Let_def)
qed

section \<open>Queueing, rendering and committing keep it\<close>

lemma add_lanes_sel [simp]: "c_hook (add_lanes l c) = c_hook c" "c_wip (add_lanes l c) = c_wip c"
  "c_queue (add_lanes l c) = c_queue c" "c_staged (add_lanes l c) = c_staged c"
  "c_lanes (add_lanes l c) = c_lanes c OR l" "c_alternate (add_lanes l c) = map_option (\<lambda>a. a OR l) (c_alternate c)"
  by (simp_all add: add_lanes_def)

lemma za_entry_sel [simp]: "c_hook (za_entry up c) = c_hook c" "c_wip (za_entry up c) = c_wip c"
  "c_queue (za_entry up c) = (c_queue c)\<lparr>q_pending := q_pending (c_queue c) @ [fst up]\<rparr>"
  "c_staged (za_entry up c) = c_staged c" "c_lanes (za_entry up c) = c_lanes c OR snd up"
  "c_alternate (za_entry up c) = map_option (\<lambda>a. a OR snd up) (c_alternate c)"
  by (simp_all add: za_entry_def Let_def option.map_ident)

lemma or_all: "fold (\<lambda>up l. l OR snd up) xs (l :: lanes) = 0 \<longleftrightarrow> l = 0 \<and> (\<forall>up \<in> set xs. snd up = 0)"
  by (induction xs arbitrary: l) (auto simp: or_eq_0_iff)

lemma za_fold:
  "c_hook (fold za_entry xs c) = c_hook c" "c_wip (fold za_entry xs c) = c_wip c"
  "c_queue (fold za_entry xs c) = (c_queue c)\<lparr>q_pending := q_pending (c_queue c) @ map fst xs\<rparr>"
  "c_staged (fold za_entry xs c) = c_staged c"
  "c_lanes (fold za_entry xs c) = fold (\<lambda>up l. l OR snd up) xs (c_lanes c)"
  "c_alternate (fold za_entry xs c) = map_option (fold (\<lambda>up l. l OR snd up) xs) (c_alternate c)"
  by (induction xs arbitrary: c) (simp_all add: option.map_comp comp_def option.map_id)

lemma za_sel [simp]: "c_hook (za c) = c_hook c" "c_wip (za c) = c_wip c"
  "c_queue (za c) = (c_queue c)\<lparr>q_pending := outstanding c\<rparr>" "c_staged (za c) = []"
  by (simp_all add: za_def za_fold outstanding_def staged_def)

lemma outstanding_za [simp]: "outstanding (za c) = outstanding c" "quiet (za c) = []"
  by (simp_all add: outstanding_def [of "za c"] staged_def quiet_def)

lemma hook_inv_za: "hook_inv f goal c h \<Longrightarrow> hook_inv f goal (za c) h"
  by (simp add: hook_inv_def)

lemma quiet_staged: "\<forall>up \<in> set (c_staged c). snd up = 0 \<Longrightarrow> quiet c = staged c"
  unfolding quiet_def staged_def by (subst takeWhile_eq_all_conv [THEN iffD2]) simp_all

lemma comp_inv_za:
  assumes "comp_inv f goal d c"
  shows "comp_inv f goal d' (za c)"
proof -
  have lanes: "c_lanes (za c) = 0 \<longrightarrow> c_lanes c = 0"
    and alt: "\<And>l. c_alternate c = Some l \<Longrightarrow> \<exists>l'. c_alternate (za c) = Some l' \<and>
      (l' = 0 \<longrightarrow> l = 0 \<and> (\<forall>up \<in> set (c_staged c). snd up = 0))"
    by (simp_all add: za_def za_fold or_all)
  have "hook_inv f goal (za c) h \<and> (\<exists>l'. c_alternate (za c) = Some l' \<and>
      (l' = 0 \<longrightarrow> idle_hook f h (outstanding c)))" if w: "c_wip c = Some h" for h
  proof -
    have h: "hook_inv f goal c h" using assms w unfolding comp_inv_def by auto
    obtain l where l: "c_alternate c = Some l" "l = 0 \<longrightarrow> idle_hook f h (q_pending (c_queue c))"
      using assms w unfolding comp_inv_def by auto
    obtain l' where l': "c_alternate (za c) = Some l'"
      "l' = 0 \<longrightarrow> l = 0 \<and> (\<forall>up \<in> set (c_staged c). snd up = 0)" using alt [OF l(1)] by blast
    have "idle_hook f h (outstanding c)" if "l' = 0"
    proof -
      have q: "quiet c = staged c" using l' that quiet_staged by blast
      have "l = 0" using l'(2) that by blast
      then show ?thesis using h l(2) unfolding hook_inv_def q outstanding_def by (cases "staged c = []") auto
    qed
    then show ?thesis using hook_inv_za [OF h] l'(1) by blast
  qed
  then show ?thesis
    using assms lanes hook_inv_za unfolding comp_inv_def by auto
qed

lemma comp_inv_render:
  assumes "comp_inv f goal d c"
  shows "comp_inv f goal False (fst (render e f c))"
proof -
  obtain out cur wip q sk where z: "Zp e f (c_hook c) (c_hook c) (c_queue c) = (out, cur, wip, q, sk)"
    by (metis prod_cases5)
  let ?c = "fst (render e f c)"
  have c: "?c = c\<lparr>c_hook := cur, c_queue := q, c_alternate := Some sk, c_wip := if out = Rendered then Some wip else None\<rparr>"
    by (simp add: render_def z)
  have inv: "hook_ok f (q_pending (c_queue c) @ staged c) goal (c_hook c)"
    "shown f (c_hook c) (lastRenderedState (c_queue c))" "\<forall>u \<in> set (q_pending (c_queue c)). u_revert u = 0"
    "\<forall>u \<in> set (staged c). u_revert u = 0"
    "quiet c \<noteq> [] \<Longrightarrow> idle_hook f (c_hook c) (q_pending (c_queue c) @ quiet c)"
    "c_lanes c = 0 \<Longrightarrow> idle_hook f (c_hook c) (q_pending (c_queue c) @ staged c)"
    using assms unfolding comp_inv_def hook_inv_def outstanding_def by auto
  note cur = Zp_current [OF z inv(1,3)]
  note idle = Zp_idle [OF z inv(1) _ inv(2)]
  have out: "outstanding ?c = staged c" "quiet ?c = quiet c"
    using cur(2) by (simp_all add: c outstanding_def staged_def quiet_def)
  have shown_cur: "shown f cur (lastRenderedState q)"
    using idle(1) cur(4,5) by (simp add: shown_def)
  have "hook_inv f goal ?c cur"
    using cur inv(5) shown_cur unfolding hook_inv_def out by (auto simp: c)
  moreover have "hook_inv f goal ?c wip \<and> (sk = 0 \<longrightarrow> baseQueue wip = []) \<and>
      (c_lanes c = 0 \<longrightarrow> idle_hook f wip (staged c))" if o: "out = Rendered"
  proof -
    have step: "idle_hook f wip xs" if i: "idle_hook f (c_hook c) (q_pending (c_queue c) @ xs)" for xs
    proof -
      have "idle_hook f (c_hook c) (q_pending (c_queue c))" using i by auto
      then show ?thesis using idle(2,3) o i by auto
    qed
    note r = Zp_rendered [OF z [unfolded o] inv(1,3,2)]
    have "hook_inv f goal ?c wip"
      using r inv(5) step unfolding hook_inv_def out by (auto simp: c cur(2))
    then show ?thesis using r(2) step inv(6) by blast
  qed
  ultimately show ?thesis
    using inv(4,6) cur(2,3,4,5) unfolding comp_inv_def out by (auto simp: c)
qed

lemma comp_inv_commit:
  assumes "comp_inv f goal True c"
  shows "comp_inv f goal False (commit c)"
proof (cases "c_wip c")
  case None
  then have "commit c = c" by (simp add: commit_def)
  then show ?thesis using assms None by (simp add: comp_inv_def)
next
  case (Some h)
  then obtain l where l: "hook_inv f goal c h" "c_alternate c = Some l" "l = 0 \<longrightarrow> idle_hook f h (outstanding c)"
    using assms unfolding comp_inv_def by auto
  have c: "commit c = c\<lparr>c_hook := h, c_wip := None, c_lanes := l, c_alternate := Some (c_lanes c)\<rparr>"
    using Some l(2) by (simp add: commit_def)
  have same: "outstanding (commit c) = outstanding c" "quiet (commit c) = quiet c"
    by (simp_all add: c outstanding_def staged_def quiet_def)
  have "hook_inv f goal (commit c) h" using l(1) unfolding hook_inv_def same by (simp add: c)
  then show ?thesis using assms l(3) unfolding comp_inv_def same by (simp add: c)
qed

lemma comp_inv_reach:
  assumes "hook_reach f s as d c"
  shows "comp_inv f (run_all f as s) d c"
  using assms
proof induction
  case Mounted
  show ?case
    by (simp add: comp_inv_def mount_def hook_inv_def hook_ok_def shown_def outstanding_def staged_def quiet_def)
next
  case (Dispatched as d c p a i)
  then obtain u q where "fst (xu p False i a c) \<in> {Ua u q c, za (Ua u q c)}"
    "comp_inv f (run_all f (as @ [a]) s) d (Ua u q c)"
    using comp_inv_dispatch unfolding run_all_append by metis
  then show ?case using comp_inv_za by auto
next
  case (Committed as c)
  then show ?case by (intro comp_inv_commit)
next
  case (Copied as d c)
  then show ?case
    unfolding comp_inv_def hook_inv_def outstanding_def staged_def quiet_def bail_out_def by auto
qed (auto intro: comp_inv_za comp_inv_render)

section \<open>Theorems\<close>


text \<open>A component whose fiber has no lanes left shows the state all the actions dispatched to its hook lead to;
  so no update is forgotten by the scheduling of renders.\<close>

lemma settled_component:
  assumes "hook_reach f s as d c" "c_lanes c = 0"
  shows "run_all f as s = Inr (memoizedState (c_hook c))"
proof -
  have "idle_hook f (c_hook c) (outstanding c)" "hook_ok f (outstanding c) (run_all f as s) (c_hook c)"
    using comp_inv_reach [OF assms(1)] assms(2) unfolding comp_inv_def hook_inv_def by auto
  then show ?thesis using settle_idle [of "baseQueue (c_hook c) @ outstanding c" f "baseState (c_hook c)"]
    unfolding hook_ok_def by auto
qed

section \<open>A concrete component\<close>

text \<open>A counter with two updates, of which a synchronous render runs the second only.\<close>

definition counter :: "(int, int, unit) reducer" where
  "counter n k = Inr (10 * n + k)"

definition sample_render :: render_env where
  "sample_render = \<lparr>xl = 2, wt = 2, no = 0, waiting = False\<rparr>"

definition sample_late :: render_env where
  "sample_late = \<lparr>xl = 34, wt = 34, no = 0, waiting = False\<rparr>"

definition sample_comp :: "(int, int, unit) comp" where
  "sample_comp =
     commit (za (fst (render sample_render counter
       (za (fst (xu 2 False False 2 (fst (xu 32 False False 1 (mount counter 0)))))))))"

definition sample_done :: "(int, int, unit) comp" where
  "sample_done = commit (za (fst (render sample_late counter sample_comp)))"

lemma sample_comp_reach: "hook_reach counter 0 [1, 2] False sample_comp"
proof -
  have "hook_reach counter 0 ([] @ [1] @ [2]) False
    (fst (xu 2 False False 2 (fst (xu 32 False False 1 (mount counter 0)))))"
    unfolding append_assoc [symmetric]
    by (intro hook_reach.Dispatched hook_reach.Mounted) simp_all
  then show ?thesis
    unfolding sample_comp_def
    by (intro hook_reach.Committed hook_reach.Finished [of _ _ _ False] hook_reach.Rendering [of _ _ _ False]
        hook_reach.Queued) simp
qed

lemma sample_done_reach: "hook_reach counter 0 [1, 2] False sample_done"
  unfolding sample_done_def
  by (intro hook_reach.Committed hook_reach.Finished [of _ _ _ False] hook_reach.Rendering [of _ _ _ False] sample_comp_reach)

lemmas sample_hook_eval = sample_done_def sample_comp_def sample_render_def sample_late_def mount_def xu_def Ua_def
  add_lanes_def za_def za_entry_def render_def Zp_def Let_def run_updates_def run_update_def start_loop_def
  included_def update_lane_def reduce_def apply_update_def keep_def counter_def new_update_def eager_state_def
  commit_def


end
