(* ===== verification/React_Children.thy ===== *)
theory React_Children
  imports React_Lanes "HOL-Library.AList"
begin

text \<open>
  How the bundled \<open>react-dom\<close> (\<open>src/internal/admin/dist/index-DxrWcVFD.js\<close>) reconciles the children of a component
  with what it rendered: which old fibers are kept, which are created, which are deleted, and which have to be placed.
  What user code decides is part of the rendered values: the result of a lazy value or promise, the value of a
  context, the items of an iterable. Whether a host element is hoisted to the document's head is a parameter.
  Hydration is not modelled.
\<close>

section \<open>What a component renders\<close>

text \<open>The types of elements. Function and class components, and the types given by an object, are numbered.\<close>

datatype etype =
    Function_type nat | Class_type nat | Host_type string
  | Activity | Fragment | Strict_mode | Profiler | Suspense | Suspense_list
  | Provider nat | Consumer nat | Forward_ref nat | Memo nat | Lazy_type nat | Unknown_type nat

text \<open>Strings and numbers, the latter as the string they are converted to; elements with type, key, child prop, ref
  and other props; portals with key, container and implementation; everything that renders nothing (null, undefined,
  booleans, functions, symbols). A lazy value, a promise or a context has the value it resolves to or what is
  thrown instead.\<close>

datatype ('p, 'x) node =
    Text string
  | Number string
  | Element etype "string option" "('p, 'x) node" "nat option" 'p
  | Portal "string option" nat nat "('p, 'x) node"
  | Lazy "'x + ('p, 'x) node"
  | Array "('p, 'x) node list"
  | Iterable "('p, 'x) node list option"
  | Thenable "'x + ('p, 'x) node"
  | Context "('p, 'x) node"
  | Object string
  | Nothing

datatype 'x child_error = Not_a_child string | No_iterator | Thrown 'x

section \<open>Fibers\<close>

datatype ('p, 'x) props =
    Text_props string
  | Node_props "('p, 'x) node"
  | Element_props "('p, 'x) node" "nat option" 'p

record ('p, 'x) fiber =
  f_id :: nat
  f_tag :: nat
  f_key :: "string option"
  f_index :: nat
  f_elementType :: "etype option"
  f_type :: "etype option"
  f_props :: "('p, 'x) props"
  f_state :: "(nat \<times> nat) option"
  f_ref :: "nat option"
  f_flags :: "32 word"
  f_lanes :: lanes

text \<open>A fiber of the render in progress: with the fiber it continues (its alternate), if any.\<close>

record ('p, 'x) work =
  w_old :: "('p, 'x) fiber option"
  w_tag :: nat
  w_key :: "string option"
  w_index :: nat
  w_elementType :: "etype option"
  w_type :: "etype option"
  w_props :: "('p, 'x) props"
  w_state :: "(nat \<times> nat) option"
  w_ref :: "nat option"
  w_flags :: "32 word"
  w_lanes :: lanes

text \<open>\<open>createFiber\<close> and its callers.\<close>

definition Bn :: "nat \<Rightarrow> ('p, 'x) props \<Rightarrow> string option \<Rightarrow> lanes \<Rightarrow> ('p, 'x) work" where
  "Bn t props key lanes =
     \<lparr>w_old = None, w_tag = t, w_key = key, w_index = 0, w_elementType = None, w_type = None, w_props = props,
      w_state = None, w_ref = None, w_flags = 0, w_lanes = lanes\<rparr>"

definition Cs :: "string \<Rightarrow> lanes \<Rightarrow> ('p, 'x) work" where
  "Cs s lanes = Bn 6 (Text_props s) None lanes"

definition hu :: "('p, 'x) node \<Rightarrow> lanes \<Rightarrow> string option \<Rightarrow> ('p, 'x) work" where
  "hu children lanes key = Bn 7 (Node_props children) key lanes"

text \<open>A portal keeps its container and implementation in \<open>stateNode\<close>; it renders an empty list instead of nothing.\<close>

definition Bp :: "string option \<Rightarrow> nat \<Rightarrow> nat \<Rightarrow> ('p, 'x) node \<Rightarrow> lanes \<Rightarrow> ('p, 'x) work" where
  "Bp key container impl children lanes =
     (Bn 4 (Node_props (if children = Nothing then Array [] else children)) key lanes)\<lparr>w_state := Some (container, impl)\<rparr>"

text \<open>The tag of a new fiber by the type of its element; an unknown type gives a fiber that throws.\<close>

definition type_tag :: "(string \<Rightarrow> 'p \<Rightarrow> bool) \<Rightarrow> etype \<Rightarrow> 'p \<Rightarrow> nat" where
  "type_tag hoisted ty p =
     (case ty of
        Function_type n \<Rightarrow> 0
      | Class_type n \<Rightarrow> 1
      | Host_type s \<Rightarrow> if hoisted s p then 26 else if s \<in> {''html'', ''head'', ''body''} then 27 else 5
      | Activity \<Rightarrow> 31
      | Fragment \<Rightarrow> 7
      | Strict_mode \<Rightarrow> 8
      | Profiler \<Rightarrow> 12
      | Suspense \<Rightarrow> 13
      | Suspense_list \<Rightarrow> 19
      | Provider n \<Rightarrow> 10
      | Consumer n \<Rightarrow> 9
      | Forward_ref n \<Rightarrow> 11
      | Memo n \<Rightarrow> 14
      | Lazy_type n \<Rightarrow> 16
      | Unknown_type n \<Rightarrow> 29)"

definition fiber_type :: "etype \<Rightarrow> etype option" where
  "fiber_type ty =
     (case ty of
        Lazy_type n \<Rightarrow> None
      | Unknown_type n \<Rightarrow> None
      | t \<Rightarrow> if t \<in> {Activity, Profiler, Suspense, Suspense_list} then None else Some t)"

definition qp :: "(string \<Rightarrow> 'p \<Rightarrow> bool) \<Rightarrow> etype \<Rightarrow> string option \<Rightarrow> ('p, 'x) node \<Rightarrow> nat option \<Rightarrow> 'p \<Rightarrow> lanes \<Rightarrow> ('p, 'x) work" where
  "qp hoisted ty key children ref p lanes =
     (if ty = Fragment then hu children lanes key
      else (Bn (type_tag hoisted ty p) (Element_props children ref p) key lanes)
             \<lparr>w_elementType := Some ty, w_type := fiber_type ty\<rparr>)"

section \<open>One child\<close>

text \<open>What the types of lazily loaded components resolve to, and which host elements are hoisted.\<close>

record ('p, 'x) child_env =
  hoisted :: "string \<Rightarrow> 'p \<Rightarrow> bool"
  lazy_type :: "nat \<Rightarrow> 'x + etype"
  new_lanes :: lanes

text \<open>\<open>useFiber\<close>: the work version of a fiber.\<close>

definition use_fiber :: "('p, 'x) fiber \<Rightarrow> ('p, 'x) props \<Rightarrow> ('p, 'x) work" where
  "use_fiber o' props =
     \<lparr>w_old = Some o', w_tag = f_tag o', w_key = f_key o', w_index = 0, w_elementType = f_elementType o',
      w_type = f_type o', w_props = props, w_state = f_state o', w_ref = f_ref o',
      w_flags = f_flags o' AND 65011712, w_lanes = f_lanes o'\<rparr>"

text \<open>\<open>updateTextNode\<close>, \<open>updateFragment\<close>, \<open>updatePortal\<close>\<close>

definition Y :: "('p, 'x) child_env \<Rightarrow> ('p, 'x) fiber option \<Rightarrow> string \<Rightarrow> ('p, 'x) work" where
  "Y E le s =
     (case le of
        Some q \<Rightarrow> if f_tag q = 6 then use_fiber q (Text_props s) else Cs s (new_lanes E)
      | None \<Rightarrow> Cs s (new_lanes E))"

definition Ce :: "('p, 'x) child_env \<Rightarrow> ('p, 'x) fiber option \<Rightarrow> ('p, 'x) node \<Rightarrow> string option \<Rightarrow> ('p, 'x) work" where
  "Ce E le children key =
     (case le of
        Some q \<Rightarrow> if f_tag q = 7 then use_fiber q (Node_props children) else hu children (new_lanes E) key
      | None \<Rightarrow> hu children (new_lanes E) key)"

text \<open>\<open>children || []\<close>\<close>

definition or_empty :: "('p, 'x) node \<Rightarrow> ('p, 'x) node" where
  "or_empty n =
     (case n of
        Nothing \<Rightarrow> Array []
      | Text s \<Rightarrow> if s = '''' then Array [] else n
      | Number s \<Rightarrow> if s = ''0'' \<or> s = ''NaN'' then Array [] else n
      | _ \<Rightarrow> n)"

definition same_portal :: "('p, 'x) fiber \<Rightarrow> nat \<Rightarrow> nat \<Rightarrow> bool" where
  "same_portal q container impl \<longleftrightarrow> f_tag q = 4 \<and> f_state q = Some (container, impl)"

definition Se :: "('p, 'x) child_env \<Rightarrow> ('p, 'x) fiber option \<Rightarrow> string option \<Rightarrow> nat \<Rightarrow> nat \<Rightarrow> ('p, 'x) node \<Rightarrow> ('p, 'x) work" where
  "Se E le key container impl children =
     (case le of
        Some q \<Rightarrow> if same_portal q container impl then use_fiber q (Node_props (or_empty children))
                  else Bp key container impl children (new_lanes E)
      | None \<Rightarrow> Bp key container impl children (new_lanes E))"

text \<open>Whether a fiber is one of an element type; resolving a lazy type can throw.\<close>

definition same_type :: "('p, 'x) child_env \<Rightarrow> ('p, 'x) fiber \<Rightarrow> etype \<Rightarrow> 'x + bool" where
  "same_type E q ty =
     (if f_elementType q = Some ty then Inr True
      else (case ty of
          Lazy_type n \<Rightarrow> (case lazy_type E n of Inl x \<Rightarrow> Inl x | Inr t \<Rightarrow> Inr (f_type q = Some t))
        | _ \<Rightarrow> Inr False))"

definition new_element :: "('p, 'x) child_env \<Rightarrow> etype \<Rightarrow> string option \<Rightarrow> ('p, 'x) node \<Rightarrow> nat option \<Rightarrow> 'p \<Rightarrow> ('p, 'x) work" where
  "new_element E ty key children ref p = (qp (hoisted E) ty key children ref p (new_lanes E))\<lparr>w_ref := ref\<rparr>"

definition te :: "('p, 'x) child_env \<Rightarrow> ('p, 'x) fiber option \<Rightarrow> etype \<Rightarrow> string option \<Rightarrow> ('p, 'x) node \<Rightarrow> nat option \<Rightarrow> 'p \<Rightarrow>
    'x child_error + ('p, 'x) work" where
  "te E le ty key children ref p =
     (if ty = Fragment then Inr (Ce E le children key)
      else (case le of
          None \<Rightarrow> Inr (new_element E ty key children ref p)
        | Some q \<Rightarrow> (case same_type E q ty of
            Inl x \<Rightarrow> Inl (Thrown x)
          | Inr same \<Rightarrow>
              Inr (if same then (use_fiber q (Element_props children ref p))\<lparr>w_ref := ref\<rparr>
                   else new_element E ty key children ref p))))"

text \<open>\<open>createChild\<close>\<close>

fun Ne :: "('p, 'x) child_env \<Rightarrow> ('p, 'x) node \<Rightarrow> 'x child_error + ('p, 'x) work option" where
  "Ne E (Text s) = Inr (if s = '''' then None else Some (Cs s (new_lanes E)))"
| "Ne E (Number s) = Inr (Some (Cs s (new_lanes E)))"
| "Ne E (Element ty key children ref p) = Inr (Some (new_element E ty key children ref p))"
| "Ne E (Portal key container impl children) = Inr (Some (Bp key container impl children (new_lanes E)))"
| "Ne E (Lazy (Inl x)) = Inl (Thrown x)"
| "Ne E (Lazy (Inr n)) = Ne E n"
| "Ne E (Array ns) = Inr (Some (hu (Array ns) (new_lanes E) None))"
| "Ne E (Iterable ns) = Inr (Some (hu (Iterable ns) (new_lanes E) None))"
| "Ne E (Thenable (Inl x)) = Inl (Thrown x)"
| "Ne E (Thenable (Inr n)) = Ne E n"
| "Ne E (Context n) = Ne E n"
| "Ne E (Object s) = Inl (Not_a_child s)"
| "Ne E Nothing = Inr None"

text \<open>\<open>updateSlot\<close>: the child in the place of an old fiber, if their keys agree.\<close>

definition slot_key :: "('p, 'x) fiber option \<Rightarrow> string option" where
  "slot_key le = (case le of None \<Rightarrow> None | Some q \<Rightarrow> f_key q)"

fun xe :: "('p, 'x) child_env \<Rightarrow> ('p, 'x) fiber option \<Rightarrow> ('p, 'x) node \<Rightarrow> 'x child_error + ('p, 'x) work option" where
  "xe E le (Text s) = Inr (if s = '''' \<or> slot_key le \<noteq> None then None else Some (Y E le s))"
| "xe E le (Number s) = Inr (if slot_key le \<noteq> None then None else Some (Y E le s))"
| "xe E le (Element ty key children ref p) =
     (if key = slot_key le then map_sum id Some (te E le ty key children ref p) else Inr None)"
| "xe E le (Portal key container impl children) =
     Inr (if key = slot_key le then Some (Se E le key container impl children) else None)"
| "xe E le (Lazy (Inl x)) = Inl (Thrown x)"
| "xe E le (Lazy (Inr n)) = xe E le n"
| "xe E le (Array ns) = Inr (if slot_key le \<noteq> None then None else Some (Ce E le (Array ns) None))"
| "xe E le (Iterable ns) = Inr (if slot_key le \<noteq> None then None else Some (Ce E le (Iterable ns) None))"
| "xe E le (Thenable (Inl x)) = Inl (Thrown x)"
| "xe E le (Thenable (Inr n)) = xe E le n"
| "xe E le (Context n) = xe E le n"
| "xe E le (Object s) = Inl (Not_a_child s)"
| "xe E le Nothing = Inr None"

text \<open>\<open>mapRemainingChildren\<close>: the old fibers by key, or by index where they have none; in the order of a
  JavaScript \<open>Map\<close>.\<close>

datatype child_key = Key string | Index nat

definition child_key :: "string option \<Rightarrow> nat \<Rightarrow> child_key" where
  "child_key key i = (case key of Some k \<Rightarrow> Key k | None \<Rightarrow> Index i)"

type_synonym ('p, 'x) fiber_map = "(child_key \<times> ('p, 'x) fiber) list"

definition p_map :: "('p, 'x) fiber list \<Rightarrow> ('p, 'x) fiber_map" where
  "p_map olds = fold (\<lambda>q m. AList.update (child_key (f_key q) (f_index q)) q m) olds []"

text \<open>\<open>updateFromMap\<close>\<close>

fun Te :: "('p, 'x) child_env \<Rightarrow> ('p, 'x) fiber_map \<Rightarrow> nat \<Rightarrow> ('p, 'x) node \<Rightarrow> 'x child_error + ('p, 'x) work option" where
  "Te E m i (Text s) = Inr (if s = '''' then None else Some (Y E (map_of m (Index i)) s))"
| "Te E m i (Number s) = Inr (Some (Y E (map_of m (Index i)) s))"
| "Te E m i (Element ty key children ref p) =
     map_sum id Some (te E (map_of m (child_key key i)) ty key children ref p)"
| "Te E m i (Portal key container impl children) =
     Inr (Some (Se E (map_of m (child_key key i)) key container impl children))"
| "Te E m i (Lazy (Inl x)) = Inl (Thrown x)"
| "Te E m i (Lazy (Inr n)) = Te E m i n"
| "Te E m i (Array ns) = Inr (Some (Ce E (map_of m (Index i)) (Array ns) None))"
| "Te E m i (Iterable ns) = Inr (Some (Ce E (map_of m (Index i)) (Iterable ns) None))"
| "Te E m i (Thenable (Inl x)) = Inl (Thrown x)"
| "Te E m i (Thenable (Inr n)) = Te E m i n"
| "Te E m i (Context n) = Te E m i n"
| "Te E m i (Object s) = Inl (Not_a_child s)"
| "Te E m i Nothing = Inr None"

section \<open>A list of children\<close>

text \<open>The new children so far, the last index placed, and the fibers marked for deletion.\<close>

record ('p, 'x) progress =
  p_works :: "('p, 'x) work list"
  p_last :: nat
  p_deleted :: "('p, 'x) fiber list"

text \<open>\<open>placeChild\<close>: a new fiber is to be placed, and an old one that was before the last one kept in place.
  \<open>track\<close> is false when the whole parent is new.\<close>

definition place :: "bool \<Rightarrow> ('p, 'x) work \<Rightarrow> nat \<Rightarrow> nat \<Rightarrow> ('p, 'x) work \<times> nat" where
  "place track wk l i =
     (let w1 = wk\<lparr>w_index := i\<rparr> in
      if \<not> track then (w1\<lparr>w_flags := w_flags w1 OR 1048576\<rparr>, l)
      else (case w_old wk of
          Some q \<Rightarrow>
            if f_index q < l then (w1\<lparr>w_flags := w_flags w1 OR 67108866\<rparr>, l) else (w1, f_index q)
        | None \<Rightarrow> (w1\<lparr>w_flags := w_flags w1 OR 67108866\<rparr>, l)))"

definition add_child :: "bool \<Rightarrow> ('p, 'x) work \<Rightarrow> nat \<Rightarrow> ('p, 'x) progress \<Rightarrow> ('p, 'x) progress" where
  "add_child track wk i st =
     (case place track wk (p_last st) i of (w1, l) \<Rightarrow> st\<lparr>p_works := p_works st @ [w1], p_last := l\<rparr>)"

text \<open>The first loop of \<open>reconcileChildrenArray\<close>, while the keys agree; the result has what is left of both lists.\<close>

fun slots :: "bool \<Rightarrow> ('p, 'x) child_env \<Rightarrow> nat \<Rightarrow> ('p, 'x) fiber list \<Rightarrow> ('p, 'x) node list \<Rightarrow> ('p, 'x) progress \<Rightarrow>
    'x child_error + nat \<times> ('p, 'x) fiber list \<times> ('p, 'x) node list \<times> ('p, 'x) progress" where
  "slots track E i [] news st = Inr (i, [], news, st)"
| "slots track E i olds [] st = Inr (i, olds, [], st)"
| "slots track E i (q # qs) (n # ns) st =
     (let (le, rest) = (if i < f_index q then (None, q # qs) else (Some q, qs)) in
      case xe E le n of
        Inl x \<Rightarrow> Inl x
      | Inr None \<Rightarrow> Inr (i, q # qs, n # ns, st)
      | Inr (Some wk) \<Rightarrow>
          slots track E (Suc i) rest ns
            (add_child track wk i
              (if track \<and> le \<noteq> None \<and> w_old wk = None then st\<lparr>p_deleted := p_deleted st @ [q]\<rparr> else st)))"

text \<open>The second loop, when no old fiber is left.\<close>

fun create_rest :: "bool \<Rightarrow> ('p, 'x) child_env \<Rightarrow> nat \<Rightarrow> ('p, 'x) node list \<Rightarrow> ('p, 'x) progress \<Rightarrow>
    'x child_error + ('p, 'x) progress" where
  "create_rest track E i [] st = Inr st"
| "create_rest track E i (n # ns) st =
     (case Ne E n of
        Inl x \<Rightarrow> Inl x
      | Inr None \<Rightarrow> create_rest track E (Suc i) ns st
      | Inr (Some wk) \<Rightarrow> create_rest track E (Suc i) ns (add_child track wk i st))"

text \<open>The third loop, over the map of the old fibers that are left.\<close>

fun map_rest :: "bool \<Rightarrow> ('p, 'x) child_env \<Rightarrow> nat \<Rightarrow> ('p, 'x) fiber_map \<Rightarrow> ('p, 'x) node list \<Rightarrow> ('p, 'x) progress \<Rightarrow>
    'x child_error + ('p, 'x) fiber_map \<times> ('p, 'x) progress" where
  "map_rest track E i m [] st = Inr (m, st)"
| "map_rest track E i m (n # ns) st =
     (case Te E m i n of
        Inl x \<Rightarrow> Inl x
      | Inr None \<Rightarrow> map_rest track E (Suc i) m ns st
      | Inr (Some wk) \<Rightarrow>
          map_rest track E (Suc i)
            (if track \<and> w_old wk \<noteq> None then AList.delete (child_key (w_key wk) i) m else m) ns
            (add_child track wk i st))"

definition no_progress :: "('p, 'x) progress" where
  "no_progress = \<lparr>p_works = [], p_last = 0, p_deleted = []\<rparr>"

text \<open>\<open>deleteRemainingChildren\<close>\<close>

definition delete_all :: "bool \<Rightarrow> ('p, 'x) fiber list \<Rightarrow> ('p, 'x) fiber list" where
  "delete_all track qs = (if track then qs else [])"

type_synonym ('p, 'x) children = "('p, 'x) work list \<times> ('p, 'x) fiber list"

text \<open>\<open>reconcileChildrenArray\<close> and \<open>reconcileChildrenIterator\<close>: the new children and the deletions.\<close>

definition Qe :: "bool \<Rightarrow> ('p, 'x) child_env \<Rightarrow> ('p, 'x) fiber list \<Rightarrow> ('p, 'x) node list \<Rightarrow>
    'x child_error + ('p, 'x) children" where
  "Qe track E olds news =
     (case slots track E 0 olds news no_progress of
        Inl x \<Rightarrow> Inl x
      | Inr (i, olds', news', st) \<Rightarrow>
          if news' = [] then Inr (p_works st, p_deleted st @ delete_all track olds')
          else if olds' = [] then
            (case create_rest track E i news' st of
               Inl x \<Rightarrow> Inl x
             | Inr st' \<Rightarrow> Inr (p_works st', p_deleted st'))
          else
            (case map_rest track E i (p_map olds') news' st of
               Inl x \<Rightarrow> Inl x
             | Inr (m, st') \<Rightarrow> Inr (p_works st', p_deleted st' @ delete_all track (map snd m))))"

definition at_iter :: "bool \<Rightarrow> ('p, 'x) child_env \<Rightarrow> ('p, 'x) fiber list \<Rightarrow> ('p, 'x) node list option \<Rightarrow>
    'x child_error + ('p, 'x) children" where
  "at_iter track E olds ns =
     (case ns of None \<Rightarrow> Inl No_iterator | Some news \<Rightarrow> Qe track E olds news)"

section \<open>What a component rendered\<close>

text \<open>\<open>placeSingleChild\<close>\<close>

definition single :: "bool \<Rightarrow> ('p, 'x) work \<Rightarrow> ('p, 'x) work" where
  "single track wk =
     (if track \<and> w_old wk = None then wk\<lparr>w_flags := w_flags wk OR 67108866\<rparr> else wk)"

text \<open>The search of \<open>reconcileSingleElement\<close> and \<open>reconcileSinglePortal\<close> for the fiber to keep, with the
  fibers to delete: all others, and where the first fiber with the key does not match, that and those after it.\<close>

fun match_element :: "('p, 'x) child_env \<Rightarrow> string option \<Rightarrow> etype \<Rightarrow> ('p, 'x) fiber list \<Rightarrow>
    'x child_error + ('p, 'x) fiber option \<times> ('p, 'x) fiber list" where
  "match_element E key ty [] = Inr (None, [])"
| "match_element E key ty (q # qs) =
     (if f_key q = key then
        (if ty = Fragment then Inr (if f_tag q = 7 then (Some q, qs) else (None, q # qs))
         else (case same_type E q ty of
             Inl x \<Rightarrow> Inl (Thrown x)
           | Inr same \<Rightarrow> Inr (if same then (Some q, qs) else (None, q # qs))))
      else map_sum id (\<lambda>(r, ds). (r, q # ds)) (match_element E key ty qs))"

fun match_portal :: "string option \<Rightarrow> nat \<Rightarrow> nat \<Rightarrow> ('p, 'x) fiber list \<Rightarrow> ('p, 'x) fiber option \<times> ('p, 'x) fiber list" where
  "match_portal key container impl [] = (None, [])"
| "match_portal key container impl (q # qs) =
     (if f_key q = key then (if same_portal q container impl then (Some q, qs) else (None, q # qs))
      else (case match_portal key container impl qs of (r, ds) \<Rightarrow> (r, q # ds)))"

definition single_element :: "bool \<Rightarrow> ('p, 'x) child_env \<Rightarrow> ('p, 'x) fiber list \<Rightarrow> etype \<Rightarrow> string option \<Rightarrow> ('p, 'x) node \<Rightarrow>
    nat option \<Rightarrow> 'p \<Rightarrow> 'x child_error + ('p, 'x) children" where
  "single_element track E olds ty key children ref p =
     (case match_element E key ty olds of
        Inl x \<Rightarrow> Inl x
      | Inr (r, ds) \<Rightarrow>
          Inr ([single track
                 (case r of
                    Some q \<Rightarrow>
                      if ty = Fragment then use_fiber q (Node_props children)
                      else (use_fiber q (Element_props children ref p))\<lparr>w_ref := ref\<rparr>
                  | None \<Rightarrow>
                      if ty = Fragment then hu children (new_lanes E) key
                      else new_element E ty key children ref p)],
               delete_all track ds))"

definition single_portal :: "bool \<Rightarrow> ('p, 'x) child_env \<Rightarrow> ('p, 'x) fiber list \<Rightarrow> string option \<Rightarrow> nat \<Rightarrow> nat \<Rightarrow> ('p, 'x) node \<Rightarrow>
    ('p, 'x) children" where
  "single_portal track E olds key container impl children =
     (case match_portal key container impl olds of
        (r, ds) \<Rightarrow>
          ([single track
             (case r of
                Some q \<Rightarrow> use_fiber q (Node_props (or_empty children))
              | None \<Rightarrow> Bp key container impl children (new_lanes E))],
           delete_all track ds))"

definition single_text :: "bool \<Rightarrow> ('p, 'x) child_env \<Rightarrow> ('p, 'x) fiber list \<Rightarrow> string \<Rightarrow> ('p, 'x) children" where
  "single_text track E olds s =
     (case olds of
        q # qs \<Rightarrow>
          if f_tag q = 6 then ([single track (use_fiber q (Text_props s))], delete_all track qs)
          else ([single track (Cs s (new_lanes E))], delete_all track olds)
      | [] \<Rightarrow> ([single track (Cs s (new_lanes E))], []))"

text \<open>A fragment without key stands for its children.\<close>

fun unwrap :: "('p, 'x) node \<Rightarrow> ('p, 'x) node" where
  "unwrap (Element Fragment None children ref p) = children"
| "unwrap n = n"

lemma size_unwrap: "size (unwrap n) \<le> size n"
  by (cases n rule: unwrap.cases) auto

function ln :: "bool \<Rightarrow> ('p, 'x) child_env \<Rightarrow> ('p, 'x) fiber list \<Rightarrow> ('p, 'x) node \<Rightarrow> 'x child_error + ('p, 'x) children" where
  "ln track E olds n =
     (case unwrap n of
        Element ty key children ref p \<Rightarrow> single_element track E olds ty key children ref p
      | Portal key container impl children \<Rightarrow> Inr (single_portal track E olds key container impl children)
      | Lazy (Inl x) \<Rightarrow> Inl (Thrown x)
      | Lazy (Inr v) \<Rightarrow> ln track E olds v
      | Array ns \<Rightarrow> Qe track E olds ns
      | Iterable ns \<Rightarrow> at_iter track E olds ns
      | Thenable (Inl x) \<Rightarrow> Inl (Thrown x)
      | Thenable (Inr v) \<Rightarrow> ln track E olds v
      | Context v \<Rightarrow> ln track E olds v
      | Object s \<Rightarrow> Inl (Not_a_child s)
      | Text s \<Rightarrow> if s = '''' then Inr ([], delete_all track olds) else Inr (single_text track E olds s)
      | Number s \<Rightarrow> Inr (single_text track E olds s)
      | Nothing \<Rightarrow> Inr ([], delete_all track olds))"
  by pat_completeness auto
termination
proof (relation "measure (\<lambda>(track, E, olds, n). size n)")
  fix n :: "('p, 'x) node"
  fix s v
  note size_unwrap [of n]
  then show "unwrap n = Lazy s \<Longrightarrow> s = Inr v \<Longrightarrow> ((track, E, olds, v), track, E, olds, n) \<in> measure (\<lambda>(track, E, olds, n). size n)"
    and "unwrap n = Thenable s \<Longrightarrow> s = Inr v \<Longrightarrow> ((track, E, olds, v), track, E, olds, n) \<in> measure (\<lambda>(track, E, olds, n). size n)"
    and "unwrap n = Context v \<Longrightarrow> ((track, E, olds, v), track, E, olds, n) \<in> measure (\<lambda>(track, E, olds, n). size n)"
    for track E olds by auto
qed simp

end
