(* ===== verification/React_Lists.thy ===== *)
theory React_Lists
  imports React_Children "HOL-Library.Multiset"
begin

text \<open>
  Facts about the reconciliation of children: every old fiber is kept once or deleted, and the ones that are not
  to be placed again keep their order.
\<close>

section \<open>One child\<close>

definition placed :: "('p, 'x) work \<Rightarrow> bool" where
  "placed wk \<longleftrightarrow> w_flags wk AND 2 \<noteq> 0"

text \<open>A child made in the place of an old fiber, or without one: it continues that fiber or none.\<close>

definition made_from :: "('p, 'x) fiber option \<Rightarrow> ('p, 'x) work \<Rightarrow> bool" where
  "made_from le wk \<longleftrightarrow> (w_old wk = None \<or> w_old wk = le) \<and> \<not> placed wk \<and>
     (\<forall>q. w_old wk = Some q \<longrightarrow> w_key wk = f_key q)"

lemma created [simp]: "made_from le (Cs s l)" "made_from le (hu n l k)" "made_from le (Bp k c i n l)"
  "made_from le (new_element E ty k n r p)"
  by (simp_all add: made_from_def placed_def Cs_def hu_def Bp_def new_element_def qp_def Bn_def)

lemma used [simp]: "made_from (Some q) (use_fiber q props)" "made_from (Some q) (use_fiber q props\<lparr>w_ref := r\<rparr>)"
  by (simp_all add: made_from_def placed_def use_fiber_def and.assoc)

lemma made_parts [simp]: "made_from le (Y E le s)" "made_from le (Ce E le n k)" "made_from le (Se E le k c i n)"
  by (simp_all add: Y_def Ce_def Se_def split: option.split)

lemma made_te: "te E le ty k n r p = Inr wk \<Longrightarrow> made_from le wk"
  by (auto simp: te_def split: if_splits option.splits sum.splits)

lemma made_xe: "xe E le n = Inr (Some wk) \<Longrightarrow> made_from le wk"
  by (induction E le n rule: xe.induct) (auto dest: made_te split: if_splits, auto simp: map_sum_def made_te split: sum.splits)

text \<open>What a rendered value asks of the fiber that stands for it.\<close>

fun gives :: "('p, 'x) node \<Rightarrow> ('p, 'x) work \<Rightarrow> bool" where
  "gives (Text s) wk = (s \<noteq> '''' \<and> w_key wk = None \<and> w_tag wk = 6 \<and> w_props wk = Text_props s)"
| "gives (Number s) wk = (w_key wk = None \<and> w_tag wk = 6 \<and> w_props wk = Text_props s)"
| "gives (Element ty key children ref p) wk =
     (w_key wk = key \<and>
      (if ty = Fragment then w_tag wk = 7 \<and> w_props wk = Node_props children
       else w_props wk = Element_props children ref p \<and> w_ref wk = ref \<and>
         ((\<forall>n. ty \<noteq> Lazy_type n) \<longrightarrow> w_elementType wk = Some ty)))"
| "gives (Portal key container impl children) wk = (w_key wk = key \<and> w_tag wk = 4 \<and> w_state wk = Some (container, impl))"
| "gives (Lazy (Inl x)) wk = False"
| "gives (Lazy (Inr n)) wk = gives n wk"
| "gives (Array ns) wk = (w_key wk = None \<and> w_tag wk = 7 \<and> w_props wk = Node_props (Array ns))"
| "gives (Iterable ns) wk = (w_key wk = None \<and> w_tag wk = 7 \<and> w_props wk = Node_props (Iterable ns))"
| "gives (Thenable (Inl x)) wk = False"
| "gives (Thenable (Inr n)) wk = gives n wk"
| "gives (Context n) wk = gives n wk"
| "gives (Object s) wk = False"
| "gives Nothing wk = False"

text \<open>The values that render something.\<close>

fun renders :: "('p, 'x) node \<Rightarrow> bool" where
  "renders (Text s) = (s \<noteq> '''')"
| "renders (Lazy (Inr n)) = renders n"
| "renders (Thenable (Inr n)) = renders n"
| "renders (Context n) = renders n"
| "renders Nothing = False"
| "renders n = True"

lemma gives_renders: "gives n wk \<Longrightarrow> renders n"
  by (induction n wk rule: gives.induct) auto

lemma gives_Y:
  assumes "\<forall>q. le = Some q \<longrightarrow> f_key q = None"
  shows "w_key (Y E le s) = None" "w_tag (Y E le s) = 6" "w_props (Y E le s) = Text_props s"
  using assms by (auto simp: Y_def use_fiber_def Cs_def Bn_def split: option.split)

lemma gives_Ce:
  assumes "\<forall>q. le = Some q \<longrightarrow> f_key q = k"
  shows "w_key (Ce E le n k) = k" "w_tag (Ce E le n k) = 7" "w_props (Ce E le n k) = Node_props n"
  using assms by (auto simp: Ce_def use_fiber_def hu_def Bn_def split: option.split)

lemma gives_Se:
  assumes "\<forall>q. le = Some q \<longrightarrow> f_key q = k"
  shows "w_key (Se E le k c i n) = k" "w_tag (Se E le k c i n) = 4" "w_state (Se E le k c i n) = Some (c, i)"
  using assms by (auto simp: Se_def same_portal_def use_fiber_def Bp_def Bn_def split: option.split)

lemma gives_new: "gives (Element ty key children ref p) (new_element E ty key children ref p)"
  by (simp add: new_element_def qp_def hu_def Bn_def)

lemma gives_te:
  assumes "te E le ty key children ref p = Inr wk" "\<forall>q. le = Some q \<longrightarrow> f_key q = key"
  shows "gives (Element ty key children ref p) wk"
proof (cases "ty = Fragment")
  case True
  then show ?thesis using assms gives_Ce [of le key E children] by (simp add: te_def)
next
  case False
  then have "wk = new_element E ty key children ref p \<or>
      (\<exists>q. le = Some q \<and> same_type E q ty = Inr True \<and> wk = use_fiber q (Element_props children ref p)\<lparr>w_ref := ref\<rparr>)"
    using assms(1) by (auto simp: te_def split: option.splits sum.splits if_splits)
  then show ?thesis
  proof
    assume "wk = new_element E ty key children ref p"
    then show ?thesis by (simp only: gives_new)
  next
    assume "\<exists>q. le = Some q \<and> same_type E q ty = Inr True \<and> wk = use_fiber q (Element_props children ref p)\<lparr>w_ref := ref\<rparr>"
    then obtain q where q: "le = Some q" "same_type E q ty = Inr True"
      "wk = use_fiber q (Element_props children ref p)\<lparr>w_ref := ref\<rparr>" by blast
    have "(\<forall>n. ty \<noteq> Lazy_type n) \<longrightarrow> f_elementType q = Some ty"
      using q(2) by (auto simp: same_type_def split: if_splits etype.splits)
    then show ?thesis using False assms(2) q(1) by (simp add: q(3) use_fiber_def)
  qed
qed

lemma slot_key_old: "key = slot_key le \<Longrightarrow> \<forall>q. le = Some q \<longrightarrow> f_key q = key"
  by (auto simp: slot_key_def)

lemma slot_none: "slot_key le = None \<Longrightarrow> \<forall>q. le = Some q \<longrightarrow> f_key q = None"
  by (auto simp: slot_key_def split: option.splits)

lemma gives_xe: "xe E le n = Inr (Some wk) \<Longrightarrow> gives n wk"
proof (induction E le n rule: xe.induct)
  case (3 E le ty key children ref p)
  then have "te E le ty key children ref p = Inr wk" "key = slot_key le"
    by (auto simp: map_sum_def split: if_splits sum.splits)
  then show ?case by (intro gives_te slot_key_old)
qed (auto simp: gives_Y [OF slot_none] gives_Ce [OF slot_none] gives_Se slot_key_old split: if_splits)

lemma gives_Ne: "Ne E n = Inr (Some wk) \<Longrightarrow> gives n wk"
proof (induction E n rule: Ne.induct)
  case (3 E ty key children ref p)
  then have "wk = new_element E ty key children ref p" by simp
  then show ?case by (simp only: gives_new)
qed (auto simp: Cs_def Bp_def hu_def Bn_def split: if_splits)

lemma made_Ne: "Ne E n = Inr (Some wk) \<Longrightarrow> made_from None wk"
  by (induction E n rule: Ne.induct) (auto split: if_splits)

lemma Ne_nothing: "Ne E n = Inr None \<Longrightarrow> \<not> renders n"
  by (induction E n rule: Ne.induct) (auto split: if_splits)

section \<open>The map of the old fibers\<close>

abbreviation fiber_key :: "('p, 'x) fiber \<Rightarrow> child_key" where
  "fiber_key q \<equiv> child_key (f_key q) (f_index q)"

definition map_ok :: "('p, 'x) fiber_map \<Rightarrow> bool" where
  "map_ok m \<longleftrightarrow> distinct (map fst m) \<and> (\<forall>(k, q) \<in> set m. k = fiber_key q)"

lemma update_new: "k \<notin> fst ` set m \<Longrightarrow> AList.update k q m = m @ [(k, q)]"
  by (induction m) auto

lemma p_map_distinct:
  assumes "distinct (map fiber_key olds)"
  shows "p_map olds = map (\<lambda>q. (fiber_key q, q)) olds"
proof -
  have "fold (\<lambda>q m. AList.update (fiber_key q) q m) olds m = m @ map (\<lambda>q. (fiber_key q, q)) olds"
    if "distinct (map fst m @ map fiber_key olds)" for m
    using that
  proof (induction olds arbitrary: m)
    case (Cons q olds)
    have "AList.update (fiber_key q) q m = m @ [(fiber_key q, q)]"
      using Cons.prems by (intro update_new) auto
    then show ?case using Cons.IH [of "m @ [(fiber_key q, q)]"] Cons.prems by simp
  qed simp
  from this [of "[]"] show ?thesis using assms by (simp add: p_map_def)
qed

lemma map_ok_p_map: "distinct (map fiber_key olds) \<Longrightarrow> map_ok (p_map olds)"
  by (simp add: p_map_distinct map_ok_def comp_def)

lemma child_key_eq: "child_key key i = fiber_key q \<Longrightarrow> f_key q = key"
  by (auto simp: child_key_def split: option.splits)

lemma map_ok_key: "map_ok m \<Longrightarrow> \<forall>q. map_of m (child_key key i) = Some q \<longrightarrow> f_key q = key"
  unfolding map_ok_def using child_key_eq map_of_SomeD by fastforce

lemma map_ok_index: "map_ok m \<Longrightarrow> \<forall>q. map_of m (Index i) = Some q \<longrightarrow> f_key q = None"
  using map_ok_key [of m None i] by (simp add: child_key_def)

lemma gives_Te: "Te E m i n = Inr (Some wk) \<Longrightarrow> map_ok m \<Longrightarrow> gives n wk"
proof (induction E m i n rule: Te.induct)
  case (3 E m i ty key children ref p)
  then have "te E (map_of m (child_key key i)) ty key children ref p = Inr wk"
    by (auto simp: map_sum_def split: sum.splits)
  then show ?case by (rule gives_te) (rule map_ok_key [OF 3(2)])
qed (auto simp: gives_Y gives_Ce gives_Se map_ok_key map_ok_index split: if_splits)

text \<open>The fiber a child from the map continues is the one under its own key.\<close>

definition made_from_map :: "('p, 'x) fiber_map \<Rightarrow> nat \<Rightarrow> ('p, 'x) work \<Rightarrow> bool" where
  "made_from_map m i wk \<longleftrightarrow> \<not> placed wk \<and> (\<forall>q. w_old wk = Some q \<longrightarrow> map_of m (child_key (w_key wk) i) = Some q)"

lemma made_map:
  assumes "made_from (map_of m (child_key key i)) wk" "map_ok m"
  shows "made_from_map m i wk"
  using assms map_ok_key [OF assms(2), of key i] by (auto simp: made_from_def made_from_map_def)

lemma made_index:
  assumes "map_ok m"
  shows "made_from_map m i (Y E (map_of m (Index i)) s)" "made_from_map m i (Ce E (map_of m (Index i)) n k)"
  using made_map [where key = None, OF _ assms, of i] by (simp_all add: child_key_def)

lemma made_Te: "Te E m i n = Inr (Some wk) \<Longrightarrow> map_ok m \<Longrightarrow> made_from_map m i wk"
proof (induction E m i n rule: Te.induct)
  case (3 E m i ty key children ref p)
  then have "te E (map_of m (child_key key i)) ty key children ref p = Inr wk"
    by (auto simp: map_sum_def split: sum.splits)
  then show ?case by (intro made_map [OF _ 3(2)]) (rule made_te)
next
  case (4 E m i key container impl children)
  then have "wk = Se E (map_of m (child_key key i)) key container impl children" by simp
  then show ?case by (intro made_map [where key = key, OF _ 4(2)]) (simp only: made_parts)
qed (auto intro: made_index split: if_splits)

lemma Te_nothing: "Te E m i n = Inr None \<Longrightarrow> \<not> renders n"
  by (induction E m i n rule: Te.induct) (auto simp: map_sum_def split: if_splits sum.splits)

section \<open>The loops\<close>

definition kept :: "('p, 'x) work list \<Rightarrow> ('p, 'x) fiber list" where
  "kept ws = List.map_filter w_old ws"

lemma kept_simps [simp]: "kept [] = []" "kept (ws @ [wk]) = kept ws @ (case w_old wk of None \<Rightarrow> [] | Some q \<Rightarrow> [q])"
  by (simp_all add: kept_def List.map_filter_def split: option.split)

text \<open>The invariant of the three loops: \<open>olds\<close> are the old fibers, \<open>rest\<close> those not looked at yet, \<open>seen\<close>
  the rendered values done.\<close>

definition loops_inv :: "('p, 'x) fiber list \<Rightarrow> ('p, 'x) fiber multiset \<Rightarrow> ('p, 'x) node list \<Rightarrow> nat \<Rightarrow> ('p, 'x) progress \<Rightarrow> bool" where
  "loops_inv olds rest seen i st \<longleftrightarrow>
     mset (kept (p_works st)) + mset (p_deleted st) + rest = mset olds \<and>
     sorted (map f_index (kept (filter (\<lambda>wk. \<not> placed wk) (p_works st)))) \<and>
     (\<forall>wk \<in> set (p_works st). \<not> placed wk \<longrightarrow> (\<exists>q. w_old wk = Some q \<and> f_index q \<le> p_last st)) \<and>
     list_all2 gives (filter renders seen) (p_works st) \<and>
     sorted_wrt (<) (map w_index (p_works st)) \<and> (\<forall>wk \<in> set (p_works st). w_index wk < i)"

lemma placed_flag: "placed (wk\<lparr>w_flags := f OR 67108866\<rparr>)"
proof -
  have "bit ((f OR 67108866) AND 2) 1"
    using bit_and_iff [of "f OR 67108866" 2 1] bit_or_iff [of f 67108866 1] by simp
  then have "(f OR 67108866) AND 2 \<noteq> 0" by (intro notI) simp
  then show ?thesis by (simp add: placed_def)
qed

lemma gives_update [simp]: "gives n (wk\<lparr>w_index := i\<rparr>) = gives n wk" "gives n (wk\<lparr>w_flags := f\<rparr>) = gives n wk"
  by (induction n wk rule: gives.induct) simp_all

lemma placed_index: "placed (wk\<lparr>w_index := i\<rparr>) = placed wk"
  by (simp add: placed_def)

lemma place_new:
  assumes "w_old wk = None"
  shows "\<exists>w1. place True wk l i = (w1, l) \<and> placed w1 \<and> w_old w1 = None \<and> w_index w1 = i \<and> (gives n wk \<longrightarrow> gives n w1)"
  using assms by (simp add: place_def Let_def placed_flag)

lemma place_kept:
  assumes "w_old wk = Some q" "\<not> placed wk"
  shows "\<exists>w1. place True wk l i = (w1, if f_index q < l then l else f_index q) \<and> placed w1 = (f_index q < l) \<and>
    w_old w1 = Some q \<and> w_index w1 = i \<and> (gives n wk \<longrightarrow> gives n w1)"
  using assms by (simp add: place_def Let_def placed_flag placed_index)

lemma inv_delete:
  "loops_inv olds (add_mset q rest) seen i st \<Longrightarrow> loops_inv olds rest seen i (st\<lparr>p_deleted := p_deleted st @ [q]\<rparr>)"
  by (simp add: loops_inv_def)

lemma inv_skip: "loops_inv olds rest seen i st \<Longrightarrow> \<not> renders n \<Longrightarrow> loops_inv olds rest (seen @ [n]) (Suc i) st"
  by (auto simp: loops_inv_def)

lemma inv_new:
  assumes "loops_inv olds rest seen i st" "w_old wk = None" "gives n wk"
  shows "loops_inv olds rest (seen @ [n]) (Suc i) (add_child True wk i st)"
proof -
  obtain w1 where w1: "place True wk (p_last st) i = (w1, p_last st)" "placed w1" "w_old w1 = None" "w_index w1 = i" "gives n w1"
    using place_new [OF assms(2), of "p_last st" i n] assms(3) by blast
  have "add_child True wk i st = st\<lparr>p_works := p_works st @ [w1], p_last := p_last st\<rparr>"
    by (simp add: add_child_def w1(1))
  then show ?thesis
    using assms(1) w1(2-5) gives_renders [OF assms(3)]
    by (auto simp: loops_inv_def list_all2_appendI sorted_wrt_append)
qed

lemma inv_keep:
  assumes "loops_inv olds (add_mset q rest) seen i st" "w_old wk = Some q" "\<not> placed wk" "gives n wk"
  shows "loops_inv olds rest (seen @ [n]) (Suc i) (add_child True wk i st)"
proof -
  let ?l = "if f_index q < p_last st then p_last st else f_index q"
  obtain w1 where w1: "place True wk (p_last st) i = (w1, ?l)" "placed w1 = (f_index q < p_last st)" "w_old w1 = Some q"
    "w_index w1 = i" "gives n w1"
    using place_kept [OF assms(2,3), of "p_last st" i n] assms(4) by blast
  have "add_child True wk i st = st\<lparr>p_works := p_works st @ [w1], p_last := ?l\<rparr>"
    by (simp add: add_child_def w1(1))
  moreover have "\<forall>x \<in> set (kept (filter (\<lambda>wk. \<not> placed wk) (p_works st))). f_index x \<le> p_last st"
    using assms(1) by (fastforce simp: loops_inv_def kept_def List.map_filter_def)
  ultimately show ?thesis
    using assms(1) w1(2-5) gives_renders [OF assms(4)]
    by (auto simp: loops_inv_def list_all2_appendI sorted_wrt_append sorted_append)
qed

lemma slots_inv:
  assumes "slots True E i qs ns st = Inr (i', qs', ns', st')" "loops_inv olds (mset qs) seen i st"
  shows "\<exists>seen'. seen' @ ns' = seen @ ns \<and> loops_inv olds (mset qs') seen' i' st' \<and> (\<exists>ds. qs = ds @ qs')"
  using assms
proof (induction "True" E i qs ns st arbitrary: seen rule: slots.induct)
  case (3 E i q qs n ns st)
  let ?le = "if i < f_index q then None else Some q" and ?rest = "if i < f_index q then q # qs else qs"
  show ?case
  proof (cases "xe E ?le n")
    case (Inr r)
    show ?thesis
    proof (cases r)
      case None
      then show ?thesis using 3 Inr by (auto simp: Let_def split: if_splits)
    next
      case (Some wk)
      let ?st = "if ?le \<noteq> None \<and> w_old wk = None then st\<lparr>p_deleted := p_deleted st @ [q]\<rparr> else st"
      have made: "made_from ?le wk" and g: "gives n wk" using made_xe gives_xe Inr Some by blast+
      have "loops_inv olds (mset ?rest) (seen @ [n]) (Suc i) (add_child True wk i ?st)"
      proof (cases "w_old wk")
        case None
        then have "loops_inv olds (mset ?rest) seen i ?st"
          using 3(3) inv_delete [of olds q "mset qs" seen i st] by auto
        then show ?thesis using inv_new None g by blast
      next
        case (Some q')
        then have "\<not> i < f_index q" "q' = q" using made by (auto simp: made_from_def split: if_splits)
        then show ?thesis using inv_keep [of olds q "mset qs" seen i st wk n] 3(3) Some made g by (simp add: made_from_def)
      qed
      moreover have "slots True E (Suc i) ?rest ns (add_child True wk i ?st) = Inr (i', qs', ns', st')"
        using 3(2) Inr Some by (auto simp: Let_def split: if_splits)
      ultimately have "\<exists>seen'. seen' @ ns' = (seen @ [n]) @ ns \<and> loops_inv olds (mset qs') seen' i' st' \<and> (\<exists>ds. ?rest = ds @ qs')"
        using 3(1) [of "(?le, ?rest)" "?le" "?rest" r wk "seen @ [n]"] Inr Some by auto
      then show ?thesis by (auto split: if_splits)
    qed
  qed (use 3(2) in \<open>auto simp: Let_def split: if_splits\<close>)
qed auto

lemma create_inv:
  assumes "create_rest True E i ns st = Inr st'" "loops_inv olds rest seen i st"
  shows "\<exists>i'. loops_inv olds rest (seen @ ns) i' st'"
  using assms
proof (induction "True" E i ns st arbitrary: seen rule: create_rest.induct)
  case (2 E i n ns st)
  show ?case
  proof (cases "Ne E n")
    case (Inr r)
    show ?thesis
    proof (cases r)
      case None
      then have "loops_inv olds rest (seen @ [n]) (Suc i) st" using 2(4) Inr Ne_nothing inv_skip by blast
      then show ?thesis using 2(1) [OF Inr None, of "seen @ [n]"] 2(3) Inr None by simp
    next
      case (Some wk)
      have "w_old wk = None" "gives n wk"
        using made_Ne gives_Ne Inr Some by (auto simp: made_from_def)
      then have "loops_inv olds rest (seen @ [n]) (Suc i) (add_child True wk i st)"
        using 2(4) inv_new by blast
      then show ?thesis using 2(2) [OF Inr Some, of "seen @ [n]"] 2(3) Inr Some by simp
    qed
  qed (use 2(3) in simp)
qed auto

lemma set_delete: "set (AList.delete k m) \<subseteq> set m"
  by (induction m) auto

lemma map_ok_delete: "map_ok m \<Longrightarrow> map_ok (AList.delete k m)"
  using set_delete [of k m] by (auto simp: map_ok_def AList.distinct_delete)

lemma mset_delete:
  assumes "distinct (map fst m)" "map_of m k = Some q"
  shows "mset (map snd m) = add_mset q (mset (map snd (AList.delete k m)))"
  using assms
proof (induction m)
  case (Cons e m)
  obtain k' v where e: "e = (k', v)" by fastforce
  show ?case
  proof (cases "k' = k")
    case True
    then have "AList.delete k m = m" using Cons.prems(1) by (simp add: e)
    then show ?thesis using Cons.prems(2) True by (simp add: e)
  next
    case False
    then show ?thesis using Cons by (simp add: e)
  qed
qed simp

lemma map_inv:
  assumes "map_rest True E i m ns st = Inr (m', st')" "loops_inv olds (mset (map snd m)) seen i st" "map_ok m"
  shows "\<exists>i'. loops_inv olds (mset (map snd m')) (seen @ ns) i' st'"
  using assms
proof (induction "True" E i m ns st arbitrary: seen rule: map_rest.induct)
  case (2 E i m n ns st)
  show ?case
  proof (cases "Te E m i n")
    case (Inr r)
    show ?thesis
    proof (cases r)
      case None
      then have "loops_inv olds (mset (map snd m)) (seen @ [n]) (Suc i) st" using 2(4) Inr Te_nothing inv_skip by blast
      then show ?thesis using 2(1) [OF Inr None, of "seen @ [n]"] 2(3,5) Inr None by simp
    next
      case (Some wk)
      have made: "made_from_map m i wk" and g: "gives n wk" using made_Te gives_Te Inr Some 2(5) by blast+
      let ?m = "if w_old wk \<noteq> None then AList.delete (child_key (w_key wk) i) m else m"
      have "loops_inv olds (mset (map snd ?m)) (seen @ [n]) (Suc i) (add_child True wk i st)"
      proof (cases "w_old wk")
        case None
        then show ?thesis using inv_new [OF 2(4) None g] by simp
      next
        case (Some q)
        then have "mset (map snd m) = add_mset q (mset (map snd ?m))"
          using made 2(5) mset_delete [of m "child_key (w_key wk) i" q] by (simp add: made_from_map_def map_ok_def)
        then show ?thesis using inv_keep [of olds q "mset (map snd ?m)" seen i st wk n] 2(4) Some made g
          by (simp add: made_from_map_def)
      qed
      moreover have "map_ok ?m" by (simp add: 2(5) map_ok_delete)
      ultimately show ?thesis using 2(2) [OF Inr Some, of "seen @ [n]"] 2(3) Inr Some by simp
    qed
  qed (use 2(3) in simp)
qed auto

section \<open>The whole list\<close>

text \<open>Old children as a render leaves them: by increasing index, with different keys, and texts without.\<close>

definition well_keyed :: "('p, 'x) fiber list \<Rightarrow> bool" where
  "well_keyed olds \<longleftrightarrow> sorted_wrt (<) (map f_index olds) \<and> distinct (map fiber_key olds) \<and>
     (\<forall>q \<in> set olds. f_tag q = 6 \<longrightarrow> f_key q = None)"

definition reconciled :: "('p, 'x) fiber list \<Rightarrow> ('p, 'x) node list \<Rightarrow> ('p, 'x) work list \<Rightarrow> ('p, 'x) fiber list \<Rightarrow> bool" where
  "reconciled olds news ws ds \<longleftrightarrow>
     mset (kept ws) + mset ds = mset olds \<and> list_all2 gives (filter renders news) ws \<and>
     sorted (map f_index (kept (filter (\<lambda>wk. \<not> placed wk) ws))) \<and>
     (\<forall>wk \<in> set ws. \<not> placed wk \<longrightarrow> w_old wk \<noteq> None) \<and> sorted_wrt (<) (map w_index ws)"

lemma Qe_reconciled:
  assumes "Qe True E olds news = Inr (ws, ds)" "well_keyed olds"
  shows "reconciled olds news ws ds"
proof -
  obtain i qs ns st where slots: "slots True E 0 olds news no_progress = Inr (i, qs, ns, st)"
    using assms(1) by (auto simp: Qe_def split: sum.splits)
  have "loops_inv olds (mset olds) [] 0 no_progress" by (simp add: loops_inv_def no_progress_def)
  then obtain seen where seen: "seen @ ns = news" "loops_inv olds (mset qs) seen i st" "\<exists>es. olds = es @ qs"
    using slots_inv [OF slots, of olds "[]"] by auto
  have fin: "reconciled olds news (p_works st') (p_deleted st' @ xs)"
    if "loops_inv olds (mset xs) news i' st'" for xs i' st'
    using that by (auto simp: loops_inv_def reconciled_def ac_simps)
  show ?thesis
  proof (cases "ns = []")
    case True
    then show ?thesis using assms(1) slots seen fin by (auto simp: Qe_def delete_all_def)
  next
    case more: False
    show ?thesis
    proof (cases "qs = []")
      case True
      obtain st' where st': "create_rest True E i ns st = Inr st'" "ws = p_works st'" "ds = p_deleted st'"
        using assms(1) slots more True by (auto simp: Qe_def split: sum.splits)
      obtain i' where "loops_inv olds (mset []) news i' st'"
        using create_inv [OF st'(1), of olds "mset qs" seen] seen True by auto
      then show ?thesis using fin [of "[]" i' st'] st' by simp
    next
      case False
      obtain m st' where m: "map_rest True E i (p_map qs) ns st = Inr (m, st')" "ws = p_works st'"
        "ds = p_deleted st' @ map snd m"
        using assms(1) slots more False by (auto simp: Qe_def delete_all_def split: sum.splits)
      have keys: "distinct (map fiber_key qs)" using assms(2) seen(3) by (auto simp: well_keyed_def)
      then have "map snd (p_map qs) = qs" by (simp add: p_map_distinct comp_def)
      then obtain i' where "loops_inv olds (mset (map snd m)) news i' st'"
        using map_inv [OF m(1), of olds seen] seen map_ok_p_map [OF keys] by auto
      then show ?thesis using fin m by blast
    qed
  qed
qed

section \<open>Whatever a component rendered\<close>

text \<open>The list of children a rendered value stands for.\<close>

function kids :: "('p, 'x) node \<Rightarrow> ('p, 'x) node list" where
  "kids n =
     (case unwrap n of
        Array ns \<Rightarrow> ns
      | Iterable (Some ns) \<Rightarrow> ns
      | Lazy (Inr v) \<Rightarrow> kids v
      | Thenable (Inr v) \<Rightarrow> kids v
      | Context v \<Rightarrow> kids v
      | m \<Rightarrow> [m])"
  by pat_completeness auto
termination
proof (relation "measure size")
  fix n :: "('p, 'x) node"
  fix s v
  note size_unwrap [of n]
  then show "unwrap n = Lazy s \<Longrightarrow> s = Inr v \<Longrightarrow> (v, n) \<in> measure size"
    and "unwrap n = Thenable s \<Longrightarrow> s = Inr v \<Longrightarrow> (v, n) \<in> measure size"
    and "unwrap n = Context v \<Longrightarrow> (v, n) \<in> measure size" by auto
qed simp

declare kids.simps [simp del] ln.simps [simp del]

lemma single_sel: "w_old (single True wk) = w_old wk" "gives n (single True wk) = gives n wk"
  "w_index (single True wk) = w_index wk"
  by (simp_all add: single_def)

lemma one_reconciled:
  assumes "mset (kept [wk]) + mset ds = mset olds" "made_from le wk" "gives n wk"
  shows "reconciled olds [n] [single True wk] ds"
proof -
  have k: "kept [single True wk] = kept [wk]" by (simp add: kept_def List.map_filter_def single_sel)
  have "\<not> placed (single True wk) \<Longrightarrow> w_old (single True wk) \<noteq> None"
    by (cases "w_old wk") (simp_all add: single_def placed_flag)
  then show ?thesis
    using assms(1,3) gives_renders [OF assms(3)] unfolding reconciled_def k
    by (auto simp: single_sel kept_def List.map_filter_def)
qed

lemma match_element_result:
  "match_element E key ty olds = Inr (r, ds) \<Longrightarrow>
    mset (case r of None \<Rightarrow> [] | Some q \<Rightarrow> [q]) + mset ds = mset olds \<and>
    (\<forall>q. r = Some q \<longrightarrow> f_key q = key \<and> (if ty = Fragment then f_tag q = 7 else same_type E q ty = Inr True))"
  by (induction olds arbitrary: r ds)
    (auto simp: map_sum_def split: if_splits sum.splits option.splits)

lemma match_portal_result:
  "match_portal key c i olds = (r, ds) \<Longrightarrow>
    mset (case r of None \<Rightarrow> [] | Some q \<Rightarrow> [q]) + mset ds = mset olds \<and>
    (\<forall>q. r = Some q \<longrightarrow> f_key q = key \<and> same_portal q c i)"
  by (induction olds arbitrary: r ds) (auto split: if_splits prod.splits option.splits)

lemma kept_one: "kept [wk] = (case w_old wk of None \<Rightarrow> [] | Some q \<Rightarrow> [q])"
  using kept_simps(2) [of "[]" wk] by simp

lemma single_element_reconciled:
  assumes "single_element True E olds ty key children ref p = Inr (ws, ds)"
  shows "reconciled olds [Element ty key children ref p] ws ds"
proof -
  obtain r where r: "match_element E key ty olds = Inr (r, ds)"
    using assms by (auto simp: single_element_def delete_all_def split: sum.splits)
  note m = match_element_result [OF r]
  show ?thesis
  proof (cases r)
    case None
    let ?w = "if ty = Fragment then hu children (new_lanes E) key else new_element E ty key children ref p"
    have ws: "ws = [single True ?w]" using assms r None by (auto simp: single_element_def)
    have "w_old ?w = None" by (simp add: new_element_def qp_def hu_def Bn_def)
    moreover have "gives (Element ty key children ref p) ?w"
      using gives_new [of ty key children ref p E] by (simp add: hu_def Bn_def)
    ultimately show ?thesis
      unfolding ws using m None by (intro one_reconciled [where le = None]) (simp_all add: kept_one del: gives.simps)
  next
    case (Some q)
    let ?w = "if ty = Fragment then use_fiber q (Node_props children)
              else (use_fiber q (Element_props children ref p))\<lparr>w_ref := ref\<rparr>"
    have ws: "ws = [single True ?w]" using assms r Some by (auto simp: single_element_def)
    have old: "w_old ?w = Some q" by (simp add: use_fiber_def)
    have "gives (Element ty key children ref p) ?w"
      using m Some by (auto simp: use_fiber_def same_type_def split: if_splits etype.splits)
    then show ?thesis
      unfolding ws using m Some old by (intro one_reconciled [where le = "Some q"]) (simp_all add: kept_one del: gives.simps)
  qed
qed

lemma single_portal_reconciled:
  assumes "single_portal True E olds key c i children = (ws, ds)"
  shows "reconciled olds [Portal key c i children] ws ds"
proof -
  obtain r ds' where r: "match_portal key c i olds = (r, ds')" by fastforce
  note m = match_portal_result [OF r]
  show ?thesis
  proof (cases r)
    case None
    then have ws: "ws = [single True (Bp key c i children (new_lanes E))]" "ds = ds'"
      using assms r by (auto simp: single_portal_def delete_all_def)
    show ?thesis
      unfolding ws using m None by (intro one_reconciled [where le = None]) (simp_all add: kept_one, simp_all add: Bp_def Bn_def)
  next
    case (Some q)
    then have ws: "ws = [single True (use_fiber q (Node_props (or_empty children)))]" "ds = ds'"
      using assms r by (auto simp: single_portal_def delete_all_def)
    show ?thesis
      unfolding ws using m Some
      by (intro one_reconciled [where le = "Some q"]) (simp_all add: kept_one, simp_all add: use_fiber_def same_portal_def)
  qed
qed

lemma single_text_reconciled:
  assumes "single_text True E olds s = (ws, ds)" "well_keyed olds" "n = Text s \<and> s \<noteq> '''' \<or> n = Number s"
  shows "reconciled olds [n] ws ds"
proof (cases "\<exists>q qs. olds = q # qs \<and> f_tag q = 6")
  case True
  then obtain q qs where q: "olds = q # qs" "f_tag q = 6" "f_key q = None"
    using assms(2) by (auto simp: well_keyed_def)
  then have ws: "ws = [single True (use_fiber q (Text_props s))]" "ds = qs"
    using assms(1) by (auto simp: single_text_def delete_all_def)
  have "gives n (use_fiber q (Text_props s))" using assms(3) q by (auto simp: use_fiber_def)
  then show ?thesis
    unfolding ws by (intro one_reconciled [where le = "Some q"]) (simp_all add: kept_one q, simp add: use_fiber_def)
next
  case False
  then have ws: "ws = [single True (Cs s (new_lanes E))]" "ds = olds"
    using assms(1) by (auto simp: single_text_def delete_all_def split: list.splits if_splits)
  have "gives n (Cs s (new_lanes E))" using assms(3) by (auto simp: Cs_def Bn_def)
  then show ?thesis
    unfolding ws by (intro one_reconciled [where le = None]) (simp_all add: kept_one, simp_all add: Cs_def Bn_def)
qed

lemma nothing_reconciled: "\<not> renders n \<Longrightarrow> reconciled olds [n] [] (delete_all True olds)"
  by (simp add: reconciled_def delete_all_def kept_def List.map_filter_def)

lemma ln_reconciled:
  assumes "ln True E olds n = Inr (ws, ds)" "well_keyed olds"
  shows "reconciled olds (kids n) ws ds"
  using assms
proof (induction n rule: kids.induct)
  case (1 n)
  note l = "1.prems"(1) [unfolded ln.simps [of _ _ _ n]]
  show ?case
    using l "1.prems"(2) "1.IH"
    by (subst kids.simps, cases "unwrap n")
      (auto simp: at_iter_def dest: Qe_reconciled single_element_reconciled single_portal_reconciled
        single_text_reconciled intro: nothing_reconciled split: sum.splits option.splits if_splits)
qed

end
