(* ===== verification/React_Placement.thy ===== *)
theory React_Placement
  imports Main "HOL-Library.Sublist"
begin

text \<open>
  The commit of placements in the bundled \<open>react-dom\<close> (\<open>src/internal/admin/dist/index-DxrWcVFD.js\<close>): the fibers below
  one host node, host fibers with their DOM node and components with their children, each with or without the
  placement flag, and the child nodes of the host node as a list. Portals, hoistable elements and the elements
  \<open>html\<close>, \<open>head\<close> and \<open>body\<close>, which are placed elsewhere, are not modelled. A DOM exception is \<open>None\<close>.
\<close>

section \<open>Fibers and nodes\<close>

datatype tree = Host nat bool | Group bool "tree list"

fun hosts :: "tree \<Rightarrow> nat list" where
  "hosts (Host h p) = [h]"
| "hosts (Group p ts) = concat (map hosts ts)"

abbreviation all_hosts :: "tree list \<Rightarrow> nat list" where
  "all_hosts ts \<equiv> concat (map hosts ts)"

text \<open>\<open>getHostSibling\<close>: the first node to the right that stays where it is. \<open>right\<close> are the fibers to the right,
  those of the parents without a node included.\<close>

function Is :: "tree list \<Rightarrow> nat option" where
  "Is [] = None"
| "Is (Host h p # right) = (if p then Is right else Some h)"
| "Is (Group p ts # right) = (if p \<or> ts = [] then Is right else Is (ts @ right))"
  by pat_completeness auto
termination by (relation "measure (\<lambda>ts. size_list size ts)") (auto simp: size_list_append)

definition insertBefore :: "nat \<Rightarrow> nat \<Rightarrow> nat list \<Rightarrow> nat list option" where
  "insertBefore h r ns =
     (let d = removeAll h ns in
      if r \<in> set d then Some (takeWhile (\<lambda>x. x \<noteq> r) d @ h # dropWhile (\<lambda>x. x \<noteq> r) d) else None)"

definition appendChild :: "nat \<Rightarrow> nat list \<Rightarrow> nat list" where
  "appendChild h ns = removeAll h ns @ [h]"

text \<open>\<open>insertOrAppendPlacementNode\<close>: all nodes of a fiber, one by one.\<close>

definition put_node :: "nat option \<Rightarrow> nat \<Rightarrow> nat list \<Rightarrow> nat list option" where
  "put_node ref h ns = (case ref of Some r \<Rightarrow> insertBefore h r ns | None \<Rightarrow> Some (appendChild h ns))"

fun Zs :: "tree \<Rightarrow> nat option \<Rightarrow> nat list \<Rightarrow> nat list option"
  and Zs_list :: "tree list \<Rightarrow> nat option \<Rightarrow> nat list \<Rightarrow> nat list option" where
  "Zs (Host h p) ref ns = put_node ref h ns"
| "Zs (Group p ts) ref ns = Zs_list ts ref ns"
| "Zs_list [] ref ns = Some ns"
| "Zs_list (t # ts) ref ns = Option.bind (Zs t ref ns) (Zs_list ts ref)"

text \<open>\<open>commitMutationEffects\<close> as far as placements go: the children of a fiber first, from left to right, then
  the fiber itself (\<open>commitReconciliationEffects\<close>).\<close>

fun by_fiber :: "tree \<Rightarrow> tree list \<Rightarrow> nat list \<Rightarrow> nat list option"
  and by_list :: "tree list \<Rightarrow> tree list \<Rightarrow> nat list \<Rightarrow> nat list option" where
  "by_fiber (Host h p) right ns = (if p then Zs (Host h p) (Is right) ns else Some ns)"
| "by_fiber (Group p ts) right ns =
     Option.bind (by_list ts right ns) (\<lambda>d. if p then Zs (Group p ts) (Is right) d else Some d)"
| "by_list [] right ns = Some ns"
| "by_list (t # ts) right ns = Option.bind (by_fiber t (ts @ right) ns) (by_list ts right)"

section \<open>The nodes that stay\<close>

fun stable :: "tree \<Rightarrow> nat list" where
  "stable (Host h p) = (if p then [] else [h])"
| "stable (Group p ts) = (if p then [] else concat (map stable ts))"

abbreviation all_stable :: "tree list \<Rightarrow> nat list" where
  "all_stable ts \<equiv> concat (map stable ts)"

lemma Is_stable: "Is ts = (case all_stable ts of [] \<Rightarrow> None | h # hs \<Rightarrow> Some h)"
  by (induction ts rule: Is.induct) auto

lemma subseq_concat: "(\<And>t. t \<in> set ts \<Longrightarrow> subseq (f t) (g t)) \<Longrightarrow> subseq (concat (map f ts)) (concat (map g ts))"
  by (induction ts) (auto intro: list_emb_append_mono)

lemma subseq_stable: "subseq (stable t) (hosts t)"
  by (induction t) (auto intro: subseq_concat)

lemma subseq_all_stable: "subseq (all_stable ts) (all_hosts ts)"
  by (intro subseq_concat subseq_stable)

lemma stable_hosts: "set (stable t) \<subseteq> set (hosts t)" "set (all_stable ts) \<subseteq> set (all_hosts ts)"
  using subseq_stable subseq_all_stable by (auto dest: list_emb_set)

lemma distinct_stable: "distinct (all_hosts ts) \<Longrightarrow> distinct (all_stable ts)"
  using subseq_all_stable [of ts] by (auto simp: subseq_conv_nths)

section \<open>Inserting nodes\<close>

text \<open>Nodes put before a node, or at the end.\<close>

fun put_all :: "nat option \<Rightarrow> nat list \<Rightarrow> nat list \<Rightarrow> nat list option" where
  "put_all ref [] ns = Some ns"
| "put_all ref (h # hs) ns = Option.bind (put_node ref h ns) (put_all ref hs)"

lemma put_all_Nil: "put_all ref [] = Some"
  by (rule ext) simp

lemma put_all_append: "put_all ref (xs @ ys) ns = Option.bind (put_all ref xs ns) (put_all ref ys)"
  by (induction xs arbitrary: ns) (auto simp: bind_assoc intro: Option.bind_cong)

lemma Zs_put: "Zs t ref ns = put_all ref (hosts t) ns"
  and Zs_list_put: "Zs_list ts ref ns = put_all ref (all_hosts ts) ns"
  by (induction t ref ns and ts ref ns rule: Zs_Zs_list.induct)
    (auto simp: put_all_append put_all_Nil intro: Option.bind_cong)

lemma removeAll_neq: "removeAll h ns = filter (\<lambda>x. x \<noteq> h) ns"
  by (induction ns) auto

lemma put_end:
  assumes "distinct hs" "filter (\<lambda>x. x \<notin> set hs) ns = A"
  shows "put_all None hs ns = Some (A @ hs)"
  using assms
proof (induction hs arbitrary: ns A)
  case (Cons h hs)
  have "filter (\<lambda>x. x \<notin> set hs) (appendChild h ns) = A @ [h]"
    using Cons.prems by (simp add: appendChild_def removeAll_neq)
  then show ?case using Cons by (simp add: put_node_def)
qed (simp add: filter_id_conv)

lemma first_split: "xs @ r # ys = A @ r # B \<Longrightarrow> r \<notin> set xs \<Longrightarrow> r \<notin> set A \<Longrightarrow> xs = A \<and> ys = B"
  by (induction xs A rule: list_induct2') auto

lemma first_while:
  "r \<notin> set C \<Longrightarrow> takeWhile (\<lambda>x. x \<noteq> r) (C @ r # D) = C \<and> dropWhile (\<lambda>x. x \<noteq> r) (C @ r # D) = r # D"
  by (induction C) auto

lemma put_before:
  assumes "distinct hs" "r \<notin> set hs" "filter (\<lambda>x. x \<notin> set hs) ns = A @ r # B" "r \<notin> set A"
  shows "put_all (Some r) hs ns = Some (A @ hs @ r # B)"
  using assms
proof (induction hs arbitrary: ns A)
  case (Cons h hs)
  let ?d = "removeAll h ns"
  have d: "filter (\<lambda>x. x \<notin> set hs) ?d = A @ r # B"
    using Cons.prems(3) by (simp add: removeAll_neq)
  then have "r \<in> set ?d" by (metis filter_is_subset in_set_conv_decomp subsetD)
  then obtain C D where split: "?d = C @ r # D" "r \<notin> set C" by (meson split_list_first)
  have "filter (\<lambda>x. x \<notin> set hs) C @ r # filter (\<lambda>x. x \<notin> set hs) D = A @ r # B"
    using d split Cons.prems(2) by simp
  moreover have "r \<notin> set (filter (\<lambda>x. x \<notin> set hs) C)" using split(2) by simp
  ultimately have AB: "filter (\<lambda>x. x \<notin> set hs) C = A" "filter (\<lambda>x. x \<notin> set hs) D = B"
    using Cons.prems(4) first_split by metis+
  have put: "put_node (Some r) h ns = Some (C @ h # r # D)"
    using first_while [OF split(2)] by (simp add: split(1) put_node_def insertBefore_def Let_def)
  have "filter (\<lambda>x. x \<notin> set hs) (C @ h # r # D) = (A @ [h]) @ r # B"
    using AB Cons.prems(1,2) by simp
  then show ?case using Cons.IH [of "C @ h # r # D" "A @ [h]"] Cons.prems put by simp
qed (simp add: filter_id_conv)

section \<open>Where the commit takes the nodes\<close>

text \<open>Placing a fiber moves its nodes only, and loses none.\<close>

lemma put_frame:
  assumes "put_all ref hs ns = Some ns'" "distinct ns"
  shows "filter (\<lambda>x. x \<notin> set hs) ns' = filter (\<lambda>x. x \<notin> set hs) ns" and "set ns' = set ns \<union> set hs" and "distinct ns'"
proof -
  have "filter (\<lambda>x. x \<notin> set hs) ns' = filter (\<lambda>x. x \<notin> set hs) ns \<and> set ns' = set ns \<union> set hs \<and> distinct ns'"
    using assms
  proof (induction hs arbitrary: ns)
    case (Cons h hs)
    obtain ns1 where ns1: "put_node ref h ns = Some ns1" "put_all ref hs ns1 = Some ns'"
      using Cons.prems(1) by (auto simp: bind_eq_Some_conv)
    have one: "filter (\<lambda>x. x \<noteq> h) ns1 = filter (\<lambda>x. x \<noteq> h) ns \<and> set ns1 = insert h (set ns) \<and> distinct ns1"
    proof (cases ref)
      case None
      then show ?thesis using ns1(1) Cons.prems(2) by (auto simp: put_node_def appendChild_def removeAll_neq)
    next
      case (Some r)
      then obtain C D where d: "removeAll h ns = C @ r # D" "r \<notin> set C"
        using ns1(1) split_list_first [of r "removeAll h ns"]
        by (auto simp: put_node_def insertBefore_def Let_def split: if_splits)
      then have "ns1 = C @ h # r # D"
        using ns1(1) Some first_while [OF d(2), of D] by (auto simp: put_node_def insertBefore_def Let_def)
      moreover have "filter (\<lambda>x. x \<noteq> h) (C @ r # D) = C @ r # D" "set (C @ r # D) = set ns - {h}" "distinct (C @ r # D)"
        using Cons.prems(2) by (simp_all only: d(1) [symmetric]) (auto simp: removeAll_neq)
      ultimately show ?thesis using d(1) by (auto simp: removeAll_neq filter_id_conv)
    qed
    have both: "filter (\<lambda>x. x \<notin> set (h # hs)) zs = filter (\<lambda>x. x \<notin> set hs) (filter (\<lambda>x. x \<noteq> h) zs)" for zs
      unfolding filter_filter by (intro filter_cong) auto
    have swap: "filter (\<lambda>x. x \<notin> set hs) (filter (\<lambda>x. x \<noteq> h) zs) = filter (\<lambda>x. x \<noteq> h) (filter (\<lambda>x. x \<notin> set hs) zs)" for zs
      unfolding filter_filter by (intro filter_cong) auto
    note rest = Cons.IH [OF ns1(2)] one
    have "filter (\<lambda>x. x \<notin> set (h # hs)) ns' = filter (\<lambda>x. x \<noteq> h) (filter (\<lambda>x. x \<notin> set hs) ns1)"
      using rest by (simp only: both swap)
    also have "\<dots> = filter (\<lambda>x. x \<notin> set (h # hs)) ns"
      using one by (simp only: both swap [symmetric])
    finally show ?case using rest by auto
  qed simp
  then show "filter (\<lambda>x. x \<notin> set hs) ns' = filter (\<lambda>x. x \<notin> set hs) ns" and "set ns' = set ns \<union> set hs" and "distinct ns'"
    by auto
qed

text \<open>A fiber put in its place: the nodes that count afterwards are in order.\<close>

lemma put_in_place:
  assumes "distinct (xs @ hs @ ys)" "distinct ns" "filter (\<lambda>x. x \<in> set (xs @ ys)) ns = xs @ ys"
  shows "\<exists>ns'. put_all (case ys of [] \<Rightarrow> None | y # _ \<Rightarrow> Some y) hs ns = Some ns' \<and>
    filter (\<lambda>x. x \<in> set (xs @ hs @ ys)) ns' = xs @ hs @ ys"
proof -
  let ?V = "\<lambda>x. x \<in> set (xs @ ys)" and ?d = "filter (\<lambda>x. x \<notin> set hs) ns"
  have d: "filter ?V ?d = xs @ ys"
  proof -
    have "filter ?V ?d = filter ?V ns" using assms(1) by (auto intro!: filter_cong simp: )
    then show ?thesis using assms(3) by simp
  qed
  have cong: "filter (\<lambda>x. x \<in> set (xs @ hs @ ys)) zs = filter ?V zs" if "set zs \<subseteq> set ?d" for zs
    using that by (intro filter_cong) auto
  have new: "filter (\<lambda>x. x \<in> set (xs @ hs @ ys)) hs = hs" by (simp add: filter_id_conv)
  show ?thesis
  proof (cases ys)
    case Nil
    have "filter (\<lambda>x. x \<in> set (xs @ hs @ ys)) (?d @ hs) = xs @ hs"
      using d cong [of ?d] new Nil by (simp only: filter_append) simp
    then show ?thesis using put_end [OF _ refl, of hs ns] assms(1) Nil by simp
  next
    case (Cons r rs)
    then have "r \<in> set ?d" using d by (metis filter_is_subset in_set_conv_decomp subsetD)
    then obtain A B where AB: "?d = A @ r # B" "r \<notin> set A" by (meson split_list_first)
    have "filter ?V A @ r # filter ?V B = xs @ r # rs" using d AB Cons by simp
    then have parts: "filter ?V A = xs" "filter ?V B = rs"
      using first_split [of "filter ?V A" r "filter ?V B" xs rs] AB(2) assms(1) Cons by auto
    have sub: "set A \<subseteq> set ?d" "set B \<subseteq> set ?d" by (auto simp: AB(1))
    have "filter (\<lambda>x. x \<in> set (xs @ hs @ ys)) (A @ hs @ r # B) = xs @ hs @ r # rs"
      unfolding filter_append filter.simps new cong [OF sub(1)] cong [OF sub(2)] parts by (simp add: Cons)
    then show ?thesis using put_before [OF _ _ AB] assms(1) Cons by simp
  qed
qed

section \<open>The commit of a tree\<close>

fun flagged :: "tree \<Rightarrow> bool" where
  "flagged (Host h p) = p"
| "flagged (Group p ts) = (p \<or> list_ex flagged ts)"

text \<open>A component that is to be placed and has placements below it has been there before: the nodes that stay
  within it are among the child nodes. (A new component has no placements below, since its children are not
  tracked.)\<close>

fun fits :: "nat set \<Rightarrow> tree \<Rightarrow> bool" where
  "fits D (Host h p) = True"
| "fits D (Group p ts) = (list_all (fits D) ts \<and> (p \<and> list_ex flagged ts \<longrightarrow> set (all_stable ts) \<subseteq> D))"

lemma fits_mono: "fits D t \<Longrightarrow> D \<subseteq> D' \<Longrightarrow> fits D' t"
  by (induction t) (auto simp: list_all_iff)

lemma put_ok:
  assumes "distinct (hs @ ys)" "distinct ns" "\<forall>y \<in> set (take 1 ys). y \<in> set ns"
  shows "\<exists>ns'. put_all (case ys of [] \<Rightarrow> None | y # _ \<Rightarrow> Some y) hs ns = Some ns'"
proof (cases ys)
  case Nil
  then show ?thesis using put_end [OF _ refl, of hs ns] assms(1) by simp
next
  case (Cons r rs)
  then have "r \<in> set (filter (\<lambda>x. x \<notin> set hs) ns)" using assms(1,3) by auto
  then obtain A B where "filter (\<lambda>x. x \<notin> set hs) ns = A @ r # B" "r \<notin> set A" by (meson split_list_first)
  then show ?thesis using put_before [of hs r ns A B] assms(1) Cons by simp
qed

text \<open>Below a component that is itself still to be placed: the commit succeeds and moves only its own nodes.\<close>

lemma by_frame:
  "by_fiber t right ns = Some ns' \<Longrightarrow> distinct ns \<Longrightarrow>
     filter (\<lambda>x. x \<notin> set (hosts t)) ns' = filter (\<lambda>x. x \<notin> set (hosts t)) ns \<and>
     distinct ns' \<and> set ns \<subseteq> set ns' \<and> set ns' \<subseteq> set ns \<union> set (hosts t)"
  "by_list ts right ns = Some ns' \<Longrightarrow> distinct ns \<Longrightarrow>
     filter (\<lambda>x. x \<notin> set (all_hosts ts)) ns' = filter (\<lambda>x. x \<notin> set (all_hosts ts)) ns \<and>
     distinct ns' \<and> set ns \<subseteq> set ns' \<and> set ns' \<subseteq> set ns \<union> set (all_hosts ts)"
proof (induction t right ns and ts right ns arbitrary: ns' and ns' rule: by_fiber_by_list.induct)
  case (1 h p right ns)
  show ?case
  proof (cases p)
    case True
    then have "put_all (Is right) [h] ns = Some ns'" using 1(1) by (auto simp: Zs_put)
    from put_frame [OF this 1(2)] show ?thesis by auto
  qed (use 1 in auto)
next
  case (2 p ts right ns)
  obtain d where d: "by_list ts right ns = Some d"
    "(if p then Zs (Group p ts) (Is right) d else Some d) = Some ns'"
    using 2(2) by (auto simp: bind_eq_Some_conv)
  note inner = 2(1) [OF d(1) 2(3)]
  show ?case
  proof (cases p)
    case True
    then have "put_all (Is right) (all_hosts ts) d = Some ns'" using d(2) by (simp add: Zs_list_put)
    from put_frame [OF this] inner show ?thesis by auto
  qed (use d(2) inner in auto)
next
  case (4 t ts right ns)
  obtain d where d: "by_fiber t (ts @ right) ns = Some d" "by_list ts right d = Some ns'"
    using 4(3) by (auto simp: bind_eq_Some_conv)
  note one = 4(1) [OF d(1) 4(4)]
  note rest = 4(2) [OF d]
  have both: "filter (\<lambda>x. x \<notin> set (all_hosts (t # ts))) zs =
      filter (\<lambda>x. x \<notin> set (all_hosts ts)) (filter (\<lambda>x. x \<notin> set (hosts t)) zs)" for zs
    unfolding filter_filter by (intro filter_cong) auto
  have swap: "filter (\<lambda>x. x \<notin> set (all_hosts ts)) (filter (\<lambda>x. x \<notin> set (hosts t)) zs) =
      filter (\<lambda>x. x \<notin> set (hosts t)) (filter (\<lambda>x. x \<notin> set (all_hosts ts)) zs)" for zs
    unfolding filter_filter by (intro filter_cong) auto
  have "filter (\<lambda>x. x \<notin> set (all_hosts (t # ts))) ns' = filter (\<lambda>x. x \<notin> set (hosts t)) (filter (\<lambda>x. x \<notin> set (all_hosts ts)) d)"
    using rest one by (simp only: both swap)
  also have "\<dots> = filter (\<lambda>x. x \<notin> set (all_hosts (t # ts))) ns"
    using one by (simp only: both swap [symmetric])
  finally show ?case using rest one by auto
qed auto

lemma not_flagged: "\<not> flagged t \<Longrightarrow> by_fiber t right ns = Some ns"
  "\<not> list_ex flagged ts \<Longrightarrow> by_list ts right ns = Some ns"
  by (induction t right ns and ts right ns rule: by_fiber_by_list.induct) auto

definition ready_right :: "tree list \<Rightarrow> nat list \<Rightarrow> bool" where
  "ready_right right ns \<longleftrightarrow> (\<forall>y \<in> set (take 1 (all_stable right)). y \<in> set ns)"

lemma place_hosts:
  assumes "distinct (hosts t @ all_hosts right)" "distinct ns" "ready_right right ns"
  shows "\<exists>ns'. Zs t (Is right) ns = Some ns'"
  unfolding Zs_put Is_stable using assms distinct_stable [of right] stable_hosts(2) [of right]
  unfolding ready_right_def by (intro put_ok) auto

lemma ready_mono: "ready_right right ns \<Longrightarrow> set ns \<subseteq> set ns' \<Longrightarrow> ready_right right ns'"
  by (auto simp: ready_right_def)

lemma ready_append:
  "set (all_stable ts) \<subseteq> set ns \<Longrightarrow> ready_right right ns \<Longrightarrow> ready_right (ts @ right) ns"
proof (cases "all_stable ts")
  case Nil
  then have "all_stable (ts @ right) = all_stable right" by (simp only: map_append concat_append) simp
  moreover assume "ready_right right ns"
  ultimately show ?thesis by (simp only: ready_right_def)
next
  case (Cons h hs)
  then have "take 1 (all_stable (ts @ right)) = [h]" by (simp only: map_append concat_append) simp
  moreover assume "set (all_stable ts) \<subseteq> set ns"
  then have "h \<in> set ns" unfolding Cons by simp
  ultimately show ?thesis by (simp only: ready_right_def) simp
qed

lemma by_inner:
  "distinct (hosts t @ all_hosts right) \<Longrightarrow> distinct ns \<Longrightarrow> fits (set ns) t \<Longrightarrow> set (stable t) \<subseteq> set ns \<Longrightarrow>
     ready_right right ns \<Longrightarrow> \<exists>ns'. by_fiber t right ns = Some ns'"
  "distinct (all_hosts ts @ all_hosts right) \<Longrightarrow> distinct ns \<Longrightarrow> list_all (fits (set ns)) ts \<Longrightarrow>
     set (all_stable ts) \<subseteq> set ns \<Longrightarrow> ready_right right ns \<Longrightarrow> \<exists>ns'. by_list ts right ns = Some ns'"
proof (induction t right ns and ts right ns rule: by_fiber_by_list.induct)
  case (1 h p right ns)
  then show ?case using place_hosts [of "Host h p" right ns] by auto
next
  case (2 p ts right ns)
  have "\<exists>d. by_list ts right ns = Some d"
  proof (cases "list_ex flagged ts")
    case True
    then have "set (all_stable ts) \<subseteq> set ns" using 2(4,5) by (cases p) auto
    then show ?thesis using 2 by auto
  qed (use not_flagged(2) in auto)
  then obtain d where d: "by_list ts right ns = Some d" ..
  have "distinct d" "set ns \<subseteq> set d" using by_frame(2) [OF d 2(3)] by auto
  then have "\<exists>ns'. Zs (Group p ts) (Is right) d = Some ns'"
    using place_hosts [of "Group p ts" right d] 2(2) ready_mono [OF 2(6)] by simp
  then show ?case using d by auto
next
  case (4 t ts right ns)
  have "ready_right (ts @ right) ns" using 4(6,7) by (intro ready_append) auto
  then obtain d where d: "by_fiber t (ts @ right) ns = Some d" using 4(1,3-6) by auto
  have step: "distinct d" "set ns \<subseteq> set d" using by_frame(1) [OF d 4(4)] by auto
  have "list_all (fits (set d)) ts" using 4(5) fits_mono [OF _ step(2)] by (auto simp: list_all_iff)
  then have "\<exists>ns'. by_list ts right d = Some ns'"
    using 4(2) [OF d] 4(3,6) step ready_mono [OF 4(7) step(2)] by auto
  then show ?case using d by auto
qed auto

abbreviation counted :: "nat list \<Rightarrow> nat list \<Rightarrow> bool" where
  "counted vs ns \<equiv> filter (\<lambda>x. x \<in> set vs) ns = vs"

lemma counted_frame:
  assumes "filter (\<lambda>x. x \<notin> set hs) ns' = filter (\<lambda>x. x \<notin> set hs) ns" "set vs \<inter> set hs = {}" "counted vs ns"
  shows "counted vs ns'"
proof -
  have "filter (\<lambda>x. x \<in> set vs) zs = filter (\<lambda>x. x \<in> set vs) (filter (\<lambda>x. x \<notin> set hs) zs)" for zs
    unfolding filter_filter using assms(2) by (intro filter_cong) auto
  then show ?thesis using assms(1,3) by metis
qed

lemma counted_sub: "counted vs ns \<Longrightarrow> set vs \<subseteq> set ns"
  by (metis filter_is_subset)

lemma Zs_places:
  assumes "distinct (xs @ hosts t @ all_hosts right)" "distinct ns" "counted (xs @ all_stable right) ns"
  shows "\<exists>ns'. Zs t (Is right) ns = Some ns' \<and> counted (xs @ hosts t @ all_stable right) ns'"
proof -
  have "distinct (xs @ hosts t @ all_stable right)"
    using assms(1) distinct_stable [of right] stable_hosts(2) [of right] by auto
  then show ?thesis using put_in_place assms(2,3) unfolding Zs_put Is_stable by blast
qed

lemma by_places:
  "distinct (xs @ hosts t @ all_hosts right) \<Longrightarrow> distinct ns \<Longrightarrow> fits (set ns) t \<Longrightarrow>
     counted (xs @ stable t @ all_stable right) ns \<Longrightarrow>
     \<exists>ns'. by_fiber t right ns = Some ns' \<and> counted (xs @ hosts t @ all_stable right) ns'"
  "distinct (xs @ all_hosts ts @ all_hosts right) \<Longrightarrow> distinct ns \<Longrightarrow> list_all (fits (set ns)) ts \<Longrightarrow>
     counted (xs @ all_stable ts @ all_stable right) ns \<Longrightarrow>
     \<exists>ns'. by_list ts right ns = Some ns' \<and> counted (xs @ all_hosts ts @ all_stable right) ns'"
proof (induction t right ns and ts right ns arbitrary: xs and xs rule: by_fiber_by_list.induct)
  case (1 h p right ns)
  show ?case
  proof (cases p)
    case True
    then show ?thesis using 1 Zs_places [of xs "Host h p" right ns] by simp
  qed (use 1 in simp)
next
  case (2 p ts right ns)
  show ?case
  proof (cases p)
    case False
    then show ?thesis using 2 by simp
  next
    case True
    have all: "distinct (all_hosts ts @ all_hosts right)" using 2(2) by simp
    have "set (all_stable right) \<subseteq> set ns" using counted_sub [OF 2(5)] True by auto
    then have "ready_right right ns" unfolding ready_right_def using in_set_takeD by fast
    then have "\<exists>d. by_list ts right ns = Some d"
      using by_inner(2) [OF all 2(3)] 2(4) True not_flagged(2) by (cases "list_ex flagged ts") auto
    then obtain d where d: "by_list ts right ns = Some d" ..
    have frame: "filter (\<lambda>x. x \<notin> set (all_hosts ts)) d = filter (\<lambda>x. x \<notin> set (all_hosts ts)) ns" "distinct d"
      using by_frame(2) [OF d 2(3)] by simp_all
    have dis: "set (xs @ all_stable right) \<inter> set (all_hosts ts) = {}"
      using 2(2) stable_hosts(2) [of right] by auto
    have "counted (xs @ all_stable right) ns" using 2(5) True by simp
    then have "counted (xs @ all_stable right) d"
      by (rule counted_frame [OF frame(1) dis])
    then have "\<exists>ns'. Zs (Group p ts) (Is right) d = Some ns' \<and> counted (xs @ hosts (Group p ts) @ all_stable right) ns'"
      by (rule Zs_places [OF 2(2) frame(2)])
    then show ?thesis using d True by simp
  qed
next
  case (4 t ts right ns)
  have before: "distinct (xs @ hosts t @ all_hosts (ts @ right))" "distinct ns" "fits (set ns) t"
    "counted (xs @ stable t @ all_stable (ts @ right)) ns"
    using 4(3-6) by simp_all
  obtain d where d: "by_fiber t (ts @ right) ns = Some d"
    "counted ((xs @ hosts t) @ all_stable ts @ all_stable right) d"
    using 4(1) [OF before] by (auto simp only: map_append concat_append append_assoc)
  have step: "distinct d" "set ns \<subseteq> set d" using by_frame(1) [OF d(1) 4(4)] by auto
  have "list_all (fits (set d)) ts" using 4(5) fits_mono [OF _ step(2)] by (auto simp: list_all_iff)
  moreover have "distinct ((xs @ hosts t) @ all_hosts ts @ all_hosts right)" using 4(3) by simp
  ultimately obtain ns' where "by_list ts right d = Some ns'"
    "counted ((xs @ hosts t) @ all_hosts ts @ all_stable right) ns'"
    using 4(2) [OF d(1)] step(1) d(2) by blast
  then show ?case using d(1) by simp
qed auto

text \<open>The commit puts all nodes in the order of the fibers, when those that are to stay are in that order before.\<close>

lemma commit_order:
  assumes "distinct (all_hosts ts)" "distinct ns" "set ns \<subseteq> set (all_hosts ts)" "list_all (fits (set ns)) ts"
    and "counted (all_stable ts) ns"
  shows "by_list ts [] ns = Some (all_hosts ts)"
proof -
  obtain ns' where ns': "by_list ts [] ns = Some ns'" "counted (all_hosts ts) ns'"
    using by_places(2) [of "[]" ts "[]" ns] assms by auto
  have "set ns' \<subseteq> set (all_hosts ts)" using by_frame(2) [OF ns'(1) assms(2)] assms(3) by auto
  then have "filter (\<lambda>x. x \<in> set (all_hosts ts)) ns' = ns'" by (auto simp: filter_id_conv)
  then show ?thesis using ns' by simp
qed

end
