(* ===== verification/React_Dom_Order.thy ===== *)
theory React_Dom_Order
  imports React_Lists React_Placement
begin

text \<open>
  Reconciliation and commit together: after the commit the nodes below a host node are those of its new children,
  in their order.
\<close>

section \<open>Lists\<close>

lemma distinct_concat_map:
  assumes "sorted_wrt (\<lambda>a b. set (f a) \<inter> set (f b) = {}) xs" "\<forall>x \<in> set xs. distinct (f x)"
  shows "distinct (concat (map f xs))"
  using assms by (induction xs) auto

lemma sorted_selection:
  assumes "sorted_wrt (<) (map f xs)" "sorted (map f ys)" "distinct ys" "set ys \<subseteq> set xs"
  shows "ys = filter (\<lambda>x. x \<in> set ys) xs"
proof -
  let ?zs = "filter (\<lambda>x. x \<in> set ys) xs"
  have xs: "sorted (map f xs)" "distinct (map f xs)"
    using assms(1) by (simp_all add: strict_sorted_iff)
  then have inj: "inj_on f (set xs)" by (simp add: distinct_map)
  have "set ?zs = set ys" using assms(4) by auto
  moreover have "sorted (map f ?zs)" "distinct (map f ?zs)"
    using xs by (simp_all add: sorted_filter distinct_map_filter)
  moreover have "distinct (map f ys)" using assms(3) inj_on_subset [OF inj assms(4)] by (simp add: distinct_map)
  ultimately have "map f ?zs = map f ys"
    using assms(2) by (intro sorted_distinct_set_unique) auto
  then show ?thesis
    using inj_on_map_eq_map [of f ?zs ys] inj \<open>set ?zs = set ys\<close> assms(4) by (metis Un_absorb inj_on_subset)
qed

lemma filter_concat:
  assumes "distinct (concat (map H xs))"
  shows "filter (\<lambda>x. x \<in> set (concat (map H (filter P xs)))) (concat (map H xs)) = concat (map H (filter P xs))"
  using assms
proof (induction xs)
  case (Cons y xs)
  let ?S = "set (concat (map H (filter P xs)))"
  have S: "?S \<subseteq> set (concat (map H xs))" by auto
  have own: "filter (\<lambda>x. x \<in> set (H y) \<union> ?S) (H y) = H y" by (simp add: filter_id_conv)
  have other: "filter (\<lambda>x. x \<in> ?S) (H y) = []" using Cons.prems S by (auto simp: filter_empty_conv)
  have rest: "filter (\<lambda>x. x \<in> set (H y) \<union> ?S) (concat (map H xs)) = filter (\<lambda>x. x \<in> ?S) (concat (map H xs))"
    using Cons.prems by (intro filter_cong) auto
  have ih: "filter (\<lambda>x. x \<in> ?S) (concat (map H xs)) = concat (map H (filter P xs))" using Cons by simp
  show ?case
  proof (cases "P y")
    case True
    then have "filter (\<lambda>x. x \<in> set (concat (map H (filter P (y # xs))))) (concat (map H (y # xs))) =
        filter (\<lambda>x. x \<in> set (H y) \<union> ?S) (H y) @ filter (\<lambda>x. x \<in> set (H y) \<union> ?S) (concat (map H xs))"
      by simp
    then show ?thesis unfolding own rest ih using True by simp
  next
    case False
    then have "filter (\<lambda>x. x \<in> set (concat (map H (filter P (y # xs))))) (concat (map H (y # xs))) =
        filter (\<lambda>x. x \<in> ?S) (H y) @ filter (\<lambda>x. x \<in> ?S) (concat (map H xs))"
      by simp
    then show ?thesis unfolding other ih using False by simp
  qed
qed simp

section \<open>The nodes of the children\<close>

text \<open>The nodes of a child: those of the fiber it continues, or new ones.\<close>

definition nodes :: "(('p, 'x) fiber \<Rightarrow> nat list) \<Rightarrow> (nat \<Rightarrow> nat list) \<Rightarrow> ('p, 'x) work \<Rightarrow> nat list" where
  "nodes H N wk = (case w_old wk of Some q \<Rightarrow> H q | None \<Rightarrow> N (w_index wk))"

text \<open>A child as a fiber below the host node: a host or text fiber, or a component with its nodes.\<close>

definition tree_of :: "(('p, 'x) fiber \<Rightarrow> nat list) \<Rightarrow> (nat \<Rightarrow> nat list) \<Rightarrow> ('p, 'x) work \<Rightarrow> tree" where
  "tree_of H N wk =
     (case (w_tag wk \<in> {5, 6}, nodes H N wk) of
        (True, [h]) \<Rightarrow> Host h (placed wk)
      | (_, hs) \<Rightarrow> Group (placed wk) (map (\<lambda>h. Host h False) hs))"

text \<open>The nodes of deleted children are removed before anything is placed.\<close>

definition remove_nodes :: "nat list \<Rightarrow> nat list \<Rightarrow> nat list" where
  "remove_nodes hs ns = fold removeAll hs ns"

lemma remove_nodes_filter: "remove_nodes hs ns = filter (\<lambda>x. x \<notin> set hs) ns"
proof (induction hs arbitrary: ns)
  case (Cons h hs)
  have "remove_nodes (h # hs) ns = filter (\<lambda>x. x \<notin> set hs) (removeAll h ns)"
    using Cons by (simp add: remove_nodes_def)
  also have "\<dots> = filter (\<lambda>x. x \<notin> set (h # hs)) ns"
    unfolding removeAll_neq filter_filter by (intro filter_cong) auto
  finally show ?case .
qed (simp add: remove_nodes_def)

lemma hosts_plain: "concat (map hosts (map (\<lambda>h. Host h False) hs)) = hs"
  "concat (map stable (map (\<lambda>h. Host h False) hs)) = hs" "\<not> list_ex flagged (map (\<lambda>h. Host h False) hs)"
  by (induction hs) simp_all

lemma tree_of_hosts [simp]: "hosts (tree_of H N wk) = nodes H N wk"
  "stable (tree_of H N wk) = (if placed wk then [] else nodes H N wk)" "fits D (tree_of H N wk)"
  using hosts_plain [of "nodes H N wk"]
  by (auto simp: tree_of_def list_all_iff list_ex_iff split: bool.split list.split)

lemma all_trees: "all_hosts (map (tree_of H N) ws) = concat (map (nodes H N) ws)"
  "all_stable (map (tree_of H N) ws) = concat (map (nodes H N) (filter (\<lambda>wk. \<not> placed wk) ws))"
  by (induction ws) simp_all

lemma kept_Cons: "kept (wk # ws) = (case w_old wk of None \<Rightarrow> [] | Some q \<Rightarrow> [q]) @ kept ws"
  by (simp add: kept_def List.map_filter_def split: option.split)

lemma distinct_kept:
  "distinct (kept ws) \<Longrightarrow> sorted_wrt (\<lambda>a b. w_old a = None \<or> w_old a \<noteq> w_old b) ws"
proof (induction ws)
  case (Cons wk ws)
  have "q \<in> set (kept ws)" if "v \<in> set ws" "w_old v = Some q" for v q
    using that by (force simp: kept_def List.map_filter_def)
  then show ?case using Cons by (auto simp: kept_Cons split: option.splits)
qed simp

lemma kept_filter: "distinct (kept ws) \<Longrightarrow> distinct (kept (filter P ws))"
proof (induction ws)
  case (Cons wk ws)
  have "set (kept (filter P ws)) \<subseteq> set (kept ws)" by (auto simp: kept_def List.map_filter_def)
  then show ?case using Cons by (auto simp: kept_Cons split: option.splits)
qed simp

lemma stays_nodes:
  "\<forall>wk \<in> set ws. \<not> placed wk \<longrightarrow> w_old wk \<noteq> None \<Longrightarrow>
    concat (map (nodes H N) (filter (\<lambda>wk. \<not> placed wk) ws)) = concat (map H (kept (filter (\<lambda>wk. \<not> placed wk) ws)))"
  by (induction ws) (auto simp: kept_Cons nodes_def)

section \<open>Theorems\<close>

text \<open>
  C25: When a component with old children renders, every old child is either continued by exactly one new child or
  deleted; the new children are, in order, what the rendered values ask for; and the children that are not to be
  placed are old ones in their old order.
\<close>

theorem children_reconciled:
  assumes "ln True E olds n = Inr (ws, ds)" "well_keyed olds"
  shows "mset (kept ws) + mset ds = mset olds \<and> list_all2 gives (filter renders (kids n)) ws \<and>
    sorted (map f_index (kept (filter (\<lambda>wk. \<not> placed wk) ws))) \<and>
    (\<forall>wk \<in> set ws. \<not> placed wk \<longrightarrow> w_old wk \<noteq> None) \<and> sorted_wrt (<) (map w_index ws)"
  using ln_reconciled [OF assms] by (simp add: reconciled_def)

text \<open>Committing the placements of any tree of fibers below a host node puts its nodes in the order of the fibers,
  without an exception, as soon as the nodes that are to stay are in that order before.\<close>

lemma placements_in_order:
  assumes "distinct (all_hosts ts)" "distinct ns" "set ns \<subseteq> set (all_hosts ts)" "list_all (fits (set ns)) ts"
    and "counted (all_stable ts) ns"
  shows "by_list ts [] ns = Some (all_hosts ts)"
  by (rule commit_order [OF assms])

lemma concat_disjoint:
  "distinct (concat (map H xs)) \<Longrightarrow> distinct xs \<Longrightarrow> q \<in> set xs \<Longrightarrow> q' \<in> set xs \<Longrightarrow> q \<noteq> q' \<Longrightarrow> set (H q) \<inter> set (H q') = {}"
proof (induction xs)
  case (Cons y xs)
  have "set (H y) \<inter> set (H z) = {}" if "z \<in> set xs" for z using Cons.prems(1) that by auto
  then show ?case using Cons by (cases "q = y"; cases "q' = y") (auto simp: Int_commute)
qed simp

lemma nodes_distinct:
  assumes "reconciled olds news ws ds" "distinct olds" "distinct (concat (map H olds))"
    and "\<forall>i. distinct (N i) \<and> set (N i) \<inter> set (concat (map H olds)) = {}"
    and "\<forall>i j. i \<noteq> j \<longrightarrow> set (N i) \<inter> set (N j) = {}"
  shows "distinct (concat (map (nodes H N) ws))"
proof (rule distinct_concat_map)
  note disjoint = concat_disjoint [OF assms(3,2)]
  have m: "mset (kept ws) + mset ds = mset olds" using assms(1) by (simp add: reconciled_def)
  have "distinct (kept ws)" using m assms(2) by (metis distinct_append mset_append mset_eq_imp_distinct_iff)
  then have old: "sorted_wrt (\<lambda>a b. w_old a = None \<or> w_old a \<noteq> w_old b) ws" by (rule distinct_kept)
  have idx: "sorted_wrt (\<lambda>a b. w_index a < w_index b) ws"
    using assms(1) by (simp add: reconciled_def sorted_wrt_map)
  have kept_olds: "q \<in> set olds" if "wk \<in> set ws" "w_old wk = Some q" for wk q
  proof -
    have "q \<in> set (kept ws)" using that by (force simp: kept_def List.map_filter_def)
    then show ?thesis by (metis m set_mset_mset union_iff)
  qed
  have H: "set (H q) \<subseteq> set (concat (map H olds))" if "q \<in> set olds" for q using that by auto
  have new_old: "set (N i) \<inter> set (H q) = {}" if "q \<in> set olds" for i q
    using assms(4) H [OF that] by blast
  have apart: "set (nodes H N a) \<inter> set (nodes H N b) = {}"
    if ab: "a \<in> set ws" "b \<in> set ws" "w_old a = None \<or> w_old a \<noteq> w_old b" "w_index a < w_index b" for a b
  proof (cases "w_old a")
    case a: None
    show ?thesis
    proof (cases "w_old b")
      case None
      then show ?thesis using a assms(5) ab(4) by (simp add: nodes_def)
    next
      case (Some q)
      then show ?thesis using a new_old [OF kept_olds [OF ab(2) Some]] by (simp add: nodes_def)
    qed
  next
    case a: (Some q)
    show ?thesis
    proof (cases "w_old b")
      case None
      then show ?thesis using a new_old [OF kept_olds [OF ab(1) a]] by (simp add: nodes_def Int_commute)
    next
      case (Some q')
      then have "q \<noteq> q'" using ab(3) a by simp
      then show ?thesis using a Some disjoint [OF kept_olds [OF ab(1) a] kept_olds [OF ab(2) Some]] by (simp add: nodes_def)
    qed
  qed
  have "sorted_wrt (\<lambda>a b. (w_old a = None \<or> w_old a \<noteq> w_old b) \<and> w_index a < w_index b) ws"
    using old idx by (induction ws) auto
  then show "sorted_wrt (\<lambda>a b. set (nodes H N a) \<inter> set (nodes H N b) = {}) ws"
    by (rule sorted_wrt_mono_rel [rotated]) (use apart in blast)
  show "\<forall>wk \<in> set ws. distinct (nodes H N wk)"
    using assms(3,4) kept_olds by (auto simp: nodes_def distinct_concat_iff split: option.split)
qed

text \<open>
  C9: From the nodes of the old children, the deletions and placements of a render leave exactly the nodes of the
  new children in their order, without a DOM exception; provided the keys are unique and the children of one
  component do not change within (their nodes are moved as they are).
\<close>

theorem children_in_order:
  assumes "ln True E olds n = Inr (ws, ds)" "well_keyed olds"
    and "distinct (concat (map H olds))" "\<forall>i. distinct (N i) \<and> set (N i) \<inter> set (concat (map H olds)) = {}"
    and "\<forall>i j. i \<noteq> j \<longrightarrow> set (N i) \<inter> set (N j) = {}"
    and "ns = remove_nodes (concat (map H ds)) (concat (map H olds))"
  shows "by_list (map (tree_of H N) ws) [] ns = Some (concat (map (nodes H N) ws))"
proof -
  have r: "reconciled olds (kids n) ws ds" using ln_reconciled [OF assms(1,2)] .
  have m: "mset (kept ws) + mset ds = mset olds" using r by (simp add: reconciled_def)
  have idx: "sorted_wrt (<) (map f_index olds)" using assms(2) by (simp add: well_keyed_def)
  then have dolds: "distinct olds" by (metis distinct_map strict_sorted_iff)
  define K where "K = kept (filter (\<lambda>wk. \<not> placed wk) ws)"
  have dist: "distinct (concat (map (nodes H N) ws))" by (rule nodes_distinct [OF r dolds assms(3-5)])
  have kept_sub: "set K \<subseteq> set (kept ws)" by (auto simp: K_def kept_def List.map_filter_def)
  have part: "set (kept ws) \<inter> set ds = {}" "set (kept ws) \<union> set ds = set olds" "distinct K"
  proof -
    have all: "mset (kept ws @ ds) = mset olds" using m by simp
    then have "distinct (kept ws @ ds)" using dolds mset_eq_imp_distinct_iff by blast
    then show "set (kept ws) \<inter> set ds = {}" "distinct K" by (simp_all add: K_def kept_filter)
    show "set (kept ws) \<union> set ds = set olds" using mset_eq_setD [OF all] by simp
  qed
  have sel: "K = filter (\<lambda>q. q \<in> set K) olds"
    using r idx part kept_sub by (intro sorted_selection) (auto simp: reconciled_def K_def)
  have ns: "ns = filter (\<lambda>x. x \<notin> set (concat (map H ds))) (concat (map H olds))"
    by (simp only: assms(6) remove_nodes_filter)
  have before: "counted (concat (map H K)) (concat (map H olds))"
    using filter_concat [OF assms(3), of "\<lambda>q. q \<in> set K"] by (simp only: sel [symmetric])
  have apart: "set (concat (map H K)) \<inter> set (concat (map H ds)) = {}"
  proof -
    have "set (H q) \<inter> set (H q') = {}" if "q \<in> set K" "q' \<in> set ds" for q q'
    proof (rule concat_disjoint [OF assms(3) dolds])
      show "q \<in> set olds" "q' \<in> set olds" "q \<noteq> q'" using that part(1,2) kept_sub by blast+
    qed
    then show ?thesis by auto
  qed
  have "filter (\<lambda>x. x \<notin> set (concat (map H ds))) ns = filter (\<lambda>x. x \<notin> set (concat (map H ds))) (concat (map H olds))"
    unfolding ns filter_filter by (simp only: conj_absorb)
  then have stays: "counted (concat (map H K)) ns" by (rule counted_frame [OF _ apart before])
  have "set ns \<subseteq> set (concat (map (nodes H N) ws))"
  proof
    fix x assume "x \<in> set ns"
    then obtain q where q: "q \<in> set olds" "q \<notin> set ds" "x \<in> set (H q)" unfolding ns by auto
    then have "q \<in> set (kept ws)" using part(2) by auto
    then obtain wk where wk: "wk \<in> set ws" "w_old wk = Some q" by (auto simp: kept_def List.map_filter_def)
    then have "x \<in> set (nodes H N wk)" using q(3) by (simp add: nodes_def)
    then show "x \<in> set (concat (map (nodes H N) ws))" using wk(1) by auto
  qed
  moreover have "distinct ns" using assms(3) by (simp add: ns)
  moreover have "counted (concat (map (nodes H N) (filter (\<lambda>wk. \<not> placed wk) ws))) ns"
    using stays r unfolding reconciled_def by (simp add: stays_nodes K_def)
  moreover have "list_all (fits (set ns)) (map (tree_of H N) ws)" by (simp add: list_all_iff)
  moreover note commit_order [of "map (tree_of H N) ws" ns, unfolded all_trees, OF dist]
  ultimately show ?thesis by blast
qed

section \<open>A concrete list\<close>

text \<open>Rows a, b, c rendered anew as c, d, a.\<close>

definition row :: "string \<Rightarrow> (unit, unit) node" where
  "row k = Element (Host_type ''tr'') (Some k) Nothing None ()"

definition old_row :: "nat \<Rightarrow> string \<Rightarrow> (unit, unit) fiber" where
  "old_row i k = \<lparr>f_id = i, f_tag = 5, f_key = Some k, f_index = i, f_elementType = Some (Host_type ''tr''),
     f_type = Some (Host_type ''tr''), f_props = Element_props Nothing None (), f_state = None, f_ref = None,
     f_flags = 0, f_lanes = 0\<rparr>"

definition sample_olds :: "(unit, unit) fiber list" where
  "sample_olds = [old_row 0 ''a'', old_row 1 ''b'', old_row 2 ''c'']"

definition sample_child_env :: "(unit, unit) child_env" where
  "sample_child_env = \<lparr>hoisted = (\<lambda>s p. False), lazy_type = (\<lambda>n. Inl ()), new_lanes = 32\<rparr>"

definition sample_works :: "(unit, unit) work list" where
  "sample_works =
     [(use_fiber (old_row 2 ''c'') (Element_props Nothing None ()))\<lparr>w_index := 0\<rparr>,
      (new_element sample_child_env (Host_type ''tr'') (Some ''d'') Nothing None ())\<lparr>w_index := 1, w_flags := 67108866\<rparr>,
      (use_fiber (old_row 0 ''a'') (Element_props Nothing None ()))\<lparr>w_index := 2, w_flags := 67108866\<rparr>]"

lemmas sample_child_defs = sample_olds_def sample_child_env_def sample_works_def row_def old_row_def

lemma sample_ln:
  "ln True sample_child_env sample_olds (Array [row ''c'', row ''d'', row ''a'']) = Inr (sample_works, [old_row 1 ''b''])"
  by (simp add: ln.simps Qe_def sample_child_defs slots.simps slot_key_def no_progress_def p_map_def child_key_def
      te_def same_type_def new_element_def qp_def Bn_def use_fiber_def type_tag_def fiber_type_def add_child_def
      place_def Let_def delete_all_def)

lemma sample_keyed: "well_keyed sample_olds"
  by (simp add: well_keyed_def sample_child_defs child_key_def)

lemma children_reconciled_witness: "kept sample_works = [old_row 2 ''c'', old_row 0 ''a''] \<and>
    mset (kept sample_works) + {#old_row 1 ''b''#} = mset sample_olds"
  using children_reconciled [OF sample_ln sample_keyed]
  by (simp add: kept_Cons kept_def List.map_filter_def sample_works_def use_fiber_def new_element_def qp_def Bn_def)

lemma children_in_order_witness:
  "by_list (map (tree_of (\<lambda>q. [f_id q]) (\<lambda>i. [10 + i])) sample_works) [] [0, 2] = Some [2, 11, 0]"
proof -
  have "[0, 2] = remove_nodes (concat (map (\<lambda>q. [f_id q]) [old_row 1 ''b''])) (concat (map (\<lambda>q. [f_id q]) sample_olds))"
    by (simp add: remove_nodes_def sample_olds_def old_row_def)
  from children_in_order [OF sample_ln sample_keyed _ _ _ this, of "\<lambda>i. [10 + i]"]
  show ?thesis
    by (simp add: sample_olds_def old_row_def sample_works_def nodes_def use_fiber_def new_element_def qp_def Bn_def)
qed

end
