(* ===== verification/Dom_Values.thy ===== *)
theory Dom_Values
  imports JS_Prelude Complex_Main "HOL-Library.AList"
begin

text \<open>
  The JavaScript values React receives as props, and the part of a DOM element it reads and writes while it
  sets them. Numbers are integers or NaN; converting a string to a number knows decimal literals without an
  exponent. Objects and arrays carry their identity and their contents.
\<close>

section \<open>Values\<close>

datatype jsval =
    JUndef
  | JNull
  | JBool bool
  | JNum int
  | JNaN
  | JBig int
  | JStr string
  | JFun nat
  | JSym nat
  | JArr nat "jsval list"
  | JObj nat "(string \<times> jsval) list" string

fun type_of :: "jsval \<Rightarrow> string" where
  "type_of JUndef = ''undefined''"
| "type_of JNull = ''object''"
| "type_of (JBool b) = ''boolean''"
| "type_of (JNum n) = ''number''"
| "type_of JNaN = ''number''"
| "type_of (JBig n) = ''bigint''"
| "type_of (JStr s) = ''string''"
| "type_of (JFun f) = ''function''"
| "type_of (JSym s) = ''symbol''"
| "type_of (JArr i vs) = ''object''"
| "type_of (JObj i ps s) = ''object''"

abbreviation is_fun :: "jsval \<Rightarrow> bool" where
  "is_fun v \<equiv> type_of v = ''function''"

abbreviation is_sym :: "jsval \<Rightarrow> bool" where
  "is_sym v \<equiv> type_of v = ''symbol''"

abbreviation is_bool :: "jsval \<Rightarrow> bool" where
  "is_bool v \<equiv> type_of v = ''boolean''"

text \<open>\<open>v == null\<close>.\<close>

fun nullish :: "jsval \<Rightarrow> bool" where
  "nullish JUndef = True"
| "nullish JNull = True"
| "nullish v = False"

fun truthy :: "jsval \<Rightarrow> bool" where
  "truthy JUndef = False"
| "truthy JNull = False"
| "truthy (JBool b) = b"
| "truthy (JNum n) = (n \<noteq> 0)"
| "truthy JNaN = False"
| "truthy (JBig n) = (n \<noteq> 0)"
| "truthy (JStr s) = (s \<noteq> [])"
| "truthy v = True"

text \<open>\<open>"" + v\<close>; a symbol cannot be converted, and the code converts none.\<close>

fun to_str :: "jsval \<Rightarrow> string" where
  "to_str JUndef = ''undefined''"
| "to_str JNull = ''null''"
| "to_str (JBool b) = (if b then ''true'' else ''false'')"
| "to_str (JNum n) = int_string n"
| "to_str JNaN = ''NaN''"
| "to_str (JBig n) = int_string n"
| "to_str (JStr s) = s"
| "to_str (JFun f) = ''function''"
| "to_str (JSym s) = ''symbol''"
| "to_str (JArr i vs) = js_join '','' (map (\<lambda>v. if nullish v then '''' else to_str v) vs)"
| "to_str (JObj i ps s) = s"

text \<open>\<open>v === v'\<close>: NaN differs from itself; an object's identity comes with its contents.\<close>

definition strict_eq :: "jsval \<Rightarrow> jsval \<Rightarrow> bool" where
  "strict_eq v v' \<longleftrightarrow> v = v' \<and> v \<noteq> JNaN"

subsection \<open>Numbers\<close>

definition is_space :: "char \<Rightarrow> bool" where
  "is_space c \<longleftrightarrow> c \<in> {CHR '' '', CHR 0x09, CHR 0x0A, CHR 0x0B, CHR 0x0C, CHR 0x0D}"

definition js_trim :: "string \<Rightarrow> string" where
  "js_trim s = rev (dropWhile is_space (rev (dropWhile is_space s)))"

definition digit_value :: "char \<Rightarrow> nat option" where
  "digit_value c = (let n = (of_char c :: nat) in if 48 \<le> n \<and> n \<le> 57 then Some (n - 48) else None)"

fun digits_value :: "string \<Rightarrow> int \<Rightarrow> int option" where
  "digits_value [] acc = Some acc"
| "digits_value (c # cs) acc =
     (case digit_value c of None \<Rightarrow> None | Some d \<Rightarrow> digits_value cs (10 * acc + int d))"

definition unsigned_number :: "string \<Rightarrow> rat option" where
  "unsigned_number s =
     (let (whole, rest) = (takeWhile ((\<noteq>) CHR ''.'') s, dropWhile ((\<noteq>) CHR ''.'') s) in
      case rest of
        [] \<Rightarrow> if whole = [] then None else map_option of_int (digits_value whole 0)
      | _ # ds \<Rightarrow>
          if whole = [] \<and> ds = [] then None
          else map_option (\<lambda>n. of_int n / of_int (10 ^ length ds)) (digits_value (whole @ ds) 0))"

text \<open>\<open>Number(s)\<close>, \<open>None\<close> for NaN.\<close>

definition str_number :: "string \<Rightarrow> rat option" where
  "str_number s =
     (case js_trim s of
        [] \<Rightarrow> Some 0
      | c # cs \<Rightarrow>
          if c = CHR ''-'' then map_option uminus (unsigned_number cs)
          else if c = CHR ''+'' then unsigned_number cs
          else unsigned_number (c # cs))"

fun to_number :: "jsval \<Rightarrow> rat option" where
  "to_number JUndef = None"
| "to_number JNull = Some 0"
| "to_number (JBool b) = Some (if b then 1 else 0)"
| "to_number (JNum n) = Some (of_int n)"
| "to_number JNaN = None"
| "to_number (JBig n) = Some (of_int n)"
| "to_number v = str_number (to_str v)"

text \<open>\<open>s != v\<close> for a string \<open>s\<close> and a value that is neither null nor undefined.\<close>

fun loose_neq :: "string \<Rightarrow> jsval \<Rightarrow> bool" where
  "loose_neq s (JStr t) = (s \<noteq> t)"
| "loose_neq s (JBool b) = (str_number s \<noteq> Some (if b then 1 else 0))"
| "loose_neq s (JNum n) = (str_number s \<noteq> Some (of_int n))"
| "loose_neq s (JBig n) = (str_number s \<noteq> Some (of_int n))"
| "loose_neq s JNaN = True"
| "loose_neq s (JFun f) = (s \<noteq> to_str (JFun f))"
| "loose_neq s (JArr i vs) = (s \<noteq> to_str (JArr i vs))"
| "loose_neq s (JObj i ps t) = (s \<noteq> t)"
| "loose_neq s v = True"

section \<open>Errors\<close>

text \<open>An error of React with its number, or a TypeError of the language.\<close>

datatype dom_error = React_error nat | Type_error

type_synonym 'a throws = "dom_error + 'a"

definition bindE :: "'a throws \<Rightarrow> ('a \<Rightarrow> 'b throws) \<Rightarrow> 'b throws" where
  "bindE m f = (case m of Inl e \<Rightarrow> Inl e | Inr a \<Rightarrow> f a)"

lemma bindE_simps [simp]: "bindE (Inl e) f = Inl e" "bindE (Inr a) f = f a"
  by (simp_all add: bindE_def)

lemma bindE_Inr: "bindE m f = Inr b \<longleftrightarrow> (\<exists>a. m = Inr a \<and> f a = Inr b)"
  by (cases m) simp_all

fun foldE :: "('x \<Rightarrow> 's \<Rightarrow> 's throws) \<Rightarrow> 'x list \<Rightarrow> 's \<Rightarrow> 's throws" where
  "foldE f [] s = Inr s"
| "foldE f (x # xs) s = bindE (f x s) (foldE f xs)"

lemma foldE_append: "foldE f (xs @ ys) s = bindE (foldE f xs s) (foldE f ys)"
proof (induction xs arbitrary: s)
  case (Cons x xs)
  then show ?case by (cases "f x s") simp_all
qed simp

text \<open>A property every successful step keeps is kept by the whole loop.\<close>

lemma foldE_invariant:
  assumes "foldE f xs s = Inr s'" "P s" "\<And>x s s'. x \<in> set xs \<Longrightarrow> P s \<Longrightarrow> f x s = Inr s' \<Longrightarrow> P s'"
  shows "P s'"
  using assms
proof (induction xs arbitrary: s)
  case (Cons x xs)
  then obtain t where "f x s = Inr t" "foldE f xs t = Inr s'" by (auto simp: bindE_Inr)
  moreover have "P t" by (rule Cons.prems(3) [OF _ Cons.prems(2)]) (use calculation in simp_all)
  ultimately show ?case using Cons.IH Cons.prems(3) by (metis list.set_intros(2))
qed simp

text \<open>\<open>isNaN(v)\<close>: a bigint cannot be converted to a number.\<close>

fun isNaN :: "jsval \<Rightarrow> bool throws" where
  "isNaN (JBig n) = Inl Type_error"
| "isNaN v = Inr (to_number v = None)"

section \<open>Props\<close>

text \<open>An object's own enumerable properties, in enumeration order.\<close>

type_synonym props = "(string \<times> jsval) list"

definition get_prop :: "props \<Rightarrow> string \<Rightarrow> jsval" where
  "get_prop ps k = (case map_of ps k of None \<Rightarrow> JUndef | Some v \<Rightarrow> v)"

definition hasOwnProperty :: "props \<Rightarrow> string \<Rightarrow> bool" where
  "hasOwnProperty ps k \<longleftrightarrow> k \<in> fst ` set ps"

section \<open>Elements\<close>

datatype child = Text_node string | Html string | Other_node

record opt =
  o_value :: string
  o_selected :: bool
  o_defaultSelected :: bool
  o_disabled :: bool

text \<open>
  \<open>attrs\<close> holds the attributes by qualified name. As in the DOM, the properties \<open>name\<close> and \<open>type\<close> reflect the
  attributes, \<open>defaultValue\<close> of an input its attribute \<open>value\<close> and of a text area its text, and selecting an
  option of a single select deselects the others.
  \<open>e_html\<close> tells an HTML element, whose attribute names the DOM lowercases.
\<close>

record elem =
  e_html :: bool
  attrs :: "string \<rightharpoonup> string"
  kids :: "child list"
  e_value :: string
  e_checked :: bool
  e_defaultChecked :: bool
  e_multiple :: bool
  e_muted :: bool
  e_selected :: bool
  e_onclick :: bool
  e_active :: bool
  e_tracked :: bool
  e_style :: "(string \<times> string) list"
  e_options :: "opt list"
  e_events :: "string set"
  e_own :: "string set"
  e_props :: "(string \<times> jsval) list"
  e_listeners :: "(string \<times> bool \<times> nat) list"

definition attr_name :: "elem \<Rightarrow> string \<Rightarrow> string" where
  "attr_name e k = (if e_html e then js_lower k else k)"

definition setAttribute :: "string \<Rightarrow> string \<Rightarrow> elem \<Rightarrow> elem" where
  "setAttribute k v e = e\<lparr>attrs := (attrs e)(attr_name e k \<mapsto> v)\<rparr>"

definition removeAttribute :: "string \<Rightarrow> elem \<Rightarrow> elem" where
  "removeAttribute k e = e\<lparr>attrs := (attrs e)(attr_name e k := None)\<rparr>"

definition setAttributeNS :: "string \<Rightarrow> string \<Rightarrow> string \<Rightarrow> elem \<Rightarrow> elem" where
  "setAttributeNS ns k v e = e\<lparr>attrs := (attrs e)(k \<mapsto> v)\<rparr>"

definition set_textContent :: "string \<Rightarrow> elem \<Rightarrow> elem" where
  "set_textContent s e = e\<lparr>kids := (if s = [] then [] else [Text_node s])\<rparr>"

text \<open>\<open>listenToNonDelegatedEvent\<close> (\<open>Ct\<close>): an event is listened to once.\<close>

definition Ct :: "string \<Rightarrow> elem \<Rightarrow> elem" where
  "Ct ev e = e\<lparr>e_events := insert ev (e_events e)\<rparr>"

text \<open>A style property set or cleared: the last value counts.\<close>

definition set_style :: "string \<Rightarrow> string \<Rightarrow> elem \<Rightarrow> elem" where
  "set_style k v e = e\<lparr>e_style := AList.update k v (e_style e)\<rparr>"

end
