(* ===== verification/Dom_Props.thy ===== *)
theory Dom_Props
  imports Dom_Values
begin

text \<open>
  How the bundled React DOM sets one prop of an element: attribute names, styles, URLs, and the switch
  \<open>setProp\<close> (\<open>an\<close>) with its companion for custom elements (\<open>c0\<close>).
\<close>

section \<open>Attributes\<close>

text \<open>\<open>isAttributeNameSafe\<close>; the caches do not change the answer. Bytes beyond ASCII count as name characters.\<close>

definition name_start :: "char \<Rightarrow> bool" where
  "name_start c \<longleftrightarrow> c = CHR '':'' \<or> c = CHR ''_'' \<or> 128 \<le> (of_char c :: nat) \<or> (is_alnum c \<and> digit_value c = None)"

definition vs :: "string \<Rightarrow> bool" where
  "vs l = (case l of [] \<Rightarrow> False
     | c # cs \<Rightarrow> name_start c \<and> list_all (\<lambda>c. name_start c \<or> is_alnum c \<or> c = CHR ''-'' \<or> c = CHR ''.'') cs)"

definition gs :: "string \<Rightarrow> jsval \<Rightarrow> elem \<Rightarrow> elem" where
  "gs k f l =
     (if \<not> vs k then l
      else if f = JNull then removeAttribute k l
      else if type_of f \<in> {''undefined'', ''function'', ''symbol''} then removeAttribute k l
      else if is_bool f \<and> take 5 (js_lower k) \<noteq> ''data-'' \<and> take 5 (js_lower k) \<noteq> ''aria-'' then removeAttribute k l
      else setAttribute k (to_str f) l)"

definition vp :: "string \<Rightarrow> jsval \<Rightarrow> elem \<Rightarrow> elem" where
  "vp k f l =
     (if f = JNull then removeAttribute k l
      else if type_of f \<in> {''undefined'', ''function'', ''symbol'', ''boolean''} then removeAttribute k l
      else setAttribute k (to_str f) l)"

definition uu :: "string \<Rightarrow> string \<Rightarrow> jsval \<Rightarrow> elem \<Rightarrow> elem" where
  "uu ns k p l =
     (if p = JNull then removeAttribute k l
      else if type_of p \<in> {''undefined'', ''function'', ''symbol'', ''boolean''} then removeAttribute k l
      else setAttributeNS ns k (to_str p) l)"

text \<open>\<open>getToStringValue\<close>.\<close>

definition Da :: "jsval \<Rightarrow> jsval" where
  "Da l = (if type_of l \<in> {''bigint'', ''boolean'', ''number'', ''string'', ''undefined'', ''object''} then l else JStr '''')"

text \<open>\<open>setTextContent\<close>.\<close>

definition cl :: "string \<Rightarrow> elem \<Rightarrow> elem" where
  "cl s l =
     (case kids l of
        [Text_node t] \<Rightarrow> if s \<noteq> [] then l\<lparr>kids := [Text_node s]\<rparr> else set_textContent s l
      | _ \<Rightarrow> set_textContent s l)"

definition fE :: "(string \<times> string) list" where
  "fE =
     [(''acceptCharset'', ''accept-charset''), (''htmlFor'', ''for''), (''httpEquiv'', ''http-equiv''),
      (''crossOrigin'', ''crossorigin''), (''accentHeight'', ''accent-height''),
      (''alignmentBaseline'', ''alignment-baseline''), (''arabicForm'', ''arabic-form''),
      (''baselineShift'', ''baseline-shift''), (''capHeight'', ''cap-height''), (''clipPath'', ''clip-path''),
      (''clipRule'', ''clip-rule''), (''colorInterpolation'', ''color-interpolation''),
      (''colorInterpolationFilters'', ''color-interpolation-filters''), (''colorProfile'', ''color-profile''),
      (''colorRendering'', ''color-rendering''), (''dominantBaseline'', ''dominant-baseline''),
      (''enableBackground'', ''enable-background''), (''fillOpacity'', ''fill-opacity''),
      (''fillRule'', ''fill-rule''), (''floodColor'', ''flood-color''), (''floodOpacity'', ''flood-opacity''),
      (''fontFamily'', ''font-family''), (''fontSize'', ''font-size''), (''fontSizeAdjust'', ''font-size-adjust''),
      (''fontStretch'', ''font-stretch''), (''fontStyle'', ''font-style''), (''fontVariant'', ''font-variant''),
      (''fontWeight'', ''font-weight''), (''glyphName'', ''glyph-name''),
      (''glyphOrientationHorizontal'', ''glyph-orientation-horizontal''),
      (''glyphOrientationVertical'', ''glyph-orientation-vertical''), (''horizAdvX'', ''horiz-adv-x''),
      (''horizOriginX'', ''horiz-origin-x''), (''imageRendering'', ''image-rendering''),
      (''letterSpacing'', ''letter-spacing''), (''lightingColor'', ''lighting-color''),
      (''markerEnd'', ''marker-end''), (''markerMid'', ''marker-mid''), (''markerStart'', ''marker-start''),
      (''overlinePosition'', ''overline-position''), (''overlineThickness'', ''overline-thickness''),
      (''paintOrder'', ''paint-order''), (''panose-1'', ''panose-1''), (''pointerEvents'', ''pointer-events''),
      (''renderingIntent'', ''rendering-intent''), (''shapeRendering'', ''shape-rendering''),
      (''stopColor'', ''stop-color''), (''stopOpacity'', ''stop-opacity''),
      (''strikethroughPosition'', ''strikethrough-position''),
      (''strikethroughThickness'', ''strikethrough-thickness''), (''strokeDasharray'', ''stroke-dasharray''),
      (''strokeDashoffset'', ''stroke-dashoffset''), (''strokeLinecap'', ''stroke-linecap''),
      (''strokeLinejoin'', ''stroke-linejoin''), (''strokeMiterlimit'', ''stroke-miterlimit''),
      (''strokeOpacity'', ''stroke-opacity''), (''strokeWidth'', ''stroke-width''),
      (''textAnchor'', ''text-anchor''), (''textDecoration'', ''text-decoration''),
      (''textRendering'', ''text-rendering''), (''transformOrigin'', ''transform-origin''),
      (''underlinePosition'', ''underline-position''), (''underlineThickness'', ''underline-thickness''),
      (''unicodeBidi'', ''unicode-bidi''), (''unicodeRange'', ''unicode-range''),
      (''unitsPerEm'', ''units-per-em''), (''vAlphabetic'', ''v-alphabetic''), (''vHanging'', ''v-hanging''),
      (''vIdeographic'', ''v-ideographic''), (''vMathematical'', ''v-mathematical''),
      (''vectorEffect'', ''vector-effect''), (''vertAdvY'', ''vert-adv-y''), (''vertOriginX'', ''vert-origin-x''),
      (''vertOriginY'', ''vert-origin-y''), (''wordSpacing'', ''word-spacing''),
      (''writingMode'', ''writing-mode''), (''xmlnsXlink'', ''xmlns:xlink''), (''xHeight'', ''x-height'')]"

section \<open>Styles\<close>

text \<open>Properties whose numbers have no unit.\<close>

definition q1 :: "string list" where
  "q1 =
     [''animationIterationCount'', ''aspectRatio'', ''borderImageOutset'', ''borderImageSlice'',
      ''borderImageWidth'', ''boxFlex'', ''boxFlexGroup'', ''boxOrdinalGroup'', ''columnCount'', ''columns'',
      ''flex'', ''flexGrow'', ''flexPositive'', ''flexShrink'', ''flexNegative'', ''flexOrder'', ''gridArea'',
      ''gridRow'', ''gridRowEnd'', ''gridRowSpan'', ''gridRowStart'', ''gridColumn'', ''gridColumnEnd'',
      ''gridColumnSpan'', ''gridColumnStart'', ''fontWeight'', ''lineClamp'', ''lineHeight'', ''opacity'',
      ''order'', ''orphans'', ''scale'', ''tabSize'', ''widows'', ''zIndex'', ''zoom'', ''fillOpacity'',
      ''floodOpacity'', ''stopOpacity'', ''strokeDasharray'', ''strokeDashoffset'', ''strokeMiterlimit'',
      ''strokeOpacity'', ''strokeWidth'', ''MozAnimationIterationCount'', ''MozBoxFlex'', ''MozBoxFlexGroup'',
      ''MozLineClamp'', ''msAnimationIterationCount'', ''msFlex'', ''msZoom'', ''msFlexGrow'', ''msFlexNegative'',
      ''msFlexOrder'', ''msFlexPositive'', ''msFlexShrink'', ''msGridColumn'', ''msGridColumnSpan'', ''msGridRow'',
      ''msGridRowSpan'', ''WebkitAnimationIterationCount'', ''WebkitBoxFlex'', ''WebKitBoxFlexGroup'',
      ''WebkitBoxOrdinalGroup'', ''WebkitColumnCount'', ''WebkitColumns'', ''WebkitFlex'', ''WebkitFlexGrow'',
      ''WebkitFlexPositive'', ''WebkitFlexShrink'', ''WebkitLineClamp'']"

definition style_key :: "string \<Rightarrow> string" where
  "style_key k = (if k = ''float'' then ''cssFloat'' else k)"

definition B1 :: "string \<Rightarrow> jsval \<Rightarrow> elem \<Rightarrow> elem throws" where
  "B1 k f l =
     (let p = starts_with k ''--'' in
      if nullish f \<or> is_bool f \<or> f = JStr '''' then
        Inr (set_style (if p then k else style_key k) '''' l)
      else if is_sym f then Inl Type_error
      else if p then Inr (set_style k (to_str f) l)
      else if type_of f \<noteq> ''number'' \<or> f = JNum 0 \<or> k \<in> set q1 then
        Inr (if k = ''float'' then set_style ''cssFloat'' (to_str f) l else set_style k (js_trim (to_str f)) l)
      else Inr (set_style k (to_str f @ ''px'') l))"

text \<open>The own properties of a style value.\<close>

fun own_props :: "jsval \<Rightarrow> props" where
  "own_props (JObj i ps s) = ps"
| "own_props (JArr i xs) = map (\<lambda>i. (nat_string i, xs ! i)) [0..<length xs]"
| "own_props v = []"

definition L1 :: "jsval \<Rightarrow> jsval \<Rightarrow> elem \<Rightarrow> elem throws" where
  "L1 v f l =
     (if \<not> nullish v \<and> type_of v \<noteq> ''object'' then Inl (React_error 62)
      else if \<not> nullish f then
        let l = fold (\<lambda>(k, _) l. if \<not> nullish v \<and> hasOwnProperty (own_props v) k then l
              else set_style (if starts_with k ''--'' then k else style_key k) '''' l) (own_props f) l
        in foldE (\<lambda>(k, p) l. if \<not> strict_eq (get_prop (own_props f) k) p then B1 k p l else Inr l) (own_props v) l
      else foldE (\<lambda>(k, p) l. B1 k p l) (own_props v) l)"

section \<open>URLs\<close>

text \<open>The expression \<open>cd\<close>: control characters and spaces, then \<open>javascript:\<close> with line breaks and tabs in between.\<close>

definition url_gap :: "char \<Rightarrow> bool" where
  "url_gap c \<longleftrightarrow> c \<in> {CHR 0x0D, CHR 0x0A, CHR 0x09}"

fun scheme_match :: "string \<Rightarrow> string \<Rightarrow> bool" where
  "scheme_match [] s = True"
| "scheme_match (c # cs) [] = False"
| "scheme_match (c # cs) (x # xs) = (lower_char x = c \<and> scheme_match cs (dropWhile url_gap xs))"

definition cd :: "string \<Rightarrow> bool" where
  "cd s = scheme_match ''javascript:'' (dropWhile (\<lambda>c. (of_char c :: nat) \<le> 32) s)"

definition blocked_url :: string where
  "blocked_url = ''javascript:throw new Error('' @ [CHR 0x27] @
     ''React has blocked a javascript: URL as a security precaution.'' @ [CHR 0x27] @ '')''"

definition ii :: "string \<Rightarrow> string" where
  "ii l = (if cd l then blocked_url else l)"

text \<open>What a form with a function as its action submits to.\<close>

definition form_url :: string where
  "form_url = ''javascript:throw new Error('' @ [CHR 0x27] @
     ''A React form was unexpectedly submitted. If you called form.submit() manually, consider using form.requestSubmit() instead. If you'' @
     [CHR 0x5C, CHR 0x27] @ ''re trying to use event.stopPropagation() in a submit event handler, consider also calling event.preventDefault().'' @
     [CHR 0x27] @ '')''"

section \<open>One prop\<close>

definition inner_html :: "jsval \<Rightarrow> props \<Rightarrow> elem \<Rightarrow> elem throws" where
  "inner_html p x l =
     (if nullish p then Inr l
      else if type_of p \<noteq> ''object'' \<or> \<not> hasOwnProperty (own_props p) ''__html'' then Inl (React_error 61)
      else let f = get_prop (own_props p) ''__html'' in
        if nullish f then Inr l
        else if \<not> nullish (get_prop x ''children'') then Inl (React_error 60)
        else Inr (l\<lparr>kids := [Html (to_str f)]\<rparr>))"

text \<open>The default branch of the switch: any prop but an event handler is an attribute.\<close>

definition an_default :: "string \<Rightarrow> jsval \<Rightarrow> elem \<Rightarrow> elem" where
  "an_default f p l =
     (if \<not> 2 < length f \<or> (f ! 0 \<noteq> CHR ''o'' \<and> f ! 0 \<noteq> CHR ''O'') \<or> (f ! 1 \<noteq> CHR ''n'' \<and> f ! 1 \<noteq> CHR ''N'')
      then gs (case map_of fE f of Some k \<Rightarrow> k | None \<Rightarrow> f) p l else l)"

definition an_children :: "string \<Rightarrow> jsval \<Rightarrow> elem \<Rightarrow> elem" where
  "an_children tag p l =
     (if type_of p = ''string'' then
        (if tag = ''body'' \<or> tag = ''textarea'' \<and> p = JStr '''' then l else cl (to_str p) l)
      else if (type_of p = ''number'' \<or> type_of p = ''bigint'') \<and> tag \<noteq> ''body'' then cl (to_str p) l
      else l)"

definition an_url :: "string \<Rightarrow> string \<Rightarrow> jsval \<Rightarrow> elem \<Rightarrow> elem" where
  "an_url tag f p l =
     (if f = ''data'' \<and> tag \<noteq> ''object'' then vp ''data'' p l
      else if p = JStr '''' \<and> (tag \<noteq> ''a'' \<or> f \<noteq> ''href'') then removeAttribute f l
      else if nullish p \<or> is_fun p \<or> is_sym p \<or> is_bool p then removeAttribute f l
      else setAttribute f (ii (to_str p)) l)"

text \<open>An action that is no longer a function: the attributes its submission had overridden are set again.\<close>

definition restore_form :: "string \<Rightarrow> string \<Rightarrow> props \<Rightarrow> elem \<Rightarrow> elem" where
  "restore_form tag f x l =
     (if f = ''formAction'' then
        let l = (if tag \<noteq> ''input'' then an_default ''name'' (get_prop x ''name'') l else l);
            l = an_default ''formEncType'' (get_prop x ''formEncType'') l;
            l = an_default ''formMethod'' (get_prop x ''formMethod'') l
        in an_default ''formTarget'' (get_prop x ''formTarget'') l
      else
        let l = an_default ''encType'' (get_prop x ''encType'') l;
            l = an_default ''method'' (get_prop x ''method'') l
        in an_default ''target'' (get_prop x ''target'') l)"

definition an_action :: "string \<Rightarrow> string \<Rightarrow> jsval \<Rightarrow> props \<Rightarrow> jsval \<Rightarrow> elem \<Rightarrow> elem" where
  "an_action tag f p x prev l =
     (if is_fun p then setAttribute f form_url l
      else
        let l = (if is_fun prev then restore_form tag f x l else l) in
        if nullish p \<or> is_sym p \<or> is_bool p then removeAttribute f l
        else setAttribute f (ii (to_str p)) l)"

definition an_href :: "jsval \<Rightarrow> elem \<Rightarrow> elem" where
  "an_href p l =
     (if nullish p \<or> is_fun p \<or> is_bool p \<or> is_sym p then removeAttribute ''xlink:href'' l
      else setAttributeNS ''http://www.w3.org/1999/xlink'' ''xlink:href'' (ii (to_str p)) l)"

definition string_props :: "string list" where
  "string_props = [''contentEditable'', ''spellCheck'', ''draggable'', ''value'', ''autoReverse'',
     ''externalResourcesRequired'', ''focusable'', ''preserveAlpha'']"

definition flag_props :: "string list" where
  "flag_props = [''inert'', ''allowFullScreen'', ''async'', ''autoPlay'', ''controls'', ''default'', ''defer'',
     ''disabled'', ''disablePictureInPicture'', ''disableRemotePlayback'', ''formNoValidate'', ''hidden'', ''loop'',
     ''noModule'', ''noValidate'', ''open'', ''playsInline'', ''readOnly'', ''required'', ''reversed'', ''scoped'',
     ''seamless'', ''itemScope'']"

definition an_string :: "string \<Rightarrow> jsval \<Rightarrow> elem \<Rightarrow> elem" where
  "an_string f p l = (if \<not> nullish p \<and> \<not> is_fun p \<and> \<not> is_sym p then setAttribute f (to_str p) l else removeAttribute f l)"

definition an_flag :: "string \<Rightarrow> jsval \<Rightarrow> elem \<Rightarrow> elem" where
  "an_flag f p l = (if truthy p \<and> \<not> is_fun p \<and> \<not> is_sym p then setAttribute f '''' l else removeAttribute f l)"

definition an_overloaded :: "string \<Rightarrow> jsval \<Rightarrow> elem \<Rightarrow> elem" where
  "an_overloaded f p l =
     (if p = JBool True then setAttribute f '''' l
      else if p \<noteq> JBool False \<and> \<not> nullish p \<and> \<not> is_fun p \<and> \<not> is_sym p then setAttribute f (to_str p) l
      else removeAttribute f l)"

definition an_positive :: "string \<Rightarrow> jsval \<Rightarrow> elem \<Rightarrow> elem throws" where
  "an_positive f p l =
     (if \<not> nullish p \<and> \<not> is_fun p \<and> \<not> is_sym p then
        bindE (isNaN p) (\<lambda>nan. Inr (if \<not> nan \<and> (case to_number p of Some n \<Rightarrow> 1 \<le> n | None \<Rightarrow> False)
          then setAttribute f (to_str p) l else removeAttribute f l))
      else Inr (removeAttribute f l))"

definition an_numeric :: "string \<Rightarrow> jsval \<Rightarrow> elem \<Rightarrow> elem throws" where
  "an_numeric f p l =
     (if nullish p \<or> is_fun p \<or> is_sym p then Inr (removeAttribute f l)
      else bindE (isNaN p) (\<lambda>nan. Inr (if nan then removeAttribute f l else setAttribute f (to_str p) l)))"

definition xlink_props :: "(string \<times> string) list" where
  "xlink_props = [(''xlinkActuate'', ''xlink:actuate''), (''xlinkArcrole'', ''xlink:arcrole''),
     (''xlinkRole'', ''xlink:role''), (''xlinkShow'', ''xlink:show''), (''xlinkTitle'', ''xlink:title''),
     (''xlinkType'', ''xlink:type'')]"

definition xml_props :: "(string \<times> string) list" where
  "xml_props = [(''xmlBase'', ''xml:base''), (''xmlLang'', ''xml:lang''), (''xmlSpace'', ''xml:space'')]"

text \<open>Props that set nothing here.\<close>

definition ignored_props :: "string list" where
  "ignored_props = [''suppressContentEditableWarning'', ''suppressHydrationWarning'', ''defaultValue'',
     ''defaultChecked'', ''innerHTML'', ''ref'', ''autoFocus'']"

text \<open>The second half of the switch, from \<open>contentEditable\<close> to the default branch.\<close>

definition an_attribute :: "string \<Rightarrow> jsval \<Rightarrow> elem \<Rightarrow> elem throws" where
  "an_attribute f p l =
     (if f \<in> set string_props then Inr (an_string f p l)
      else if f \<in> set flag_props then Inr (an_flag f p l)
      else if f \<in> {''capture'', ''download''} then Inr (an_overloaded f p l)
      else if f \<in> {''cols'', ''rows'', ''size'', ''span''} then an_positive f p l
      else if f \<in> {''rowSpan'', ''start''} then an_numeric f p l
      else if f = ''popover'' then Inr (gs ''popover'' p (Ct ''toggle'' (Ct ''beforetoggle'' l)))
      else (case map_of xlink_props f of
          Some k \<Rightarrow> Inr (uu ''http://www.w3.org/1999/xlink'' k p l)
        | None \<Rightarrow> (case map_of xml_props f of
            Some k \<Rightarrow> Inr (uu ''http://www.w3.org/XML/1998/namespace'' k p l)
          | None \<Rightarrow>
              if f = ''is'' then Inr (gs ''is'' p l)
              else if f \<in> {''innerText'', ''textContent''} then Inr l
              else Inr (an_default f p l))))"

definition an :: "string \<Rightarrow> string \<Rightarrow> jsval \<Rightarrow> props \<Rightarrow> jsval \<Rightarrow> elem \<Rightarrow> elem throws" where
  "an tag f p x prev l =
     (if f = ''children'' then Inr (an_children tag p l)
      else if f = ''className'' then Inr (vp ''class'' p l)
      else if f = ''tabIndex'' then Inr (vp ''tabindex'' p l)
      else if f \<in> {''dir'', ''role'', ''viewBox'', ''width'', ''height''} then Inr (vp f p l)
      else if f = ''style'' then L1 p prev l
      else if f \<in> {''data'', ''src'', ''href''} then Inr (an_url tag f p l)
      else if f \<in> {''action'', ''formAction''} then Inr (an_action tag f p x prev l)
      else if f = ''onClick'' then Inr (if nullish p then l else l\<lparr>e_onclick := True\<rparr>)
      else if f = ''onScroll'' then Inr (if nullish p then l else Ct ''scroll'' l)
      else if f = ''onScrollEnd'' then Inr (if nullish p then l else Ct ''scrollend'' l)
      else if f = ''dangerouslySetInnerHTML'' then inner_html p x l
      else if f = ''multiple'' then Inr (l\<lparr>e_multiple := truthy p \<and> \<not> is_fun p \<and> \<not> is_sym p\<rparr>)
      else if f = ''muted'' then Inr (l\<lparr>e_muted := truthy p \<and> \<not> is_fun p \<and> \<not> is_sym p\<rparr>)
      else if f \<in> set ignored_props then Inr l
      else if f = ''xlinkHref'' then Inr (an_href p l)
      else an_attribute f p l)"

section \<open>One prop of a custom element\<close>

definition Mv :: "string \<Rightarrow> bool" where
  "Mv l = (CHR ''-'' \<in> set l \<and>
     l \<notin> set [''annotation-xml'', ''color-profile'', ''font-face'', ''font-face-src'', ''font-face-uri'',
       ''font-face-format'', ''font-face-name'', ''missing-glyph''])"

definition setProperty :: "string \<Rightarrow> jsval \<Rightarrow> elem \<Rightarrow> elem" where
  "setProperty f v l = l\<lparr>e_props := AList.update f v (e_props l)\<rparr>"

fun remove_listener :: "string \<Rightarrow> jsval \<Rightarrow> bool \<Rightarrow> elem \<Rightarrow> elem" where
  "remove_listener ev (JFun h) c l = l\<lparr>e_listeners := filter (\<lambda>x. x \<noteq> (ev, c, h)) (e_listeners l)\<rparr>"
| "remove_listener ev v c l = l"

fun add_listener :: "string \<Rightarrow> jsval \<Rightarrow> bool \<Rightarrow> elem \<Rightarrow> elem" where
  "add_listener ev (JFun h) c l =
     (if (ev, c, h) \<in> set (e_listeners l) then l else l\<lparr>e_listeners := e_listeners l @ [(ev, c, h)]\<rparr>)"
| "add_listener ev v c l = l"

text \<open>\<open>Xu\<close> are the event props React registers itself, \<open>cur\<close> the props the element has now.\<close>

definition c0_default :: "string set \<Rightarrow> props option \<Rightarrow> string \<Rightarrow> jsval \<Rightarrow> elem \<Rightarrow> elem" where
  "c0_default Xu cur f p l =
     (if f \<in> Xu then l
      else
        let handler = starts_with f ''on'';
            x = ends_with f ''Capture'';
            ev = drop 2 (if x then take (length f - 7) f else f);
            old = (case cur of None \<Rightarrow> JNull | Some ps \<Rightarrow> get_prop ps f);
            l = (if handler \<and> is_fun old then remove_listener ev old x l else l)
        in if handler \<and> is_fun p then
             let l = (if \<not> is_fun old \<and> old \<noteq> JNull then
                   (if f \<in> e_own l then setProperty f JNull l
                    else if attrs l (attr_name l f) \<noteq> None then removeAttribute f l else l)
                 else l)
             in add_listener ev p x l
           else if f \<in> e_own l then setProperty f p l
           else if p = JBool True then setAttribute f '''' l
           else gs f p l)"

definition c0 :: "string set \<Rightarrow> props option \<Rightarrow> string \<Rightarrow> jsval \<Rightarrow> props \<Rightarrow> jsval \<Rightarrow> elem \<Rightarrow> elem throws" where
  "c0 Xu cur f p x prev l =
     (if f = ''style'' then L1 p prev l
      else if f = ''dangerouslySetInnerHTML'' then inner_html p x l
      else if f = ''children'' then
        Inr (if type_of p \<in> {''string'', ''number'', ''bigint''} then cl (to_str p) l else l)
      else if f = ''onScroll'' then Inr (if nullish p then l else Ct ''scroll'' l)
      else if f = ''onScrollEnd'' then Inr (if nullish p then l else Ct ''scrollend'' l)
      else if f = ''onClick'' then Inr (if nullish p then l else l\<lparr>e_onclick := True\<rparr>)
      else if f \<in> {''suppressContentEditableWarning'', ''suppressHydrationWarning'', ''innerHTML'', ''ref'',
        ''innerText'', ''textContent''} then Inr l
      else Inr (c0_default Xu cur f p l))"

end
