(* ===== verification/Dom_Elements.thy ===== *)
theory Dom_Elements
  imports Dom_Props
begin

text \<open>
  Whole elements: form controls (\<open>od\<close>, \<open>ud\<close>, \<open>bs\<close>, \<open>Cv\<close>, \<open>Rv\<close>), \<open>setInitialProperties\<close> (\<open>Mr\<close>) for a new element
  and \<open>updateProperties\<close> (\<open>s0\<close>) for one whose props change.
\<close>

section \<open>Inputs\<close>

definition input_default :: "elem \<Rightarrow> string" where
  "input_default l = (case attrs l ''value'' of Some v \<Rightarrow> v | None \<Rightarrow> '''')"

definition set_input_default :: "string \<Rightarrow> elem \<Rightarrow> elem" where
  "set_input_default v l = setAttribute ''value'' v l"

text \<open>A prop that is set and can be a string.\<close>

definition usable :: "jsval \<Rightarrow> bool" where
  "usable v \<longleftrightarrow> \<not> nullish v \<and> \<not> is_fun v \<and> \<not> is_sym v \<and> \<not> is_bool v"

definition checked_of :: "jsval \<Rightarrow> bool" where
  "checked_of v \<longleftrightarrow> truthy v \<and> \<not> is_fun v \<and> \<not> is_sym v"

definition bp :: "elem \<Rightarrow> elem" where
  "bp l = l\<lparr>e_tracked := True\<rparr>"

definition Xo :: "jsval \<Rightarrow> jsval \<Rightarrow> elem \<Rightarrow> elem" where
  "Xo j f l =
     (if j = JStr ''number'' \<and> e_active l \<or> input_default l = to_str f then l else set_input_default (to_str f) l)"

definition ud :: "jsval \<Rightarrow> jsval \<Rightarrow> jsval \<Rightarrow> jsval \<Rightarrow> jsval \<Rightarrow> jsval \<Rightarrow> jsval \<Rightarrow> elem \<Rightarrow> elem" where
  "ud v f p x dc j nm l =
     (let l = setAttribute ''name'' '''' l;
          l = (if usable j then setAttribute ''type'' (to_str j) l else removeAttribute ''type'' l);
          l = (if \<not> nullish v then
                 (if j = JStr ''number'' then
                    (if v = JNum 0 \<and> e_value l = '''' \<or> loose_neq (e_value l) v then l\<lparr>e_value := to_str (Da v)\<rparr> else l)
                  else if e_value l \<noteq> to_str (Da v) then l\<lparr>e_value := to_str (Da v)\<rparr> else l)
               else if j \<noteq> JStr ''submit'' \<and> j \<noteq> JStr ''reset'' then l
               else removeAttribute ''value'' l);
          l = (if \<not> nullish v then Xo j (Da v) l
               else if \<not> nullish f then Xo j (Da f) l
               else if \<not> nullish p then removeAttribute ''value'' l else l);
          l = (if nullish x \<and> \<not> nullish dc then l\<lparr>e_defaultChecked := truthy dc\<rparr> else l);
          l = (if \<not> nullish x then l\<lparr>e_checked := checked_of x\<rparr> else l)
      in if usable nm then setAttribute ''name'' (to_str (Da nm)) l else removeAttribute ''name'' l)"

definition od_checked :: "jsval \<Rightarrow> jsval \<Rightarrow> jsval \<Rightarrow> bool \<Rightarrow> elem \<Rightarrow> elem" where
  "od_checked p x nm hydrating l =
     (let p = (if nullish p then x else p);
          c = checked_of p;
          l = l\<lparr>e_checked := (if hydrating then e_checked l else c), e_defaultChecked := c\<rparr>
      in bp (if usable nm then setAttribute ''name'' (to_str nm) l else l))"

definition od :: "jsval \<Rightarrow> jsval \<Rightarrow> jsval \<Rightarrow> jsval \<Rightarrow> jsval \<Rightarrow> jsval \<Rightarrow> bool \<Rightarrow> elem \<Rightarrow> elem" where
  "od v f p x j nm hydrating l =
     (let l = (if usable j then setAttribute ''type'' (to_str j) l else l) in
      if \<not> nullish v \<or> \<not> nullish f then
        (if (j = JStr ''submit'' \<or> j = JStr ''reset'') \<and> nullish v then bp l
         else
           let d = (if \<not> nullish f then to_str (Da f) else '''');
               s = (if \<not> nullish v then to_str (Da v) else d);
               l = (if hydrating \<or> s = e_value l then l else l\<lparr>e_value := s\<rparr>)
           in od_checked p x nm hydrating (set_input_default s l))
      else od_checked p x nm hydrating l)"

section \<open>Selects and text areas\<close>

text \<open>The values a multiple select is given: \<open>f[x]\<close> for \<open>x < f.length\<close>.\<close>

fun item_strings :: "jsval \<Rightarrow> string list" where
  "item_strings (JArr i xs) = map to_str xs"
| "item_strings (JStr s) = map (\<lambda>c. [c]) s"
| "item_strings v = []"

fun choose_option :: "string \<Rightarrow> nat \<Rightarrow> nat option \<Rightarrow> opt list \<Rightarrow> (nat \<times> bool) option" where
  "choose_option f i first [] = map_option (\<lambda>i. (i, False)) first"
| "choose_option f i first (x # xs) =
     (if o_value x = f then Some (i, True)
      else choose_option f (Suc i) (if first \<noteq> None \<or> o_disabled x then first else Some i) xs)"

definition select_option :: "nat \<Rightarrow> bool \<Rightarrow> opt list \<Rightarrow> opt list" where
  "select_option i dflt xs =
     (let ys = map (\<lambda>x. x\<lparr>o_selected := False\<rparr>) xs in
      ys[i := (xs ! i)\<lparr>o_selected := True, o_defaultSelected := (if dflt then True else o_defaultSelected (xs ! i))\<rparr>])"

definition bs :: "bool \<Rightarrow> jsval \<Rightarrow> bool \<Rightarrow> elem \<Rightarrow> elem" where
  "bs multiple f p l =
     (if multiple then
        l\<lparr>e_options := map (\<lambda>x. let on = (o_value x \<in> set (item_strings f)) in
            x\<lparr>o_selected := on, o_defaultSelected := (if on \<and> p then True else o_defaultSelected x)\<rparr>) (e_options l)\<rparr>
      else
        (case choose_option (to_str (Da f)) 0 None (e_options l) of
           None \<Rightarrow> l
         | Some (i, found) \<Rightarrow> l\<lparr>e_options := select_option i (found \<and> p) (e_options l)\<rparr>))"

fun child_text :: "child \<Rightarrow> string" where
  "child_text (Text_node s) = s"
| "child_text (Html s) = s"
| "child_text Other_node = ''''"

definition text_content :: "elem \<Rightarrow> string" where
  "text_content l = concat (map child_text (kids l))"

definition Rv :: "jsval \<Rightarrow> jsval \<Rightarrow> elem \<Rightarrow> elem" where
  "Rv v f l =
     (let l = (if \<not> nullish v \<and> to_str (Da v) \<noteq> e_value l then l\<lparr>e_value := to_str (Da v)\<rparr> else l) in
      if \<not> nullish v \<and> nullish f then
        (if text_content l \<noteq> to_str (Da v) then set_textContent (to_str (Da v)) l else l)
      else set_textContent (if \<not> nullish f then to_str (Da f) else '''') l)"

definition Cv_default :: "jsval \<Rightarrow> jsval \<Rightarrow> jsval throws" where
  "Cv_default f p =
     (if nullish p then Inr (if nullish f then JStr '''' else f)
      else if \<not> nullish f then Inl (React_error 92)
      else case p of
        JArr i xs \<Rightarrow> if 1 < length xs then Inl (React_error 93)
          else Inr (case xs of [] \<Rightarrow> JStr '''' | x # _ \<Rightarrow> if nullish x then JStr '''' else x)
      | _ \<Rightarrow> Inr p)"

definition Cv :: "jsval \<Rightarrow> jsval \<Rightarrow> jsval \<Rightarrow> elem \<Rightarrow> elem throws" where
  "Cv v f p l =
     bindE (if nullish v then Cv_default f p else Inr v) (\<lambda>v.
       let f = Da v;
           l = set_textContent (to_str f) l;
           t = text_content l;
           l = (if JStr t = f \<and> t \<noteq> '''' then l\<lparr>e_value := t\<rparr> else l)
       in Inr (bp l))"

section \<open>A new element\<close>

text \<open>The props that are set, one after the other.\<close>

definition each_prop :: "(string \<Rightarrow> jsval \<Rightarrow> elem \<Rightarrow> elem throws) \<Rightarrow> props \<Rightarrow> elem \<Rightarrow> elem throws" where
  "each_prop f ps l = foldE (\<lambda>(k, v) l. if nullish v then Inr l else f k v l) ps l"

definition content_props :: "string set" where
  "content_props = {''children'', ''dangerouslySetInnerHTML''}"

definition Mr_img :: "string \<Rightarrow> props \<Rightarrow> elem \<Rightarrow> elem throws" where
  "Mr_img tag f l =
     bindE (each_prop (\<lambda>k v l.
         if k \<in> {''src'', ''srcSet''} then Inr l
         else if k \<in> content_props then Inl (React_error 137)
         else an tag k v f JNull l) f (Ct ''load'' (Ct ''error'' l)))
       (\<lambda>l. bindE (if nullish (get_prop f ''srcSet'') then Inr l else an tag ''srcSet'' (get_prop f ''srcSet'') f JNull l)
         (\<lambda>l. if nullish (get_prop f ''src'') then Inr l else an tag ''src'' (get_prop f ''src'') f JNull l))"

definition input_props :: "string set" where
  "input_props = {''name'', ''type'', ''checked'', ''defaultChecked'', ''value'', ''defaultValue''}"

definition Mr_input :: "string \<Rightarrow> props \<Rightarrow> elem \<Rightarrow> elem throws" where
  "Mr_input tag f l =
     bindE (each_prop (\<lambda>k v l.
         if k \<in> input_props then Inr l
         else if k \<in> content_props then Inl (React_error 137)
         else an tag k v f JNull l) f (Ct ''invalid'' l))
       (\<lambda>l. Inr (od (get_prop f ''value'') (get_prop f ''defaultValue'') (get_prop f ''checked'')
          (get_prop f ''defaultChecked'') (get_prop f ''type'') (get_prop f ''name'') False l))"

definition Mr_select :: "string \<Rightarrow> props \<Rightarrow> elem \<Rightarrow> elem throws" where
  "Mr_select tag f l =
     bindE (each_prop (\<lambda>k v l. if k \<in> {''value'', ''defaultValue''} then Inr l else an tag k v f JNull l) f
         (Ct ''invalid'' l))
       (\<lambda>l. let v = get_prop f ''value''; d = get_prop f ''defaultValue''; m = truthy (get_prop f ''multiple'');
            l = l\<lparr>e_multiple := m\<rparr>
        in Inr (if \<not> nullish v then bs m v False l else if \<not> nullish d then bs m d True l else l))"

definition Mr_textarea :: "string \<Rightarrow> props \<Rightarrow> elem \<Rightarrow> elem throws" where
  "Mr_textarea tag f l =
     bindE (each_prop (\<lambda>k v l.
         if k \<in> {''value'', ''defaultValue'', ''children''} then Inr l
         else if k = ''dangerouslySetInnerHTML'' then Inl (React_error 91)
         else an tag k v f JNull l) f (Ct ''invalid'' l))
       (Cv (get_prop f ''value'') (get_prop f ''defaultValue'') (get_prop f ''children''))"

definition Mr_option :: "string \<Rightarrow> props \<Rightarrow> elem \<Rightarrow> elem throws" where
  "Mr_option tag f l =
     each_prop (\<lambda>k v l. if k = ''selected'' then Inr (l\<lparr>e_selected := checked_of v\<rparr>) else an tag k v f JNull l) f l"

definition Mr_void :: "string \<Rightarrow> props \<Rightarrow> elem \<Rightarrow> elem throws" where
  "Mr_void tag f l =
     each_prop (\<lambda>k v l. if k \<in> content_props then Inl (React_error 137) else an tag k v f JNull l) f l"

definition Mr_custom :: "string set \<Rightarrow> props option \<Rightarrow> props \<Rightarrow> elem \<Rightarrow> elem throws" where
  "Mr_custom Xu cur f l = foldE (\<lambda>(k, v) l. if v = JUndef then Inr l else c0 Xu cur k v f JUndef l) f l"

definition Mr_plain :: "string \<Rightarrow> props \<Rightarrow> elem \<Rightarrow> elem throws" where
  "Mr_plain tag f l = each_prop (\<lambda>k v l. an tag k v f JNull l) f l"

definition media_events :: "string list" where
  "media_events = [''abort'', ''canplay'', ''canplaythrough'', ''durationchange'', ''emptied'', ''encrypted'', ''ended'',
     ''error'', ''loadeddata'', ''loadedmetadata'', ''loadstart'', ''pause'', ''play'', ''playing'', ''progress'',
     ''ratechange'', ''resize'', ''seeked'', ''seeking'', ''stalled'', ''suspend'', ''timeupdate'', ''volumechange'',
     ''waiting'']"

definition plain_tags :: "string list" where
  "plain_tags = [''div'', ''span'', ''svg'', ''path'', ''a'', ''g'', ''p'', ''li'']"

definition void_tags :: "string list" where
  "void_tags = [''area'', ''base'', ''br'', ''col'', ''hr'', ''keygen'', ''meta'', ''param'', ''track'', ''wbr'', ''menuitem'']"

definition Mr :: "string set \<Rightarrow> props option \<Rightarrow> string \<Rightarrow> props \<Rightarrow> elem \<Rightarrow> elem throws" where
  "Mr Xu cur tag f l =
     (if tag \<in> set plain_tags then Mr_plain tag f l
      else if tag = ''img'' then Mr_img tag f l
      else if tag = ''input'' then Mr_input tag f l
      else if tag = ''select'' then Mr_select tag f l
      else if tag = ''textarea'' then Mr_textarea tag f l
      else if tag = ''option'' then Mr_option tag f l
      else if tag = ''dialog'' then
        Mr_plain tag f (Ct ''close'' (Ct ''cancel'' (Ct ''toggle'' (Ct ''beforetoggle'' l))))
      else if tag \<in> {''iframe'', ''object''} then Mr_plain tag f (Ct ''load'' l)
      else if tag \<in> {''video'', ''audio''} then Mr_plain tag f (fold Ct media_events l)
      else if tag = ''image'' then Mr_plain tag f (Ct ''load'' (Ct ''error'' l))
      else if tag = ''details'' then Mr_plain tag f (Ct ''toggle'' l)
      else if tag \<in> {''embed'', ''source'', ''link''} then Mr_void tag f (Ct ''load'' (Ct ''error'' l))
      else if tag \<in> set void_tags then Mr_void tag f l
      else if Mv tag then Mr_custom Xu cur f l
      else Mr_plain tag f l)"

section \<open>Changed props\<close>

text \<open>The loop over the old props: what the new ones do not have is taken away (\<open>an\<close> with null).\<close>

definition drop_props :: "(string \<Rightarrow> jsval \<Rightarrow> elem \<Rightarrow> elem throws) \<Rightarrow> props \<Rightarrow> props \<Rightarrow> elem \<Rightarrow> elem throws" where
  "drop_props f old new l =
     foldE (\<lambda>(k, v) l. if nullish v \<or> hasOwnProperty new k then Inr l else f k v l) old l"

text \<open>The loop over the new props, with the old value of each: those that changed are set.\<close>

definition change_props :: "(string \<Rightarrow> jsval \<Rightarrow> jsval \<Rightarrow> elem \<Rightarrow> elem throws) \<Rightarrow> props \<Rightarrow> props \<Rightarrow> elem \<Rightarrow> elem throws" where
  "change_props f old new l =
     foldE (\<lambda>(k, v) l. let u = get_prop old k in
         if strict_eq v u \<or> nullish v \<and> nullish u then Inr l else f k v u l) new l"

definition s0_input :: "string \<Rightarrow> props \<Rightarrow> props \<Rightarrow> elem \<Rightarrow> elem throws" where
  "s0_input tag f p l =
     bindE (drop_props (\<lambda>k v l. if k \<in> {''checked'', ''value''} then Inr l else an tag k JNull p v l) f p l)
       (\<lambda>l. bindE (foldE (\<lambda>(k, v) l. let u = get_prop f k in
            if nullish v \<and> nullish u then Inr l
            else if k \<in> input_props then Inr l
            else if k \<in> content_props then (if nullish v then Inr l else Inl (React_error 137))
            else if strict_eq v u then Inr l
            else an tag k v p u l) p l)
         (\<lambda>l. Inr (ud (get_prop p ''value'') (get_prop p ''defaultValue'') (get_prop f ''defaultValue'')
            (get_prop p ''checked'') (get_prop p ''defaultChecked'') (get_prop p ''type'') (get_prop p ''name'') l)))"

definition s0_select :: "string \<Rightarrow> props \<Rightarrow> props \<Rightarrow> elem \<Rightarrow> elem throws" where
  "s0_select tag f p l =
     bindE (drop_props (\<lambda>k v l. if k = ''value'' then Inr l else an tag k JNull p v l) f p l)
       (\<lambda>l. bindE (foldE (\<lambda>(k, v) l. let u = get_prop f k in
            if nullish v \<and> nullish u then Inr l
            else if k \<in> {''value'', ''defaultValue''} then Inr l
            else if strict_eq v u then Inr l
            else an tag k v p u l) p l)
         (\<lambda>l. let v = get_prop p ''value''; d = get_prop p ''defaultValue'';
                m = truthy (get_prop p ''multiple''); was = truthy (get_prop f ''multiple'')
          in Inr (if \<not> nullish v then bs m v False l
             else if was \<noteq> m then
               (if \<not> nullish d then bs m d True l else bs m (if m then JArr 0 [] else JStr '''') False l)
             else l)))"

definition s0_textarea :: "string \<Rightarrow> props \<Rightarrow> props \<Rightarrow> elem \<Rightarrow> elem throws" where
  "s0_textarea tag f p l =
     bindE (drop_props (\<lambda>k v l. if k \<in> {''value'', ''children''} then Inr l else an tag k JNull p v l) f p l)
       (\<lambda>l. bindE (foldE (\<lambda>(k, v) l. let u = get_prop f k in
            if nullish v \<and> nullish u then Inr l
            else if k \<in> {''value'', ''defaultValue'', ''children''} then Inr l
            else if k = ''dangerouslySetInnerHTML'' then (if nullish v then Inr l else Inl (React_error 91))
            else if strict_eq v u then Inr l
            else an tag k v p u l) p l)
         (\<lambda>l. Inr (Rv (get_prop p ''value'') (get_prop p ''defaultValue'') l)))"

definition s0_option :: "string \<Rightarrow> props \<Rightarrow> props \<Rightarrow> elem \<Rightarrow> elem throws" where
  "s0_option tag f p l =
     bindE (drop_props (\<lambda>k v l. if k = ''selected'' then Inr (l\<lparr>e_selected := False\<rparr>) else an tag k JNull p v l) f p l)
       (change_props (\<lambda>k v u l. if k = ''selected'' then Inr (l\<lparr>e_selected := checked_of v\<rparr>) else an tag k v p u l) f p)"

definition s0_void :: "string \<Rightarrow> props \<Rightarrow> props \<Rightarrow> elem \<Rightarrow> elem throws" where
  "s0_void tag f p l =
     bindE (drop_props (\<lambda>k v l. an tag k JNull p v l) f p l)
       (change_props (\<lambda>k v u l. if k \<in> content_props then (if nullish v then Inr l else Inl (React_error 137))
          else an tag k v p u l) f p)"

definition s0_custom :: "string set \<Rightarrow> props option \<Rightarrow> props \<Rightarrow> props \<Rightarrow> elem \<Rightarrow> elem throws" where
  "s0_custom Xu cur f p l =
     bindE (foldE (\<lambda>(k, v) l. if v = JUndef \<or> hasOwnProperty p k then Inr l else c0 Xu cur k JUndef p v l) f l)
       (foldE (\<lambda>(k, v) l. let u = get_prop f k in
          if strict_eq v u \<or> v = JUndef \<and> u = JUndef then Inr l else c0 Xu cur k v p u l) p)"

definition s0_plain :: "string \<Rightarrow> props \<Rightarrow> props \<Rightarrow> elem \<Rightarrow> elem throws" where
  "s0_plain tag f p l =
     bindE (drop_props (\<lambda>k v l. an tag k JNull p v l) f p l) (change_props (\<lambda>k v u l. an tag k v p u l) f p)"

definition s0_void_tags :: "string list" where
  "s0_void_tags = [''img'', ''link'', ''area'', ''base'', ''br'', ''col'', ''embed'', ''hr'', ''keygen'', ''meta'',
     ''param'', ''source'', ''track'', ''wbr'', ''menuitem'']"

definition s0 :: "string set \<Rightarrow> props option \<Rightarrow> string \<Rightarrow> props \<Rightarrow> props \<Rightarrow> elem \<Rightarrow> elem throws" where
  "s0 Xu cur tag f p l =
     (if tag \<in> set plain_tags then s0_plain tag f p l
      else if tag = ''input'' then s0_input tag f p l
      else if tag = ''select'' then s0_select tag f p l
      else if tag = ''textarea'' then s0_textarea tag f p l
      else if tag = ''option'' then s0_option tag f p l
      else if tag \<in> set s0_void_tags then s0_void tag f p l
      else if Mv tag then s0_custom Xu cur f p l
      else s0_plain tag f p l)"

end
