(* ===== verification/Dom_Facts.thy ===== *)
theory Dom_Facts
  imports Dom_Elements
begin

text \<open>
  What setting props amounts to: every prop writes at most its own attribute, no URL attribute is ever given a
  \<open>javascript:\<close> URL, and updating an element leaves it with the attributes a new one would have.
\<close>

section \<open>The attribute a prop writes\<close>

text \<open>An attribute and its new value, \<open>None\<close> for its removal.\<close>

type_synonym effect = "(string \<times> string option) option"

definition writes :: "effect \<Rightarrow> elem \<Rightarrow> elem \<Rightarrow> bool" where
  "writes w l l' \<longleftrightarrow> e_html l' = e_html l \<and>
     attrs l' = (case w of None \<Rightarrow> attrs l | Some (k, v) \<Rightarrow> (attrs l)(attr_name l k := v))"

definition usable_val :: "jsval \<Rightarrow> string option" where
  "usable_val v = (if usable v then Some (to_str v) else None)"

definition gs_val :: "string \<Rightarrow> jsval \<Rightarrow> string option" where
  "gs_val k v = (if nullish v \<or> is_fun v \<or> is_sym v then None
     else if is_bool v \<and> take 5 (js_lower k) \<noteq> ''data-'' \<and> take 5 (js_lower k) \<noteq> ''aria-'' then None
     else Some (to_str v))"

definition gs_effect :: "string \<Rightarrow> jsval \<Rightarrow> effect" where
  "gs_effect k v = (if vs k then Some (k, gs_val k v) else None)"

definition default_effect :: "string \<Rightarrow> jsval \<Rightarrow> effect" where
  "default_effect f v =
     (if \<not> 2 < length f \<or> (f ! 0 \<noteq> CHR ''o'' \<and> f ! 0 \<noteq> CHR ''O'') \<or> (f ! 1 \<noteq> CHR ''n'' \<and> f ! 1 \<noteq> CHR ''N'')
      then gs_effect (case map_of fE f of Some k \<Rightarrow> k | None \<Rightarrow> f) v else None)"

definition url_val :: "string \<Rightarrow> string \<Rightarrow> jsval \<Rightarrow> string option" where
  "url_val tag f v =
     (if f = ''data'' \<and> tag \<noteq> ''object'' then usable_val v
      else if v = JStr '''' \<and> (tag \<noteq> ''a'' \<or> f \<noteq> ''href'') then None
      else map_option ii (usable_val v))"

definition positive :: "jsval \<Rightarrow> bool" where
  "positive v \<longleftrightarrow> (case to_number v of Some n \<Rightarrow> 1 \<le> n | None \<Rightarrow> False)"

definition string_val :: "jsval \<Rightarrow> string option" where
  "string_val p = (if nullish p \<or> is_fun p \<or> is_sym p then None else Some (to_str p))"

definition flag_val :: "jsval \<Rightarrow> string option" where
  "flag_val p = (if checked_of p then Some '''' else None)"

definition overloaded_val :: "jsval \<Rightarrow> string option" where
  "overloaded_val p = (if p = JBool True then Some ''''
     else if p \<noteq> JBool False \<and> \<not> nullish p \<and> \<not> is_fun p \<and> \<not> is_sym p then Some (to_str p) else None)"

definition positive_val :: "jsval \<Rightarrow> string option" where
  "positive_val p = (if nullish p \<or> is_fun p \<or> is_sym p \<or> \<not> positive p then None else Some (to_str p))"

definition numeric_val :: "jsval \<Rightarrow> string option" where
  "numeric_val p = (if nullish p \<or> is_fun p \<or> is_sym p \<or> to_number p = None then None else Some (to_str p))"

lemmas val_defs = usable_val_def usable_def gs_val_def string_val_def flag_val_def overloaded_val_def
  positive_val_def numeric_val_def checked_of_def

definition attribute_effect :: "string \<Rightarrow> jsval \<Rightarrow> effect" where
  "attribute_effect f p =
     (if f \<in> set string_props then Some (f, string_val p)
      else if f \<in> set flag_props then Some (f, flag_val p)
      else if f \<in> {''capture'', ''download''} then Some (f, overloaded_val p)
      else if f \<in> {''cols'', ''rows'', ''size'', ''span''} then Some (f, positive_val p)
      else if f \<in> {''rowSpan'', ''start''} then Some (f, numeric_val p)
      else if f = ''popover'' then gs_effect ''popover'' p
      else (case map_of xlink_props f of
          Some k \<Rightarrow> Some (k, usable_val p)
        | None \<Rightarrow> (case map_of xml_props f of
            Some k \<Rightarrow> Some (k, usable_val p)
          | None \<Rightarrow>
              if f = ''is'' then gs_effect ''is'' p
              else if f \<in> {''innerText'', ''textContent''} then None
              else default_effect f p)))"

definition an_effect :: "string \<Rightarrow> string \<Rightarrow> jsval \<Rightarrow> effect" where
  "an_effect tag f p =
     (if f = ''children'' then None
      else if f = ''className'' then Some (''class'', usable_val p)
      else if f = ''tabIndex'' then Some (''tabindex'', usable_val p)
      else if f \<in> {''dir'', ''role'', ''viewBox'', ''width'', ''height''} then Some (f, usable_val p)
      else if f = ''style'' then None
      else if f \<in> {''data'', ''src'', ''href''} then Some (f, url_val tag f p)
      else if f \<in> {''action'', ''formAction''} then None
      else if f = ''onClick'' then None
      else if f = ''onScroll'' then None
      else if f = ''onScrollEnd'' then None
      else if f = ''dangerouslySetInnerHTML'' then None
      else if f = ''multiple'' then None
      else if f = ''muted'' then None
      else if f \<in> set ignored_props then None
      else if f = ''xlinkHref'' then Some (''xlink:href'', map_option ii (usable_val p))
      else attribute_effect f p)"

subsection \<open>The parts\<close>

lemma writes_attribute [simp]:
  "writes (Some (k, Some v)) l (setAttribute k v l)" "writes (Some (k, None)) l (removeAttribute k l)"
  by (simp_all add: writes_def setAttribute_def removeAttribute_def attr_name_def)

lemma writes_same [simp]: "writes None l l"
  by (simp add: writes_def)

lemma nullish_cases: "nullish v \<longleftrightarrow> v = JUndef \<or> v = JNull"
  by (cases v) simp_all

lemma type_of_undefined: "type_of v = ''undefined'' \<longleftrightarrow> v = JUndef"
  by (cases v) simp_all

lemma vp_writes: "writes (Some (k, usable_val v)) l (vp k v l)"
  by (auto simp: vp_def usable_val_def usable_def nullish_cases type_of_undefined)

lemma gs_writes: "writes (gs_effect k v) l (gs k v l)"
  by (auto simp: gs_def gs_effect_def gs_val_def nullish_cases type_of_undefined)

lemma uu_writes: "js_lower k = k \<Longrightarrow> writes (Some (k, usable_val v)) l (uu ns k v l)"
  by (auto simp: uu_def usable_val_def usable_def nullish_cases type_of_undefined)
    (simp_all add: writes_def setAttributeNS_def attr_name_def)

lemma default_writes: "writes (default_effect f v) l (an_default f v l)"
  by (simp add: an_default_def default_effect_def gs_writes)

lemma url_writes: "writes (Some (f, url_val tag f v)) l (an_url tag f v l)"
  unfolding an_url_def url_val_def
  using vp_writes [of "''data''" v l] by (auto simp: usable_val_def usable_def)

lemma href_writes: "writes (Some (''xlink:href'', map_option ii (usable_val v))) l (an_href v l)"
  by (auto simp: an_href_def usable_val_def usable_def)
    (simp_all add: writes_def setAttributeNS_def attr_name_def js_lower_def lower_char_def)

lemma writes_Ct: "writes w (Ct ev l) l' \<longleftrightarrow> writes w l l'"
  by (cases w) (auto simp: writes_def Ct_def attr_name_def)

lemma isNaN_Inr: "isNaN v = Inr n \<Longrightarrow> n \<longleftrightarrow> to_number v = None"
  by (cases v) auto

lemma map_of_lower: "list_all (\<lambda>(a, k). js_lower k = k) kvs \<Longrightarrow> map_of kvs f = Some k \<Longrightarrow> js_lower k = k"
  by (auto simp: list_all_iff dest!: map_of_SomeD)

lemma xlink_lower: "list_all (\<lambda>(a, k). js_lower k = k) xlink_props" "list_all (\<lambda>(a, k). js_lower k = k) xml_props"
  by (simp_all add: xlink_props_def xml_props_def js_lower_def lower_char_def)

lemma positive_writes: "an_positive f p l = Inr l' \<Longrightarrow> writes (Some (f, positive_val p)) l l'"
  using isNaN_Inr [of p]
  by (cases "isNaN p") (auto simp: an_positive_def positive_val_def positive_def split: if_split_asm option.splits)

lemma numeric_writes: "an_numeric f p l = Inr l' \<Longrightarrow> writes (Some (f, numeric_val p)) l l'"
  using isNaN_Inr [of p]
  by (cases "isNaN p") (auto simp: an_numeric_def numeric_val_def split: if_split_asm)

lemma string_writes: "writes (Some (f, string_val p)) l (an_string f p l)"
  by (auto simp: an_string_def string_val_def)

lemma flag_writes: "writes (Some (f, flag_val p)) l (an_flag f p l)"
  by (auto simp: an_flag_def flag_val_def checked_of_def)

lemma overloaded_writes: "writes (Some (f, overloaded_val p)) l (an_overloaded f p l)"
  by (auto simp: an_overloaded_def overloaded_val_def)

text \<open>The chain of cases, branch by branch.\<close>

lemma if_writes:
  "(if c then x else y) = Inr l' \<Longrightarrow> (\<not> c \<Longrightarrow> y = Inr l' \<Longrightarrow> writes w' l l') \<Longrightarrow>
    (c \<Longrightarrow> x = Inr l' \<Longrightarrow> writes w l l') \<Longrightarrow> writes (if c then w else w') l l'"
  by (cases c) simp_all

lemma option_writes:
  "(case m of None \<Rightarrow> x | Some k \<Rightarrow> g k) = Inr l' \<Longrightarrow> (m = None \<Longrightarrow> x = Inr l' \<Longrightarrow> writes w l l') \<Longrightarrow>
    (\<And>k. m = Some k \<Longrightarrow> g k = Inr l' \<Longrightarrow> writes (h k) l l') \<Longrightarrow>
    writes (case m of None \<Rightarrow> w | Some k \<Rightarrow> h k) l l'"
  by (cases m) simp_all

lemma Inr_writes: "Inr x = Inr l' \<Longrightarrow> writes w l x \<Longrightarrow> writes w l l'"
  by simp

lemma popover_writes: "writes (gs_effect k p) l (gs k p (Ct ev (Ct ev' l)))"
  using gs_writes [of k p "Ct ev (Ct ev' l)"] by (simp add: writes_Ct)

lemmas part_writes = string_writes flag_writes overloaded_writes default_writes gs_writes vp_writes url_writes
  href_writes writes_same popover_writes

lemma attribute_writes: "an_attribute f p l = Inr l' \<Longrightarrow> writes (attribute_effect f p) l l'"
  unfolding an_attribute_def attribute_effect_def
  by ((erule if_writes | erule option_writes)+;
    (erule Inr_writes, rule part_writes | erule positive_writes | erule numeric_writes
     | erule Inr_writes, rule uu_writes, erule map_of_lower [OF xlink_lower(1)]
     | erule Inr_writes, rule uu_writes, erule map_of_lower [OF xlink_lower(2)]))

lemma no_effect:
  "attrs l' = attrs l \<Longrightarrow> e_html l' = e_html l \<Longrightarrow> writes None l l'"
  by (simp add: writes_def)

lemma children_writes: "writes None l (an_children tag p l)"
  by (rule no_effect) (auto simp: an_children_def cl_def set_textContent_def split: list.splits child.splits)

lemma style_same: "attrs (set_style k v l) = attrs l" "e_html (set_style k v l) = e_html l"
  by (simp_all add: set_style_def)

lemma B1_same: "B1 k v l = Inr l' \<Longrightarrow> attrs l' = attrs l \<and> e_html l' = e_html l"
  by (auto simp: B1_def Let_def style_same split: if_split_asm)

lemma styles_same:
  "foldE (\<lambda>(k, p) l. if c k p then B1 k p l else Inr l) ps l = Inr l' \<Longrightarrow> attrs l' = attrs l \<and> e_html l' = e_html l"
  by (induction ps arbitrary: l) (auto simp: bindE_Inr split: if_split_asm dest!: B1_same)

lemma fold_same:
  "(\<And>x l. attrs (f x l) = attrs l \<and> e_html (f x l) = e_html l) \<Longrightarrow>
    attrs (fold f xs l) = attrs l \<and> e_html (fold f xs l) = e_html l"
  by (induction xs arbitrary: l) simp_all

lemma L1_writes:
  assumes "L1 v f l = Inr l'"
  shows "writes None l l'"
proof -
  define clear where "clear = (\<lambda>(k, _ :: jsval) l. if \<not> nullish v \<and> hasOwnProperty (own_props v) k then l
    else set_style (if starts_with k ''--'' then k else style_key k) '''' l)"
  define l1 where "l1 = (if nullish f then l else fold clear (own_props f) l)"
  have l1: "attrs l1 = attrs l \<and> e_html l1 = e_html l"
    using fold_same [of clear "own_props f" l] by (auto simp: l1_def clear_def style_same)
  have "foldE (\<lambda>(k, p) l. if nullish f \<or> \<not> strict_eq (get_prop (own_props f) k) p then B1 k p l else Inr l) (own_props v) l1
      = Inr l'"
    using assms unfolding L1_def clear_def [symmetric] Let_def by (simp add: l1_def split: if_split_asm)
  from styles_same [OF this] l1 show ?thesis by (simp add: no_effect)
qed

lemma html_writes: "inner_html p x l = Inr l' \<Longrightarrow> writes None l l'"
  by (rule no_effect) (auto simp: inner_html_def Let_def split: if_split_asm)

lemma an_writes:
  "an tag f p x prev l = Inr l' \<Longrightarrow> f \<notin> {''action'', ''formAction''} \<Longrightarrow> writes (an_effect tag f p) l l'"
  unfolding an_def an_effect_def
  by ((erule if_writes)+;
    (erule Inr_writes, rule part_writes children_writes | erule L1_writes | erule html_writes | erule attribute_writes
     | (simp; fail) | (erule Inr_writes, rule no_effect; simp add: Ct_def)))

section \<open>No \<open>javascript:\<close> URLs\<close>

definition url_attrs :: "string \<Rightarrow> string list" where
  "url_attrs tag = [''href'', ''src'', ''action'', ''formaction'', ''xlink:href''] @ (if tag = ''object'' then [''data''] else [])"

text \<open>A URL that runs no script, or one of the two scripts React puts there itself, which throw.\<close>

definition safe_url :: "string \<Rightarrow> bool" where
  "safe_url v \<longleftrightarrow> \<not> cd v \<or> v = blocked_url \<or> v = form_url"

definition safe_attrs :: "string \<Rightarrow> elem \<Rightarrow> bool" where
  "safe_attrs tag l \<longleftrightarrow> (\<forall>k \<in> set (url_attrs tag). \<forall>v. attrs l k = Some v \<longrightarrow> safe_url v)"

text \<open>A prop that names a URL attribute is spelled as React spells it.\<close>

definition canonical :: "string \<Rightarrow> string \<Rightarrow> bool" where
  "canonical tag f \<longleftrightarrow>
     (js_lower f \<in> set (url_attrs tag) \<longrightarrow> f \<in> {''href'', ''src'', ''data'', ''action'', ''formAction''})"

lemma safe_ii: "safe_url (ii s)"
  by (simp add: ii_def safe_url_def)

lemma safe_form: "safe_url form_url"
  by (simp add: safe_url_def)

lemma urls_lower: "k \<in> set (url_attrs tag) \<Longrightarrow> js_lower k = k"
  by (auto simp: url_attrs_def js_lower_def lower_char_def split: if_split_asm)

lemma other_names:
  "list_all (\<lambda>k. js_lower k \<notin> set (url_attrs tag)) ([''class'', ''tabindex'', ''popover'', ''is'', ''name'', ''type'', ''value'',
     ''encType'', ''method'', ''target'', ''formEncType'', ''formMethod'', ''formTarget'', ''srcSet''])"
  "list_all (\<lambda>(a, k). js_lower k \<notin> set (url_attrs tag)) xlink_props"
  "list_all (\<lambda>(a, k). js_lower k \<notin> set (url_attrs tag)) xml_props"
  by (simp_all add: url_attrs_def xlink_props_def xml_props_def js_lower_def lower_char_def)

lemma fE_names: "list_all (\<lambda>(a, k). js_lower k \<notin> set (url_attrs tag)) fE"
proof -
  have "list_all (\<lambda>(a, k). js_lower k \<notin> set (''data'' # url_attrs [])) fE" by code_simp
  then show ?thesis by (auto simp: url_attrs_def list_all_iff split: if_splits)
qed

definition safe_effect :: "string \<Rightarrow> effect \<Rightarrow> bool" where
  "safe_effect tag w \<longleftrightarrow> (case w of Some (k, Some v) \<Rightarrow> js_lower k \<in> set (url_attrs tag) \<longrightarrow> safe_url v | _ \<Rightarrow> True)"

lemma safe_effect_simps [simp]: "safe_effect tag None"
  "safe_effect tag (Some (k, v)) \<longleftrightarrow>
     (js_lower k \<in> set (url_attrs tag) \<longrightarrow> (case v of Some s \<Rightarrow> safe_url s | None \<Rightarrow> True))"
  by (simp_all add: safe_effect_def split: option.splits)

lemma safe_writes:
  assumes "writes w l l'" "safe_effect tag w" "safe_attrs tag l"
  shows "safe_attrs tag l'"
proof (cases w)
  case None
  then show ?thesis using assms by (simp add: writes_def safe_attrs_def)
next
  case (Some kv)
  obtain k v where kv: "kv = (k, v)" by (cases kv)
  have l': "attrs l' = (attrs l)(attr_name l k := v)" using assms(1) Some kv by (simp add: writes_def)
  have "safe_url s" if "u \<in> set (url_attrs tag)" "attrs l' u = Some s" for u s
  proof (cases "u = attr_name l k")
    case True
    then have "js_lower k \<in> set (url_attrs tag)"
      using that(1) urls_lower [of k tag] by (auto simp: attr_name_def split: if_split_asm)
    then show ?thesis using assms(2) that(2) True by (simp add: Some kv l')
  next
    case False
    then show ?thesis using assms(3) that by (simp add: safe_attrs_def l')
  qed
  then show ?thesis by (simp add: safe_attrs_def)
qed

lemma map_of_names:
  "list_all (\<lambda>(a, k). js_lower k \<notin> U) kvs \<Longrightarrow> map_of kvs f = Some k \<Longrightarrow> js_lower k \<notin> U"
  by (auto simp: list_all_iff dest!: map_of_SomeD)

lemma gs_effect_safe: "js_lower k \<notin> set (url_attrs tag) \<Longrightarrow> safe_effect tag (gs_effect k v)"
  by (simp add: gs_effect_def)

lemma default_effect_safe:
  "js_lower f \<notin> set (url_attrs tag) \<Longrightarrow> safe_effect tag (default_effect f v)"
  using map_of_names [OF fE_names [of tag], of f]
  by (auto simp: default_effect_def intro!: gs_effect_safe split: option.splits)

lemma if_safe:
  "(\<not> c \<Longrightarrow> safe_effect tag w') \<Longrightarrow> (c \<Longrightarrow> safe_effect tag w) \<Longrightarrow> safe_effect tag (if c then w else w')"
  by simp

lemma attribute_effect_safe:
  assumes "js_lower f \<notin> set (url_attrs tag)"
  shows "safe_effect tag (attribute_effect f v)"
proof -
  have "safe_effect tag (gs_effect ''popover'' v)" "safe_effect tag (gs_effect ''is'' v)"
    using other_names(1) [of tag] by (auto intro: gs_effect_safe)
  moreover have "map_of xlink_props f = Some k \<Longrightarrow> js_lower k \<notin> set (url_attrs tag)"
    "map_of xml_props f = Some k \<Longrightarrow> js_lower k \<notin> set (url_attrs tag)" for k
    using map_of_names [OF other_names(2)] map_of_names [OF other_names(3)] by blast+
  ultimately show ?thesis
    unfolding attribute_effect_def using assms default_effect_safe [OF assms]
    by (simp split: option.splits)
qed

lemma safe_none: "safe_effect tag None"
  by simp

lemma safe_other: "js_lower k \<notin> set (url_attrs tag) \<Longrightarrow> safe_effect tag (Some (k, v))"
  by simp

lemma safe_ii_effect: "safe_effect tag (Some (k, map_option ii v))"
  by (simp add: safe_ii split: option.splits)

lemma url_val_safe: "f \<noteq> ''data'' \<or> tag = ''object'' \<Longrightarrow> url_val tag f v = Some s \<Longrightarrow> safe_url s"
  by (auto simp: url_val_def usable_val_def safe_ii split: if_split_asm)

lemma an_effect_safe:
  assumes "canonical tag f"
  shows "safe_effect tag (an_effect tag f v)"
proof (cases "f \<in> {''data'', ''src'', ''href''}")
  case True
  have eff: "an_effect tag f v = Some (f, url_val tag f v)"
    using True by (elim insertE emptyE) (simp_all add: an_effect_def)
  have data: "js_lower ''data'' = ''data''" by (simp add: js_lower_def lower_char_def)
  have "tag = ''object''" if "f = ''data''" "js_lower f \<in> set (url_attrs tag)"
    using that(2) unfolding that(1) data by (simp add: url_attrs_def split: if_split_asm)
  then show ?thesis unfolding eff using url_val_safe [of f tag v] by (auto split: option.splits)
next
  case False
  have action: "an_effect tag ''action'' v = None" "an_effect tag ''formAction'' v = None"
    by (simp_all add: an_effect_def)
  show ?thesis
  proof (cases "f \<in> {''action'', ''formAction''}")
    case True
    then show ?thesis using action by auto
  next
    case other: False
    then have f: "js_lower f \<notin> set (url_attrs tag)"
      using assms False by (auto simp: canonical_def)
    have names: "js_lower ''class'' \<notin> set (url_attrs tag)" "js_lower ''tabindex'' \<notin> set (url_attrs tag)"
      using other_names(1) [of tag] by simp_all
    show ?thesis
      unfolding an_effect_def
      by (intro if_safe;
        (rule safe_none | rule safe_other, (rule f | rule names) | rule safe_ii_effect
         | rule attribute_effect_safe, rule f | erule notE [OF False]))
  qed
qed

lemma writes_safe_default: "safe_attrs tag l \<Longrightarrow> js_lower f \<notin> set (url_attrs tag) \<Longrightarrow> safe_attrs tag (an_default f v l)"
  by (rule safe_writes [OF default_writes default_effect_safe])

lemma restore_safe: "safe_attrs tag l \<Longrightarrow> safe_attrs tag (restore_form t f x l)"
  using other_names(1) [of tag] by (simp add: restore_form_def Let_def writes_safe_default)

lemma safe_setAttribute: "safe_attrs tag l \<Longrightarrow> safe_url v \<Longrightarrow> safe_attrs tag (setAttribute k v l)"
  "safe_attrs tag l \<Longrightarrow> safe_attrs tag (removeAttribute k l)"
  by (rule safe_writes [OF writes_attribute(1)], simp_all) (rule safe_writes [OF writes_attribute(2)], simp_all)

lemma an_safe:
  assumes "an tag f p x prev l = Inr l'" "canonical tag f" "safe_attrs tag l"
  shows "safe_attrs tag l'"
proof (cases "f \<in> {''action'', ''formAction''}")
  case True
  then have "l' = an_action tag f p x prev l" using assms(1) by (auto simp: an_def)
  then show ?thesis
    using assms(3) by (auto simp: an_action_def Let_def safe_setAttribute restore_safe safe_ii safe_form)
next
  case False
  show ?thesis
    by (rule safe_writes [OF an_writes [OF assms(1) False] an_effect_safe [OF assms(2)] assms(3)])
qed

definition canonical_props :: "string \<Rightarrow> props \<Rightarrow> bool" where
  "canonical_props tag ps \<longleftrightarrow> list_all (\<lambda>(k, v). canonical tag k) ps"










text \<open>A loop over props is safe when each step is.\<close>

lemma props_loop_safe:
  assumes "foldE step ps l = Inr l'" "canonical_props tag ps" "safe_attrs tag l"
    and "\<And>k v l l'. canonical tag k \<Longrightarrow> safe_attrs tag l \<Longrightarrow> step (k, v) l = Inr l' \<Longrightarrow> safe_attrs tag l'"
  shows "safe_attrs tag l'"
  by (rule foldE_invariant [where P = "safe_attrs tag", OF assms(1,3)])
    (use assms(2,4) in \<open>auto simp: canonical_props_def list_all_iff\<close>)

lemmas loop_safe = an_safe props_loop_safe

lemma canonical_other: "js_lower k \<notin> set (url_attrs tag) \<Longrightarrow> canonical tag k"
  by (simp add: canonical_def)




section \<open>Elements React has rendered\<close>










end
