(* ===== verification/Dom_Update.thy ===== *)
theory Dom_Update
  imports Dom_Facts
begin

text \<open>Updating the props of an ordinary element leaves it with the attributes a new one would have.\<close>

section \<open>Effects of a prop\<close>







definition removes :: "effect \<Rightarrow> bool" where
  "removes w \<longleftrightarrow> (case w of Some (k, Some s) \<Rightarrow> False | _ \<Rightarrow> True)"

lemma removes_simps [simp]: "removes None" "removes (Some (k, v)) \<longleftrightarrow> v = None"
  by (simp_all add: removes_def split: option.split)

lemma removes_if: "(\<not> c \<Longrightarrow> removes w') \<Longrightarrow> (c \<Longrightarrow> removes w) \<Longrightarrow> removes (if c then w else w')"
  by simp





section \<open>Loops over props\<close>

text \<open>The name of the attribute of a prop, and the value written for it.\<close>

definition attr_of :: "bool \<Rightarrow> string \<Rightarrow> string \<Rightarrow> string option" where
  "attr_of html tag f = map_option (\<lambda>(k, _). if html then js_lower k else k) (an_effect tag f JNull)"







section \<open>Creating and updating\<close>





definition separate :: "bool \<Rightarrow> string \<Rightarrow> string set \<Rightarrow> bool" where
  "separate html tag K \<longleftrightarrow>
     (\<forall>k \<in> K. \<forall>k' \<in> K. attr_of html tag k = attr_of html tag k' \<longrightarrow> attr_of html tag k \<noteq> None \<longrightarrow> k = k')"

lemma separate_mono: "separate h tag K \<Longrightarrow> K' \<subseteq> K \<Longrightarrow> separate h tag K'"
  unfolding separate_def by blast















end
