(* ===== verification/React_Effects.thy ===== *)
theory React_Effects
  imports React_Hooks
begin

text \<open>
  The effect hooks of the bundled \<open>react-dom\<close>: \<open>useInsertionEffect\<close>, \<open>useLayoutEffect\<close>, \<open>useEffect\<close>, from the render
  that pushes them to the commit that runs and cleans them up. An effect's instance, which all renders of its hook
  share, is an index into a store of cleanup functions. Hidden subtrees and the effects that external stores add are
  left out. User code runs in an environment: what a call gives may depend on everything that happened before.
\<close>

section \<open>Effects and fibers\<close>

record ('c, 'd) effect =
  e_tag :: lanes
  e_create :: 'c
  e_inst :: nat
  e_deps :: "'d list option"

text \<open>\<open>f_hooks\<close> are the effects that the hooks keep as their \<open>memoizedState\<close>, \<open>f_effects\<close> the circular list of the
  \<open>updateQueue\<close>, from \<open>lastEffect.next\<close> on.\<close>

record ('c, 'd) ef_fiber =
  f_flags :: lanes
  f_hooks :: "('c, 'd) effect list"
  f_effects :: "('c, 'd) effect list"

datatype ('c, 'k, 'x) happened = Created nat 'c "'k option" | Destroyed nat 'k | Caught 'x

record ('c, 'k, 'x) world =
  w_inst :: "nat \<Rightarrow> 'k option"
  w_next :: nat
  w_log :: "('c, 'k, 'x) happened list"

text \<open>What a create function gives (an exception, a cleanup function or nothing) and whether a cleanup function throws.\<close>

record ('c, 'k, 'x) user_code =
  run_create :: "('c, 'k, 'x) happened list \<Rightarrow> 'c \<Rightarrow> 'x + 'k option"
  run_destroy :: "('c, 'k, 'x) happened list \<Rightarrow> 'k \<Rightarrow> 'x option"

section \<open>Rendering\<close>

datatype effect_kind = Insertion | Layout | Passive

fun hook_flag :: "effect_kind \<Rightarrow> lanes" where
  "hook_flag Insertion = 2"
| "hook_flag Layout = 4"
| "hook_flag Passive = 8"

text \<open>The flags of the fiber on mount and on update.\<close>

fun mount_flags :: "effect_kind \<Rightarrow> lanes" where
  "mount_flags Insertion = 4"
| "mount_flags Layout = 4194308"
| "mount_flags Passive = 8390656"

fun update_flags :: "effect_kind \<Rightarrow> lanes" where
  "update_flags Insertion = 4"
| "update_flags Layout = 4"
| "update_flags Passive = 2048"

text \<open>A call of an effect hook: its kind, the function, and the dependencies (\<open>None\<close> when missing or null).\<close>

type_synonym ('c, 'd) call = "effect_kind \<times> 'c \<times> 'd list option"

text \<open>\<open>pushSimpleEffect\<close>, kept by the hook that called it\<close>

definition gc :: "lanes \<Rightarrow> nat \<Rightarrow> 'c \<Rightarrow> 'd list option \<Rightarrow> ('c, 'd) ef_fiber \<Rightarrow> ('c, 'd) ef_fiber" where
  "gc bits inst create deps vt =
     (let e = \<lparr>e_tag = bits, e_create = create, e_inst = inst, e_deps = deps\<rparr>
      in vt\<lparr>f_effects := f_effects vt @ [e], f_hooks := f_hooks vt @ [e]\<rparr>)"

text \<open>\<open>mountEffectImpl\<close>; \<open>n\<close> is the next instance.\<close>

definition Ps :: "('c, 'd) call \<Rightarrow> ('c, 'd) ef_fiber \<times> nat \<Rightarrow> ('c, 'd) ef_fiber \<times> nat" where
  "Ps call s =
     (case call of (k, create, deps) \<Rightarrow> case s of (vt, n) \<Rightarrow>
        (gc (1 OR hook_flag k) n create deps (vt\<lparr>f_flags := f_flags vt OR mount_flags k\<rparr>), Suc n))"

text \<open>\<open>updateEffectImpl\<close> with the effect that the hook kept\<close>

definition ks :: "('c, 'd) call \<Rightarrow> ('c, 'd) effect \<Rightarrow> ('c, 'd) ef_fiber \<Rightarrow> ('c, 'd) ef_fiber" where
  "ks call prev vt =
     (case call of (k, create, deps) \<Rightarrow>
        if deps \<noteq> None \<and> Su (the deps) (e_deps prev) then gc (hook_flag k) (e_inst prev) create deps vt
        else gc (1 OR hook_flag k) (e_inst prev) create deps (vt\<lparr>f_flags := f_flags vt OR update_flags k\<rparr>))"

text \<open>All calls of a render. An update that calls more or fewer hooks than the render before throws (\<open>None\<close>).\<close>

fun mount_calls :: "('c, 'd) call list \<Rightarrow> ('c, 'd) ef_fiber \<times> nat \<Rightarrow> ('c, 'd) ef_fiber \<times> nat" where
  "mount_calls [] s = s"
| "mount_calls (c # cs) s = mount_calls cs (Ps c s)"

fun update_calls :: "('c, 'd) call list \<Rightarrow> ('c, 'd) effect list \<Rightarrow> ('c, 'd) ef_fiber \<Rightarrow> ('c, 'd) ef_fiber option" where
  "update_calls [] [] vt = Some vt"
| "update_calls (c # cs) (e # es) vt = update_calls cs es (ks c e vt)"
| "update_calls _ _ vt = None"

text \<open>A new fiber; the work in progress of an existing one, with its static flags, before and after \<open>renderWithHooks\<close>
  has emptied its lists.\<close>

definition new_fiber :: "('c, 'd) ef_fiber" where
  "new_fiber = \<lparr>f_flags = 0, f_hooks = [], f_effects = []\<rparr>"

definition du :: "('c, 'd) ef_fiber \<Rightarrow> ('c, 'd) ef_fiber" where
  "du l = l\<lparr>f_flags := f_flags l AND 65011712\<rparr>"

definition Ud :: "('c, 'd) call list \<Rightarrow> ('c, 'd) ef_fiber \<Rightarrow> ('c, 'd) ef_fiber option" where
  "Ud calls l = update_calls calls (f_hooks l) ((du l)\<lparr>f_hooks := [], f_effects := []\<rparr>)"

text \<open>\<open>bailoutHooks\<close>: the component was rendered and nothing it depends on has changed.\<close>

definition yc :: "('c, 'd) ef_fiber \<Rightarrow> ('c, 'd) ef_fiber \<Rightarrow> ('c, 'd) ef_fiber" where
  "yc l vt = vt\<lparr>f_effects := f_effects l, f_flags := f_flags vt AND - 2053\<rparr>"

section \<open>Committing\<close>

definition hit :: "lanes \<Rightarrow> ('c, 'd) effect \<Rightarrow> bool" where
  "hit l e \<longleftrightarrow> e_tag e AND l = l"

definition happen :: "('c, 'k, 'x) happened \<Rightarrow> ('c, 'k, 'x) world \<Rightarrow> ('c, 'k, 'x) world" where
  "happen h w = w\<lparr>w_log := w_log w @ [h]\<rparr>"

text \<open>\<open>commitHookEffectListMount\<close>; an exception ends the loop\<close>

fun pi :: "('c, 'k, 'x) user_code \<Rightarrow> lanes \<Rightarrow> ('c, 'd) effect list \<Rightarrow> ('c, 'k, 'x) world \<Rightarrow> ('c, 'k, 'x) world" where
  "pi U l [] w = w"
| "pi U l (e # es) w =
     (if hit l e then
        (case run_create U (w_log w) (e_create e) of
           Inl x \<Rightarrow> happen (Caught x) w
         | Inr d \<Rightarrow> pi U l es (happen (Created (e_inst e) (e_create e) d) (w\<lparr>w_inst := (w_inst w)(e_inst e := d)\<rparr>)))
      else pi U l es w)"

text \<open>\<open>commitHookEffectListUnmount\<close>; an exception of a cleanup function is captured and the loop goes on\<close>

definition clean :: "('c, 'k, 'x) user_code \<Rightarrow> nat \<Rightarrow> ('c, 'k, 'x) world \<Rightarrow> ('c, 'k, 'x) world" where
  "clean U i w =
     (case w_inst w i of
        None \<Rightarrow> w
      | Some d \<Rightarrow>
          (let w1 = happen (Destroyed i d) (w\<lparr>w_inst := (w_inst w)(i := None)\<rparr>)
           in case run_destroy U (w_log w) d of None \<Rightarrow> w1 | Some x \<Rightarrow> happen (Caught x) w1))"

fun Va :: "('c, 'k, 'x) user_code \<Rightarrow> lanes \<Rightarrow> ('c, 'd) effect list \<Rightarrow> ('c, 'k, 'x) world \<Rightarrow> ('c, 'k, 'x) world" where
  "Va U l [] w = w"
| "Va U l (e # es) w = Va U l es (if hit l e then clean U (e_inst e) w else w)"

text \<open>The phases of a commit, at the component: mutation, layout and passive.\<close>

definition mutation_phase :: "('c, 'k, 'x) user_code \<Rightarrow> ('c, 'd) ef_fiber \<Rightarrow> ('c, 'k, 'x) world \<Rightarrow> ('c, 'k, 'x) world" where
  "mutation_phase U o' w =
     (if f_flags o' AND 4 \<noteq> 0 then Va U 5 (f_effects o') (pi U 3 (f_effects o') (Va U 3 (f_effects o') w)) else w)"

definition layout_phase :: "('c, 'k, 'x) user_code \<Rightarrow> ('c, 'd) ef_fiber \<Rightarrow> ('c, 'k, 'x) world \<Rightarrow> ('c, 'k, 'x) world" where
  "layout_phase U o' w = (if f_flags o' AND 4 \<noteq> 0 then pi U 5 (f_effects o') w else w)"

definition passive_unmount :: "('c, 'k, 'x) user_code \<Rightarrow> ('c, 'd) ef_fiber \<Rightarrow> ('c, 'k, 'x) world \<Rightarrow> ('c, 'k, 'x) world" where
  "passive_unmount U o' w = (if f_flags o' AND 2048 \<noteq> 0 then Va U 9 (f_effects o') w else w)"

definition passive_mount :: "('c, 'k, 'x) user_code \<Rightarrow> ('c, 'd) ef_fiber \<Rightarrow> ('c, 'k, 'x) world \<Rightarrow> ('c, 'k, 'x) world" where
  "passive_mount U o' w = (if f_flags o' AND 2048 \<noteq> 0 then pi U 9 (f_effects o') w else w)"

definition commit_effects :: "('c, 'k, 'x) user_code \<Rightarrow> ('c, 'd) ef_fiber \<Rightarrow> ('c, 'k, 'x) world \<Rightarrow> ('c, 'k, 'x) world" where
  "commit_effects U o' w =
     passive_mount U o' (passive_unmount U o' (layout_phase U o' (mutation_phase U o' w)))"

text \<open>The component is deleted: in the mutation phase, and later in the passive phase.\<close>

definition delete_mutation :: "('c, 'k, 'x) user_code \<Rightarrow> ('c, 'd) ef_fiber \<Rightarrow> ('c, 'k, 'x) world \<Rightarrow> ('c, 'k, 'x) world" where
  "delete_mutation U f w = Va U 4 (f_effects f) (Va U 2 (f_effects f) w)"

definition delete_passive :: "('c, 'k, 'x) user_code \<Rightarrow> ('c, 'd) ef_fiber \<Rightarrow> ('c, 'k, 'x) world \<Rightarrow> ('c, 'k, 'x) world" where
  "delete_passive U f w = Va U 8 (f_effects f) w"

section \<open>The life of a component\<close>

text \<open>
  Passive effects run before the next render of the root begins. A render may be given up: all it leaves behind are
  the instances a mount has made.
\<close>

inductive life ::
  "('c, 'k, 'x) user_code \<Rightarrow> ('c, 'd) ef_fiber option \<times> ('c, 'k, 'x) world \<Rightarrow>
    ('c, 'd) ef_fiber option \<times> ('c, 'k, 'x) world \<Rightarrow> bool" for U where
  mount: "mount_calls calls (new_fiber, w_next w) = (wip, n) \<Longrightarrow>
    life U (None, w) (Some wip, commit_effects U wip (w\<lparr>w_next := n\<rparr>))"
| abandoned: "w_next w \<le> n \<Longrightarrow> life U (cur, w) (cur, w\<lparr>w_next := n\<rparr>)"
| update: "Ud calls cur = Some wip \<Longrightarrow> life U (Some cur, w) (Some wip, commit_effects U wip w)"
| same: "Ud calls cur = Some wip \<Longrightarrow> life U (Some cur, w) (Some (yc cur wip), commit_effects U (yc cur wip) w)"
| cloned: "life U (Some cur, w) (Some (du cur), commit_effects U (du cur) w)"
| deleted: "life U (Some cur, w) (None, delete_passive U cur (delete_mutation U cur w))"

definition newborn :: "('c, 'd) ef_fiber option \<times> ('c, 'k, 'x) world" where
  "newborn = (None, \<lparr>w_inst = (\<lambda>i. None), w_next = 0, w_log = []\<rparr>)"

end
