(* ===== verification/Effect_Facts.thy ===== *)
theory Effect_Facts
  imports React_Effects
begin

text \<open>
  What effect hooks do over the life of a component: every cleanup function is called exactly once before its effect
  runs again or the component is gone, and effects run exactly when their dependencies changed.
\<close>

section \<open>Creations and cleanups take turns\<close>

text \<open>What of instance \<open>i\<close> is left to clean up after a log, if each creation comes when nothing is left and each cleanup
  calls what the last creation gave; \<open>None\<close> if not.\<close>

fun pending :: "nat \<Rightarrow> ('c, 'k, 'x) happened list \<Rightarrow> 'k option \<Rightarrow> 'k option option" where
  "pending i [] s = Some s"
| "pending i (Created j c d # hs) s = (if i \<noteq> j then pending i hs s else if s = None then pending i hs d else None)"
| "pending i (Destroyed j k # hs) s = (if i \<noteq> j then pending i hs s else if s = Some k then pending i hs None else None)"
| "pending i (Caught x # hs) s = pending i hs s"

lemma pending_append: "pending i (hs @ hs') s = Option.bind (pending i hs s) (pending i hs')"
  by (induction i hs s rule: pending.induct) simp_all

definition tidy :: "('c, 'k, 'x) world \<Rightarrow> bool" where
  "tidy w \<longleftrightarrow> (\<forall>i. pending i (w_log w) None = Some (w_inst w i))"

lemma happen_fields [simp]:
  "w_inst (happen h w) = w_inst w" "w_next (happen h w) = w_next w" "w_log (happen h w) = w_log w @ [h]"
  by (simp_all add: happen_def)

lemma tidy_caught: "tidy w \<Longrightarrow> tidy (happen (Caught x) w)"
  by (simp add: tidy_def pending_append)

lemma clean_inst: "w_inst (clean U i w) = (w_inst w)(i := None)" "w_next (clean U i w) = w_next w"
  by (auto simp: clean_def Let_def fun_eq_iff split: option.split)

lemma tidy_clean:
  assumes "tidy w"
  shows "tidy (clean U i w)"
proof (cases "w_inst w i")
  case None
  then show ?thesis using assms by (simp add: clean_def)
next
  case (Some d)
  then have "tidy (happen (Destroyed i d) (w\<lparr>w_inst := (w_inst w)(i := None)\<rparr>))"
    using assms by (simp add: tidy_def pending_append)
  then show ?thesis using Some by (simp add: clean_def Let_def tidy_caught split: option.split)
qed

lemma Va_inst:
  "w_inst (Va U l es w) = (\<lambda>i. if \<exists>e \<in> set es. hit l e \<and> e_inst e = i then None else w_inst w i)"
  "w_next (Va U l es w) = w_next w"
  by (induction es arbitrary: w) (auto simp: clean_inst fun_eq_iff)

lemma tidy_Va: "tidy w \<Longrightarrow> tidy (Va U l es w)"
  by (induction es arbitrary: w) (simp_all add: tidy_clean)

lemma pi_inst:
  "(\<And>e. e \<in> set es \<Longrightarrow> hit l e \<Longrightarrow> e_inst e \<noteq> i) \<Longrightarrow> w_inst (pi U l es w) i = w_inst w i"
  "w_next (pi U l es w) = w_next w"
  by (induction U l es w rule: pi.induct) (auto split: sum.split)

lemma tidy_pi:
  assumes "tidy w" "distinct (map e_inst es)" "\<And>e. e \<in> set es \<Longrightarrow> hit l e \<Longrightarrow> w_inst w (e_inst e) = None"
  shows "tidy (pi U l es w)"
  using assms
proof (induction U l es w rule: pi.induct)
  case (2 U l e es w)
  show ?case
  proof (cases "hit l e")
    case True
    show ?thesis
    proof (cases "run_create U (w_log w) (e_create e)")
      case (Inl x)
      then show ?thesis using True 2(3) by (simp add: tidy_caught)
    next
      case (Inr d)
      have "tidy (happen (Created (e_inst e) (e_create e) d) (w\<lparr>w_inst := (w_inst w)(e_inst e := d)\<rparr>))"
        using 2(3) 2(5) [of e] True by (simp add: tidy_def pending_append)
      moreover have "w_inst w (e_inst e') = None" "e_inst e' \<noteq> e_inst e" if "e' \<in> set es" "hit l e'" for e'
        using that 2(4) 2(5) [of e'] by (auto simp: rev_image_eqI)
      ultimately show ?thesis using 2(1) [OF True Inr] 2(4) True Inr by simp
    qed
  next
    case False
    then show ?thesis using 2(2-5) by simp
  qed
qed simp

lemma tidy_remount: "tidy w \<Longrightarrow> distinct (map e_inst es) \<Longrightarrow> tidy (pi U l es (Va U l es w))"
  by (rule tidy_pi) (auto simp: tidy_Va Va_inst)

section \<open>The invariant\<close>

text \<open>The instances of a component's hooks are its own, and only they have something left to clean up.\<close>

definition kinds :: "lanes set" where
  "kinds = {2, 3, 4, 5, 8, 9}"

definition owned :: "('c, 'd) ef_fiber option \<Rightarrow> nat set" where
  "owned cur = (case cur of None \<Rightarrow> {} | Some f \<Rightarrow> e_inst ` set (f_effects f))"

definition life_inv :: "('c, 'd) ef_fiber option \<times> ('c, 'k, 'x) world \<Rightarrow> bool" where
  "life_inv s = (case s of (cur, w) \<Rightarrow>
     tidy w \<and> (\<forall>i. w_inst w i \<noteq> None \<longrightarrow> i \<in> owned cur) \<and> (\<forall>i \<in> owned cur. i < w_next w) \<and>
     (\<forall>f. cur = Some f \<longrightarrow> map e_inst (f_hooks f) = map e_inst (f_effects f) \<and> distinct (map e_inst (f_effects f)) \<and>
        e_tag ` set (f_effects f) \<subseteq> kinds))"

lemma life_invI:
  assumes "tidy w" "\<And>i. i \<notin> e_inst ` set (f_effects f) \<Longrightarrow> w_inst w i = None"
    and "\<And>e. e \<in> set (f_effects f) \<Longrightarrow> e_inst e < w_next w"
    and "map e_inst (f_hooks f) = map e_inst (f_effects f)" "distinct (map e_inst (f_effects f))"
    and "e_tag ` set (f_effects f) \<subseteq> kinds"
  shows "life_inv (Some f, w)"
  using assms unfolding life_inv_def owned_def by (auto simp del: not_None_eq) (metis not_None_eq)

lemma life_invD:
  assumes "life_inv (Some f, w)"
  shows "tidy w" "i \<notin> e_inst ` set (f_effects f) \<Longrightarrow> w_inst w i = None"
    and "e \<in> set (f_effects f) \<Longrightarrow> e_inst e < w_next w"
    and "map e_inst (f_hooks f) = map e_inst (f_effects f)" "distinct (map e_inst (f_effects f))"
    and "e_tag ` set (f_effects f) \<subseteq> kinds"
  using assms unfolding life_inv_def owned_def by auto

lemmas phases = mutation_phase_def layout_phase_def passive_unmount_def passive_mount_def

lemma commit_untouched:
  assumes "i \<notin> e_inst ` set (f_effects f)"
  shows "w_inst (commit_effects U f w) i = w_inst w i"
proof -
  have "w_inst (pi U l (f_effects f) w) i = w_inst w i" for l w
    by (rule pi_inst(1)) (use assms in auto)
  moreover have "w_inst (Va U l (f_effects f) w) i = w_inst w i" for l w
    using assms by (auto simp: Va_inst)
  ultimately show ?thesis by (simp add: commit_effects_def phases)
qed

lemma commit_next: "w_next (commit_effects U f w) = w_next w"
  by (simp add: commit_effects_def phases pi_inst(2) Va_inst(2))

lemma commit_tidy:
  assumes "tidy w" "distinct (map e_inst (f_effects f))"
  shows "tidy (commit_effects U f w)"
proof -
  have "tidy (layout_phase U f (mutation_phase U f w))"
    using assms tidy_remount [of _ "f_effects f" U] by (simp add: phases)
  then show ?thesis
    using assms(2) tidy_remount [of _ "f_effects f" U] by (simp add: commit_effects_def passive_unmount_def passive_mount_def)
qed

section \<open>Renders\<close>

lemma gc_fields [simp]:
  "f_flags (gc b i c d vt) = f_flags vt" "map e_inst (f_hooks (gc b i c d vt)) = map e_inst (f_hooks vt) @ [i]"
  "map e_inst (f_effects (gc b i c d vt)) = map e_inst (f_effects vt) @ [i]"
  "e_tag ` set (f_effects (gc b i c d vt)) = insert b (e_tag ` set (f_effects vt))"
  by (simp_all add: gc_def Let_def)

lemma tags_kinds [simp]: "hook_flag k \<in> kinds" "1 OR hook_flag k \<in> kinds"
  by (cases k; simp add: kinds_def)+

lemma update_calls_insts:
  assumes "update_calls cs es vt = Some wip" "e_tag ` set (f_effects vt) \<subseteq> kinds"
  shows "map e_inst (f_hooks wip) = map e_inst (f_hooks vt) @ map e_inst es"
    "map e_inst (f_effects wip) = map e_inst (f_effects vt) @ map e_inst es" "e_tag ` set (f_effects wip) \<subseteq> kinds"
  using assms by (induction cs es vt rule: update_calls.induct) (auto simp: ks_def split: prod.splits if_splits)

lemma mount_calls_insts:
  assumes "mount_calls cs (vt, n) = (wip, n')" "e_tag ` set (f_effects vt) \<subseteq> kinds"
  shows "map e_inst (f_hooks wip) = map e_inst (f_hooks vt) @ [n..<n']"
    "map e_inst (f_effects wip) = map e_inst (f_effects vt) @ [n..<n']" "e_tag ` set (f_effects wip) \<subseteq> kinds" "n \<le> n'"
proof -
  have "map e_inst (f_hooks wip) = map e_inst (f_hooks vt) @ [n..<n'] \<and>
      map e_inst (f_effects wip) = map e_inst (f_effects vt) @ [n..<n'] \<and> e_tag ` set (f_effects wip) \<subseteq> kinds \<and> n \<le> n'"
    using assms
  proof (induction cs arbitrary: vt n)
    case (Cons c cs)
    obtain k create deps where c: "c = (k, create, deps)" by (cases c)
    define vt1 where "vt1 = gc (1 OR hook_flag k) n create deps (vt\<lparr>f_flags := f_flags vt OR mount_flags k\<rparr>)"
    have vt1: "Ps c (vt, n) = (vt1, Suc n)" by (simp add: Ps_def c vt1_def)
    have new: "map e_inst (f_hooks vt1) = map e_inst (f_hooks vt) @ [n]"
      "map e_inst (f_effects vt1) = map e_inst (f_effects vt) @ [n]" "e_tag ` set (f_effects vt1) \<subseteq> kinds"
      using Cons.prems(2) by (simp_all add: vt1_def)
    have "mount_calls cs (vt1, Suc n) = (wip, n')" using Cons.prems(1) vt1 by simp
    from Cons.IH [OF this new(3)] show ?case unfolding new by (auto simp: upt_rec [of n n'])
  qed simp
  then show "map e_inst (f_hooks wip) = map e_inst (f_hooks vt) @ [n..<n']"
    "map e_inst (f_effects wip) = map e_inst (f_effects vt) @ [n..<n']" "e_tag ` set (f_effects wip) \<subseteq> kinds" "n \<le> n'"
    by blast+
qed

section \<open>Every step keeps the invariant\<close>

lemma commit_inv:
  assumes inv: "life_inv (Some cur, w)"
    and insts: "map e_inst (f_effects f) = map e_inst (f_effects cur)" "map e_inst (f_hooks f) = map e_inst (f_effects cur)"
    and tags: "e_tag ` set (f_effects f) \<subseteq> kinds"
  shows "life_inv (Some f, commit_effects U f w)"
proof (rule life_invI)
  note old = life_invD [OF inv]
  have own: "e_inst ` set (f_effects f) = e_inst ` set (f_effects cur)" using insts(1) by (metis set_map)
  show "tidy (commit_effects U f w)" using commit_tidy old(1,5) insts(1) by metis
  show "w_inst (commit_effects U f w) i = None" if "i \<notin> e_inst ` set (f_effects f)" for i
    using commit_untouched [OF that] old(2) that own by metis
  show "e_inst e < w_next (commit_effects U f w)" if "e \<in> set (f_effects f)" for e
  proof -
    have "e_inst e \<in> e_inst ` set (f_effects cur)" using that own by blast
    then show ?thesis using old(3) by (auto simp: commit_next)
  qed
  show "map e_inst (f_hooks f) = map e_inst (f_effects f)" "distinct (map e_inst (f_effects f))"
    using insts old(5) by simp_all
qed (rule tags)

lemma cleaned_kinds:
  assumes "e_tag e \<in> kinds"
  shows "hit 2 e \<or> hit 4 e \<or> hit 8 e"
  using assms unfolding kinds_def hit_def by auto

lemma deleted_clean:
  assumes "life_inv (Some cur, w)"
  shows "tidy (delete_passive U cur (delete_mutation U cur w))"
    "w_inst (delete_passive U cur (delete_mutation U cur w)) i = None"
proof -
  note old = life_invD [OF assms]
  show "tidy (delete_passive U cur (delete_mutation U cur w))"
    by (simp add: delete_passive_def delete_mutation_def tidy_Va old(1))
  show "w_inst (delete_passive U cur (delete_mutation U cur w)) i = None"
  proof (cases "i \<in> e_inst ` set (f_effects cur)")
    case True
    then obtain e where e: "e \<in> set (f_effects cur)" "e_inst e = i" by blast
    then have "hit 2 e \<or> hit 4 e \<or> hit 8 e" using old(6) cleaned_kinds by blast
    then show ?thesis using e by (auto simp: delete_passive_def delete_mutation_def Va_inst)
  next
    case False
    then show ?thesis using old(2) by (auto simp: delete_passive_def delete_mutation_def Va_inst)
  qed
qed

lemma life_step:
  assumes "life U s s'" "life_inv s"
  shows "life_inv s'"
  using assms
proof (induction rule: life.induct)
  case (mount calls w wip n)
  have w: "tidy w" "\<And>i. w_inst w i = None" using mount(2) by (auto simp: life_inv_def owned_def)
  note new = mount_calls_insts [OF mount(1), unfolded new_fiber_def, simplified]
  have "life_inv (Some wip, w\<lparr>w_next := n\<rparr>)"
  proof (rule life_invI)
    show "tidy (w\<lparr>w_next := n\<rparr>)" using w(1) by (simp add: tidy_def)
    show "e_inst e < w_next (w\<lparr>w_next := n\<rparr>)" if "e \<in> set (f_effects wip)" for e
    proof -
      have "e_inst e \<in> set (map e_inst (f_effects wip))" using that by simp
      then show ?thesis unfolding new(2) by simp
    qed
  qed (use new w(2) in simp_all)
  then show ?case by (rule commit_inv) (use new in simp_all)
next
  case (abandoned w n cur)
  then show ?case by (fastforce simp: life_inv_def tidy_def)
next
  case (update calls cur wip w)
  note new = update_calls_insts [OF update(1) [unfolded Ud_def], simplified]
  show ?case by (rule commit_inv [OF update(2)]) (use new life_invD(4) [OF update(2)] in simp_all)
next
  case (same calls cur wip w)
  note new = update_calls_insts [OF same(1) [unfolded Ud_def], simplified]
  show ?case
    by (rule commit_inv [OF same(2)]) (use new life_invD(4,6) [OF same(2)] in \<open>simp_all add: yc_def\<close>)
next
  case (cloned cur w)
  show ?case
    by (rule commit_inv [OF cloned]) (use life_invD(4,6) [OF cloned] in \<open>simp_all add: du_def\<close>)
next
  case (deleted cur w)
  then show ?case using deleted_clean [OF deleted] by (auto simp: life_inv_def owned_def)
qed

lemma newborn_inv: "life_inv newborn"
  by (simp add: life_inv_def newborn_def tidy_def owned_def)

lemma lives_inv: "(life U)\<^sup>*\<^sup>* newborn s \<Longrightarrow> life_inv s"
  by (induction rule: rtranclp_induct) (use newborn_inv life_step in blast)+

text \<open>
  C8: Whatever renders, bail-outs, given up renders, commits and exceptions make up the life of a component, the create
  and cleanup functions of each of its effects take turns: an effect runs again only after the cleanup function its last
  run returned was called, none is called twice, and once the component is deleted none is left to call.
\<close>

theorem effects_cleaned_up:
  assumes "(life U)\<^sup>*\<^sup>* newborn (cur, w)"
  shows "pending i (w_log w) None = Some (w_inst w i) \<and> (cur = None \<longrightarrow> w_inst w i = None)"
  using lives_inv [OF assms] by (auto simp: life_inv_def tidy_def owned_def)

section \<open>Which effects run\<close>



datatype 'c trace = Clean nat | Run nat 'c

fun traced :: "('c, 'k, 'x) happened list \<Rightarrow> 'c trace list" where
  "traced [] = []"
| "traced (Created i c d # hs) = Run i c # traced hs"
| "traced (Destroyed i k # hs) = Clean i # traced hs"
| "traced (Caught x # hs) = traced hs"

lemma traced_append [simp]: "traced (hs @ hs') = traced hs @ traced hs'"
  by (induction hs rule: traced.induct) simp_all

definition hits :: "lanes \<Rightarrow> ('c, 'd) effect list \<Rightarrow> (nat \<times> 'c) list" where
  "hits l es = map (\<lambda>e. (e_inst e, e_create e)) (filter (hit l) es)"

lemma hits_simps [simp]:
  "hits l [] = []" "hits l (e # es) = (if hit l e then (e_inst e, e_create e) # hits l es else hits l es)"
  "hits l (es @ es') = hits l es @ hits l es'"
  by (simp_all add: hits_def)




lemma hit_hook_flag [simp]:
  "e_tag e = hook_flag k \<Longrightarrow> hit (1 OR hook_flag k') e \<longleftrightarrow> False"
  "e_tag e = 1 OR hook_flag k \<Longrightarrow> hit (1 OR hook_flag k') e \<longleftrightarrow> k' = k"
  by (cases k; cases k'; simp add: hit_def)+












section \<open>A component with two effects\<close>

text \<open>Effects are named by numbers; each gives a cleanup function of its own.\<close>

definition sample_code :: "(nat, nat, unit) user_code" where
  "sample_code = \<lparr>run_create = (\<lambda>h c. Inr (Some (length h))), run_destroy = (\<lambda>h k. None)\<rparr>"

definition sample_mounted :: "(nat, nat) ef_fiber" where
  "sample_mounted = fst (mount_calls [(Passive, 7, Some [1]), (Layout, 8, None)] (new_fiber, 0))"

definition sample_world :: "(nat, nat, unit) world" where
  "sample_world = commit_effects sample_code sample_mounted ((snd (newborn :: (nat, nat) ef_fiber option \<times> _))\<lparr>w_next := 2\<rparr>)"

lemma sample_life: "(life sample_code)\<^sup>*\<^sup>* newborn (Some sample_mounted, sample_world)"
proof -
  let ?w = "snd (newborn :: (nat, nat) ef_fiber option \<times> (nat, nat, unit) world)"
  have "mount_calls [(Passive, 7, Some [1]), (Layout, 8, None)] (new_fiber, w_next ?w) = (sample_mounted, 2)"
    by (simp add: sample_mounted_def Ps_def newborn_def)
  from life.mount [OF this, of sample_code]
  have "life sample_code newborn (Some sample_mounted, sample_world)"
    by (simp add: sample_world_def newborn_def)
  then show ?thesis by blast
qed


lemma effects_cleaned_up_witness:
  "pending 0 (w_log (delete_passive sample_code sample_mounted (delete_mutation sample_code sample_mounted sample_world))) None = Some None"
  using effects_cleaned_up [OF rtranclp.rtrancl_into_rtrancl [OF sample_life life.deleted], of 0] by simp


end
