(* ===== verification/React_Dispatch.thy ===== *)
theory React_Dispatch
  imports Prelude
begin

text \<open>
  The dispatch of DOM events by the bundled \<open>react-dom\<close>: collecting the listeners on the way from the target to the
  root, for ordinary events, for events with both phases, and for entering and leaving elements, and calling them. A fiber
  with its ancestors is a list, the fiber first; its \<open>return\<close> is the tail. The extraction of change, select and
  composition events from native ones is not modelled.
\<close>

section \<open>Fibers and listeners\<close>

text \<open>A value of a prop that should be a listener.\<close>

datatype 'f prop_value = Nullish | Falsy | Func 'f | Truthy

text \<open>
  \<open>d_id\<close> is the fiber object and \<open>d_alternate\<close> its other version. \<open>d_props\<close> are the current props of its DOM node, if there
  are any.
\<close>

record 'f dnode =
  d_id :: nat
  d_alternate :: "nat option"
  d_tag :: nat
  d_type :: string
  d_stateNode :: "nat option"
  d_props :: "(string \<Rightarrow> 'f prop_value) option"
  d_disabled :: bool

type_synonym 'f path = "'f dnode list"

definition mouse_events :: "string list" where
  "mouse_events = [''onClick'', ''onClickCapture'', ''onDoubleClick'', ''onDoubleClickCapture'', ''onMouseDown'',
     ''onMouseDownCapture'', ''onMouseMove'', ''onMouseMoveCapture'', ''onMouseUp'', ''onMouseUpCapture'', ''onMouseEnter'']"

text \<open>\<open>getListener\<close>; a value that is neither a function nor falsy throws error 231\<close>

definition dr :: "'f dnode \<Rightarrow> string \<Rightarrow> unit + 'f prop_value" where
  "dr l name =
     (case (d_stateNode l, d_props l) of
        (Some _, Some props) \<Rightarrow>
          if name \<in> set mouse_events \<and> d_disabled l \<and> d_type l \<in> {''button'', ''input'', ''select'', ''textarea''}
          then Inr Nullish
          else if props name = Truthy then Inl () else Inr (props name)
      | _ \<Rightarrow> Inr Nullish)"

record 'f entry =
  instance_id :: nat
  listener :: "'f prop_value"
  currentTarget :: nat

text \<open>The host fibers that may have listeners: \<open>tag\<close> is 5, 26 or 27 and there is a DOM node.\<close>

definition host_node :: "'f dnode \<Rightarrow> nat option" where
  "host_node l = (if d_tag l \<in> {5, 26, 27} then d_stateNode l else None)"

text \<open>The listener of one fiber, or none.\<close>

definition listener_at :: "string \<Rightarrow> 'f dnode \<Rightarrow> unit + 'f entry option" where
  "listener_at name l =
     (case host_node l of
        None \<Rightarrow> Inr None
      | Some node \<Rightarrow> (case dr l name of
          Inl x \<Rightarrow> Inl x
        | Inr Nullish \<Rightarrow> Inr None
        | Inr f \<Rightarrow> Inr (Some \<lparr>instance_id = d_id l, listener = f, currentTarget = node\<rparr>)))"

section \<open>Collecting\<close>

text \<open>
  \<open>accumulateSinglePhaseListeners\<close>: from the target on; only the target's own for events that do not bubble (\<open>scroll\<close>,
  \<open>scrollend\<close> in the bubble phase).
\<close>

fun accumulate :: "string \<Rightarrow> bool \<Rightarrow> 'f path \<Rightarrow> unit + 'f entry list" where
  "accumulate name only_target [] = Inr []"
| "accumulate name only_target (le # rest) =
     (case listener_at name le of
        Inl x \<Rightarrow> Inl x
      | Inr here \<Rightarrow>
          if only_target then Inr (case here of None \<Rightarrow> [] | Some e \<Rightarrow> [e])
          else (case accumulate name only_target rest of
            Inl x \<Rightarrow> Inl x
          | Inr es \<Rightarrow> Inr (case here of None \<Rightarrow> es | Some e \<Rightarrow> e # es)))"

definition single_phase :: "string \<Rightarrow> bool \<Rightarrow> string \<Rightarrow> 'f path \<Rightarrow> unit + 'f entry list" where
  "single_phase dom_name in_capture name path =
     accumulate (if in_capture then name @ ''Capture'' else name)
       (\<not> in_capture \<and> dom_name \<in> {''scroll'', ''scrollend''}) path"

text \<open>\<open>accumulateTwoPhaseListeners\<close>: captures in front, bubbles behind; nothing if the root is not reached\<close>

fun fh_loop :: "string \<Rightarrow> 'f path \<Rightarrow> 'f entry list \<Rightarrow> unit + 'f entry list" where
  "fh_loop name [] p = Inr []"
| "fh_loop name (l # rest) p =
     (case listener_at (name @ ''Capture'') l of
        Inl x \<Rightarrow> Inl x
      | Inr f \<Rightarrow> (case listener_at name l of
          Inl x \<Rightarrow> Inl x
        | Inr g \<Rightarrow>
            (let p1 = (case f of None \<Rightarrow> p | Some e \<Rightarrow> e # p);
                 p2 = (case g of None \<Rightarrow> p1 | Some e \<Rightarrow> p1 @ [e])
             in if d_tag l = 3 then Inr p2 else fh_loop name rest p2)))"

definition fh :: "string \<Rightarrow> 'f path \<Rightarrow> unit + 'f entry list" where
  "fh name path = fh_loop name path []"

section \<open>Entering and leaving\<close>

text \<open>\<open>getParent\<close>: the nearest ancestor with tag 5 or 27\<close>

fun VS :: "'f path \<Rightarrow> 'f path" where
  "VS [] = []"
| "VS (l # rest) = dropWhile (\<lambda>l. d_tag l \<noteq> 5 \<and> d_tag l \<noteq> 27) rest"

lemma VS_shorter: "p \<noteq> [] \<Longrightarrow> length (VS p) < length p"
  by (cases p) (simp_all add: le_imp_less_Suc length_dropWhile_le)

function depth :: "'f path \<Rightarrow> nat" where
  "depth p = (if p = [] then 0 else Suc (depth (VS p)))"
  by pat_completeness auto
termination by (relation "measure length") (auto simp: VS_shorter)

declare depth.simps [simp del]

text \<open>\<open>he === le || le !== null && he === le.alternate\<close>\<close>

definition same_fiber :: "'f path \<Rightarrow> 'f path \<Rightarrow> bool" where
  "same_fiber he le =
     (case (he, le) of
        ([], []) \<Rightarrow> True
      | (h # _, l # _) \<Rightarrow> d_id h = d_id l \<or> d_alternate l = Some (d_id h)
      | ([], l # _) \<Rightarrow> d_alternate l = None
      | (h # _, []) \<Rightarrow> False)"

fun climb :: "nat \<Rightarrow> 'f path \<Rightarrow> 'f path" where
  "climb 0 p = p"
| "climb (Suc n) p = climb n (VS p)"

fun meet :: "nat \<Rightarrow> 'f path \<Rightarrow> 'f path \<Rightarrow> 'f path" where
  "meet 0 he le = []"
| "meet (Suc n) he le = (if same_fiber he le then he else meet n (VS he) (VS le))"

text \<open>\<open>getLowestCommonAncestor\<close>\<close>

definition common_ancestor :: "'f path \<Rightarrow> 'f path \<Rightarrow> 'f path" where
  "common_ancestor he le =
     (let ve = depth he; De = depth le; he1 = climb (ve - De) he; le1 = climb (De - ve) le
      in meet (min ve De) he1 le1)"

text \<open>
  \<open>accumulateEnterLeaveListenersForEvent\<close>: up to the common ancestor \<open>p\<close>, or its other version, without it; in front for
  the capture order
\<close>

fun qy_loop :: "string \<Rightarrow> bool \<Rightarrow> 'f path \<Rightarrow> 'f path \<Rightarrow> 'f entry list \<Rightarrow> unit + 'f entry list" where
  "qy_loop name x [] p j = Inr j"
| "qy_loop name x (f # rest) p j =
     (if p \<noteq> [] \<and> (d_id f = d_id (hd p) \<or> d_alternate f = Some (d_id (hd p))) then Inr j
      else (case listener_at name f of
        Inl e \<Rightarrow> Inl e
      | Inr None \<Rightarrow> qy_loop name x rest p j
      | Inr (Some e) \<Rightarrow> qy_loop name x rest p (if x then e # j else j @ [e])))"

definition qy :: "string \<Rightarrow> bool \<Rightarrow> 'f path \<Rightarrow> 'f path \<Rightarrow> unit + 'f entry list" where
  "qy name x f p = qy_loop name x f p []"

text \<open>What a move of the pointer from one fiber to another dispatches: leave, then enter.\<close>

definition enter_leave :: "string \<Rightarrow> string \<Rightarrow> 'f path \<Rightarrow> 'f path \<Rightarrow> (unit + 'f entry list) \<times> (unit + 'f entry list)" where
  "enter_leave leave enter left_path entered_path =
     (let at = (if left_path \<noteq> [] \<and> entered_path \<noteq> [] then common_ancestor left_path entered_path else [])
      in (if left_path \<noteq> [] then qy leave False left_path at else Inr [],
          if entered_path \<noteq> [] then qy enter True entered_path at else Inr []))"

section \<open>Calling\<close>

text \<open>What happened: a listener was called, or an exception was reported.\<close>

datatype 'f called = Call "'f entry" | Report

text \<open>\<open>call\<close>: whether a call of a function stops the propagation and whether it throws. A falsy listener throws.\<close>

type_synonym 'f behaviour = "'f called list \<Rightarrow> 'f \<Rightarrow> bool \<times> bool"

definition invoke :: "'f behaviour \<Rightarrow> 'f called list \<Rightarrow> 'f entry \<Rightarrow> bool \<times> bool" where
  "invoke call log e = (case listener e of Func f \<Rightarrow> call log f | _ \<Rightarrow> (False, True))"

text \<open>\<open>prev\<close> is the instance of the last listener, \<open>stopped\<close> the event's \<open>isPropagationStopped\<close>.\<close>

fun run_listeners :: "'f behaviour \<Rightarrow> 'f entry list \<Rightarrow> nat option \<Rightarrow> bool \<Rightarrow> 'f called list \<Rightarrow> 'f called list" where
  "run_listeners call [] prev stopped log = log"
| "run_listeners call (e # es) prev stopped log =
     (if prev \<noteq> Some (instance_id e) \<and> stopped then log
      else (case invoke call log e of (stops, throws) \<Rightarrow>
        run_listeners call es (Some (instance_id e)) (stopped \<or> stops)
          (log @ Call e # (if throws then [Report] else []))))"

text \<open>\<open>processDispatchQueue\<close>; each event of the queue has its own flag\<close>

definition GS :: "'f behaviour \<Rightarrow> 'f entry list list \<Rightarrow> bool \<Rightarrow> 'f called list \<Rightarrow> 'f called list" where
  "GS call queue in_capture log =
     fold (\<lambda>listeners log. run_listeners call (if in_capture then rev listeners else listeners) None False log) queue log"

end
