(* ===== verification/Dispatch_Facts.thy ===== *)
theory Dispatch_Facts
  imports React_Dispatch
begin

text \<open>
  Which listeners a DOM event reaches and in which order: up to the first that stops the propagation for ordinary events,
  and exactly the elements left and entered for moves of the pointer.
\<close>

section \<open>Propagation\<close>

text \<open>The listeners of a list of fibers, in their order.\<close>

definition listeners_of :: "string \<Rightarrow> 'f path \<Rightarrow> 'f entry list" where
  "listeners_of name path =
     List.map_filter (\<lambda>l. case listener_at name l of Inr e \<Rightarrow> e | Inl _ \<Rightarrow> None) path"

lemma listeners_of_simps [simp]:
  "listeners_of name [] = []"
  "listeners_of name (l # path) =
     (case listener_at name l of Inr (Some e) \<Rightarrow> e # listeners_of name path | _ \<Rightarrow> listeners_of name path)"
  by (simp_all add: listeners_of_def List.map_filter_simps split: sum.split option.split)

lemma listener_instance: "listener_at name l = Inr (Some e) \<Longrightarrow> instance_id e = d_id l"
  by (auto simp: listener_at_def split: option.splits sum.splits prop_value.splits)

lemma instances_of_path: "set (map instance_id (listeners_of name path)) \<subseteq> set (map d_id path)"
  by (induction path) (auto split: sum.splits option.splits dest: listener_instance)

lemma distinct_instances: "distinct (map d_id path) \<Longrightarrow> distinct (map instance_id (listeners_of name path))"
proof (induction path)
  case (Cons l path)
  have "instance_id e \<notin> set (map instance_id (listeners_of name path))" if "listener_at name l = Inr (Some e)" for e
    using listener_instance [OF that] Cons.prems instances_of_path [of name path] by auto
  then show ?case using Cons by (auto split: sum.split option.split)
qed simp

lemma accumulate_result:
  "accumulate name only_target path = Inr es \<Longrightarrow> es = listeners_of name (if only_target then take 1 path else path)"
  by (induction name only_target path arbitrary: es rule: accumulate.induct) (auto split: sum.splits option.splits if_splits)

text \<open>Calling listeners one after the other until one stops the propagation.\<close>

fun deliver_until :: "'f behaviour \<Rightarrow> 'f entry list \<Rightarrow> 'f called list \<Rightarrow> 'f called list" where
  "deliver_until call [] log = log"
| "deliver_until call (e # es) log =
     (case invoke call log e of (stops, throws) \<Rightarrow>
        (let log1 = log @ Call e # (if throws then [Report] else [])
         in if stops then log1 else deliver_until call es log1))"

lemma run_stopped: "prev \<notin> Some ` set (map instance_id es) \<Longrightarrow> run_listeners call es prev True log = log"
  by (cases es) auto

lemma run_until:
  "distinct (map instance_id es) \<Longrightarrow> run_listeners call es prev False log = deliver_until call es log"
proof (induction es arbitrary: prev log)
  case (Cons e es)
  obtain stops throws where c: "invoke call log e = (stops, throws)" by fastforce
  have "Some (instance_id e) \<notin> Some ` set (map instance_id es)" using Cons.prems by auto
  then show ?case using Cons c by (simp add: run_stopped Let_def)
qed simp

text \<open>
  C23: An ordinary event calls the listeners between its target and the root one by one, from the outside in the capture
  phase and from the inside in the bubble phase, until one of them stops the propagation; one that throws does not
  keep the others from being called. Scroll events reach the target's own listener only in the bubble phase.
\<close>

theorem event_propagation:
  assumes "distinct (map d_id path)" "single_phase dom_name in_capture name path = Inr es"
  shows "GS call [es] in_capture log = deliver_until call
    (if in_capture then rev (listeners_of (name @ ''Capture'') path)
     else listeners_of name (if dom_name \<in> {''scroll'', ''scrollend''} then take 1 path else path)) log"
proof -
  have es: "es = (if in_capture then listeners_of (name @ ''Capture'') path
      else listeners_of name (if dom_name \<in> {''scroll'', ''scrollend''} then take 1 path else path))"
    using accumulate_result [OF assms(2) [unfolded single_phase_def]] by (auto split: if_splits)
  have "distinct (map instance_id es)"
    unfolding es using distinct_instances assms(1) by (auto simp: take_map [symmetric])
  then show ?thesis by (simp add: GS_def run_until rev_map [symmetric]) (simp add: es)
qed

section \<open>Both phases\<close>

lemma fh_loop_result:
  assumes "\<forall>l \<in> set path. d_tag l \<noteq> 3" "d_tag root = 3" "fh_loop name (path @ [root]) p = Inr es"
  shows "es = rev (listeners_of (name @ ''Capture'') path) @ p @ listeners_of name path"
  using assms
proof (induction path arbitrary: p)
  case Nil
  then show ?case by (simp add: listener_at_def host_node_def)
next
  case (Cons l path)
  have rest: "es = rev (listeners_of (name @ ''Capture'') path) @ q @ listeners_of name path"
    if "fh_loop name (path @ [root]) q = Inr es" for q
    using Cons.IH [OF _ assms(2) that] Cons.prems(1) by simp
  show ?case using Cons.prems by (auto simp: Let_def dest!: rest split: sum.splits option.splits)
qed

lemma two_phase_result:
  assumes "\<forall>l \<in> set path. d_tag l \<noteq> 3" "d_tag root = 3" "fh name (path @ [root]) = Inr es"
  shows "es = rev (listeners_of (name @ ''Capture'') path) @ listeners_of name path"
  using fh_loop_result [OF assms(1,2) assms(3) [unfolded fh_def]] by simp

section \<open>Entering and leaving\<close>

abbreviation element :: "'f dnode \<Rightarrow> bool" where
  "element l \<equiv> d_tag l = 5 \<or> d_tag l = 27"

text \<open>Steps of \<open>getParent\<close> it takes to get out of a list of fibers.\<close>

definition hops :: "'f path \<Rightarrow> nat" where
  "hops xs = (if xs = [] then 0 else Suc (length (filter element (tl xs))))"

lemma VS_append:
  assumes "xs \<noteq> []" "anc \<noteq> []" "element (hd anc)"
  obtains ys where "VS (xs @ anc) = ys @ anc" "hops xs = Suc (hops ys)" "set ys \<subseteq> set xs"
proof -
  obtain x xs' where xs: "xs = x # xs'" using assms(1) by (cases xs) auto
  let ?no = "\<lambda>l :: 'a dnode. d_tag l \<noteq> 5 \<and> d_tag l \<noteq> 27"
  have "dropWhile ?no (xs' @ anc) = dropWhile ?no xs' @ anc"
    using assms(2,3) by (cases anc) (auto simp: dropWhile_append3)
  moreover have "length (filter element xs') = hops (dropWhile ?no xs')"
    by (induction xs') (simp_all add: hops_def)
  moreover have "set (dropWhile ?no xs') \<subseteq> set xs" using set_dropWhileD xs by fastforce
  ultimately show ?thesis by (intro that [of "dropWhile ?no xs'"]) (simp_all add: xs hops_def [of "x # xs'"])
qed

lemma depth_append:
  assumes "anc \<noteq> []" "element (hd anc)"
  shows "depth (xs @ anc) = hops xs + depth anc"
proof (induction "hops xs" arbitrary: xs)
  case 0
  then show ?case by (simp add: hops_def split: if_splits)
next
  case (Suc n)
  then have "xs \<noteq> []" by (auto simp: hops_def)
  then obtain ys where ys: "VS (xs @ anc) = ys @ anc" "hops xs = Suc (hops ys)"
    by (rule VS_append [OF _ assms])
  have "depth (ys @ anc) = hops ys + depth anc" using Suc(1) [of ys] Suc(2) ys(2) by simp
  then show ?case using ys \<open>xs \<noteq> []\<close> by (simp add: depth.simps [of "xs @ anc"])
qed

lemma climb_append:
  assumes "anc \<noteq> []" "element (hd anc)" "n \<le> hops xs"
  obtains ys where "climb n (xs @ anc) = ys @ anc" "hops ys = hops xs - n" "set ys \<subseteq> set xs"
  using assms(3)
proof (induction n arbitrary: xs thesis)
  case 0
  then show ?case by simp
next
  case (Suc n)
  then have "xs \<noteq> []" by (auto simp: hops_def)
  then obtain zs where zs: "VS (xs @ anc) = zs @ anc" "hops xs = Suc (hops zs)" "set zs \<subseteq> set xs"
    by (rule VS_append [OF _ assms(1,2)])
  from Suc.IH [of zs] Suc.prems(2) zs(2) obtain ys where
    "climb n (zs @ anc) = ys @ anc" "hops ys = hops zs - n" "set ys \<subseteq> set zs" by auto
  then show ?case using zs by (intro Suc.prems(1) [of ys]) auto
qed

text \<open>Two fibers that are not versions of each other.\<close>

definition unlike :: "'f dnode \<Rightarrow> 'f dnode \<Rightarrow> bool" where
  "unlike x y \<longleftrightarrow> d_id x \<noteq> d_id y \<and> d_alternate y \<noteq> Some (d_id x)"

lemma meet_append:
  assumes "anc \<noteq> []" "element (hd anc)" "\<forall>x \<in> set xs. \<forall>y \<in> set ys. unlike x y" "hops xs = hops ys" "hops xs < n"
  shows "meet n (xs @ anc) (ys @ anc) = anc"
  using assms(3-)
proof (induction n arbitrary: xs ys)
  case (Suc n)
  show ?case
  proof (cases "xs = []")
    case True
    then have "ys = []" using Suc.prems(2) by (simp add: hops_def split: if_splits)
    then show ?thesis using True assms(1) by (cases anc) (simp_all add: same_fiber_def)
  next
    case False
    then have "ys \<noteq> []" using Suc.prems(2) by (auto simp: hops_def)
    obtain xs' where xs': "VS (xs @ anc) = xs' @ anc" "hops xs = Suc (hops xs')" "set xs' \<subseteq> set xs"
      by (rule VS_append [OF False assms(1,2)])
    obtain ys' where ys': "VS (ys @ anc) = ys' @ anc" "hops ys = Suc (hops ys')" "set ys' \<subseteq> set ys"
      by (rule VS_append [OF \<open>ys \<noteq> []\<close> assms(1,2)])
    have "\<not> same_fiber (xs @ anc) (ys @ anc)"
      using False \<open>ys \<noteq> []\<close> Suc.prems(1) by (cases xs; cases ys) (auto simp: same_fiber_def unlike_def)
    moreover have "\<forall>x \<in> set xs'. \<forall>y \<in> set ys'. unlike x y" using Suc.prems(1) xs'(3) ys'(3) by blast
    ultimately show ?thesis using Suc.IH [of xs' ys'] Suc.prems(2,3) xs' ys' by simp
  qed
qed simp

lemma common_ancestor_append:
  assumes "anc \<noteq> []" "element (hd anc)" "\<forall>x \<in> set xs. \<forall>y \<in> set ys. unlike x y"
  shows "common_ancestor (xs @ anc) (ys @ anc) = anc"
proof -
  let ?d = "depth anc"
  have pos: "0 < ?d" using assms(1) by (subst depth.simps) simp
  obtain xs' where xs': "climb (hops xs - hops ys) (xs @ anc) = xs' @ anc" "hops xs' = hops xs - (hops xs - hops ys)"
    "set xs' \<subseteq> set xs" by (rule climb_append [OF assms(1,2), of "hops xs - hops ys" xs]) simp
  obtain ys' where ys': "climb (hops ys - hops xs) (ys @ anc) = ys' @ anc" "hops ys' = hops ys - (hops ys - hops xs)"
    "set ys' \<subseteq> set ys" by (rule climb_append [OF assms(1,2), of "hops ys - hops xs" ys]) simp
  have "meet (min (hops xs + ?d) (hops ys + ?d)) (xs' @ anc) (ys' @ anc) = anc"
    by (rule meet_append [OF assms(1,2)]) (use assms(3) xs'(2,3) ys'(2,3) pos in auto)
  then show ?thesis
    using xs'(1) ys'(1) by (simp add: common_ancestor_def Let_def depth_append [OF assms(1,2)])
qed

lemma qy_loop_append:
  assumes "anc \<noteq> []" "\<forall>x \<in> set xs. unlike (hd anc) x"
  shows "qy_loop name x (xs @ anc) anc j =
    map_sum id (\<lambda>es. if x then rev es @ j else j @ es) (accumulate name False xs)"
  using assms(2)
proof (induction xs arbitrary: j)
  case Nil
  then show ?case using assms(1) by (cases anc) simp_all
next
  case (Cons l xs)
  then show ?case using assms(1)
    by (auto simp: unlike_def sum.map_comp split: sum.split option.split)
qed

text \<open>
  C24: When the pointer moves between two elements, exactly the elements it leaves get leave events, from the inside out,
  and exactly the elements it enters get enter events, from the outside in; the elements around both get none, however
  deep the two are.
\<close>

theorem enter_leave_exact:
  assumes "anc \<noteq> []" "element (hd anc)" "\<forall>x \<in> set left_below. \<forall>y \<in> set entered_below. unlike x y"
    and "\<forall>x \<in> set left_below \<union> set entered_below. unlike (hd anc) x"
  shows "enter_leave leave enter (left_below @ anc) (entered_below @ anc) =
    (accumulate leave False left_below, map_sum id rev (accumulate enter False entered_below))"
proof -
  have "(\<lambda>es :: 'a entry list. es) = id" by (simp add: id_def)
  then show ?thesis
    using assms by (simp add: enter_leave_def common_ancestor_append qy_def qy_loop_append Let_def sum.map_id)
qed

section \<open>A small page\<close>

text \<open>Elements below a root, each with all listeners; the listener of an element is its number, and 2 stops the
  propagation and throws.\<close>

definition sample_element :: "nat \<Rightarrow> nat dnode" where
  "sample_element n = \<lparr>d_id = n, d_alternate = None, d_tag = 5, d_type = ''div'', d_stateNode = Some n,
     d_props = Some (\<lambda>name. Func n), d_disabled = False\<rparr>"

definition sample_root :: "nat dnode" where
  "sample_root = \<lparr>d_id = 0, d_alternate = None, d_tag = 3, d_type = '''', d_stateNode = None, d_props = None, d_disabled = False\<rparr>"

abbreviation sample_entry :: "nat \<Rightarrow> nat entry" where
  "sample_entry n \<equiv> \<lparr>instance_id = n, listener = Func n, currentTarget = n\<rparr>"

lemma sample_listeners:
  "listener_at name (sample_element n) = Inr (Some (sample_entry n))" "listener_at name sample_root = Inr None"
  by (simp_all add: listener_at_def host_node_def dr_def sample_element_def sample_root_def)

lemma event_propagation_witness:
  "GS (\<lambda>log f. (f = 2, f = 2)) [[sample_entry 3, sample_entry 2, sample_entry 1]] False [] =
    [Call (sample_entry 3), Call (sample_entry 2), Report]"
proof -
  let ?path = "[sample_element 3, sample_element 2, sample_element 1, sample_root]"
  have "distinct (map d_id ?path)" by (simp add: sample_element_def sample_root_def)
  moreover have "single_phase ''click'' False ''onClick'' ?path = Inr [sample_entry 3, sample_entry 2, sample_entry 1]"
    by (simp add: single_phase_def sample_listeners)
  ultimately show ?thesis
    using event_propagation [of ?path "''click''" False "''onClick''" _ "\<lambda>log f. (f = 2, f = 2)" "[]"]
    by (simp add: sample_listeners invoke_def Let_def)
qed

lemma enter_leave_exact_witness:
  "enter_leave ''onMouseLeave'' ''onMouseEnter''
      [sample_element 4, sample_element 3, sample_element 1, sample_root] [sample_element 2, sample_element 1, sample_root] =
    (Inr [sample_entry 4, sample_entry 3], Inr [sample_entry 2])"
proof -
  have "\<forall>x \<in> set [sample_element 4, sample_element 3]. \<forall>y \<in> set [sample_element 2]. unlike x y"
    "\<forall>x \<in> set [sample_element 4, sample_element 3] \<union> set [sample_element 2]. unlike (hd [sample_element 1, sample_root]) x"
    "element (hd [sample_element 1, sample_root])"
    by (simp_all add: unlike_def sample_element_def)
  from enter_leave_exact [OF _ this(3,1,2), of "''onMouseLeave''" "''onMouseEnter''"] show ?thesis
    by (simp add: sample_listeners)
qed

end
