(* ===== verification/React_Traversal.thy ===== *)
theory React_Traversal
  imports React_Roots
begin

text \<open>
  How the bundled \<open>react-dom\<close> finds the fibers with work: an update marks its fiber's lanes and the \<open>childLanes\<close> of all its
  ancestors; a render goes down from the root, renders the fibers with lanes of the render or with new props, skips
  subtrees without such lanes, and collects the lanes on the way up; the commit leaves the root with what it collected.
  A fiber holds its children; what a component renders is given by an environment. Errors and suspense, context, the
  reuse of a part of a subtree under another parent, and the early setting of a fiber's own lanes by \<open>enqueueConcurrent...\<close>,
  which \<open>Up\<close> repeats, are left out.
\<close>

section \<open>The tree\<close>

datatype tnode = Node (n_id: nat) (n_lanes: lanes) (n_childLanes: lanes) (n_children: "tnode list")

text \<open>\<open>bubbleProperties\<close>, for the lanes\<close>

definition st :: "tnode list \<Rightarrow> lanes" where
  "st ks = foldr (\<lambda>k acc. n_lanes k OR n_childLanes k OR acc) ks 0"

text \<open>\<open>markUpdateLaneFromFiberToRoot\<close> for the fiber \<open>i\<close>: the tree, and whether the fiber is in it. A fiber that was deleted
  has no way up to the root.\<close>

fun Up :: "lanes \<Rightarrow> nat \<Rightarrow> tnode \<Rightarrow> tnode \<times> bool" where
  "Up f i (Node j l c ks) =
     (if i = j then (Node j (l OR f) c ks, True)
      else (let rs = map (Up f i) ks; found = list_ex snd rs
            in (Node j l (if found then c OR f else c) (map fst rs), found)))"

section \<open>Rendering\<close>

text \<open>A freshly mounted subtree.\<close>

datatype template = Template nat "template list"

fun mount :: "template \<Rightarrow> tnode" where
  "mount (Template i ts) = Node i 0 0 (map mount ts)"

fun template_ids :: "template \<Rightarrow> nat list" where
  "template_ids (Template i ts) = i # concat (map template_ids ts)"

text \<open>A child that a render gives: the \<open>n\<close>-th child again, with new props or not, or a new one.\<close>

datatype new_child = Reused nat bool | Made template

text \<open>What rendering a fiber does: the lanes of the updates it skips, whether it finds that nothing changed, and its
  children.\<close>

record rendering =
  skipped :: "nat \<Rightarrow> lanes"
  unchanged :: "nat \<Rightarrow> bool"
  children :: "nat \<Rightarrow> new_child list"

type_synonym worked = "tnode \<times> nat list"

text \<open>\<open>bailoutOnAlreadyFinishedWork\<close>: the children stay as they are, or are cloned and worked on with their old props.
  \<open>runs\<close> is the work on each child.\<close>

definition Ga :: "lanes \<Rightarrow> lanes \<Rightarrow> tnode list \<Rightarrow> (bool \<Rightarrow> worked) list \<Rightarrow> tnode list \<times> nat list" where
  "Ga f c ks runs =
     (if c AND f = 0 then (ks, [])
      else (map (\<lambda>run. fst (run False)) runs, concat (map (\<lambda>run. snd (run False)) runs)))"

text \<open>The new children, in their order, after the work on them.\<close>

definition reconcile :: "(bool \<Rightarrow> worked) list \<Rightarrow> new_child list \<Rightarrow> worked list" where
  "reconcile runs cs = concat (map (\<lambda>c. case c of
       Reused n changed \<Rightarrow> (if n < length runs then [(runs ! n) changed] else [])
     | Made t \<Rightarrow> [(mount t, template_ids t)]) cs)"

text \<open>\<open>beginWork\<close> on a fiber with a current version, the work on its children, and \<open>completeWork\<close>: the finished fiber,
  and the fibers rendered, in order.\<close>

fun work :: "rendering \<Rightarrow> lanes \<Rightarrow> tnode \<Rightarrow> bool \<Rightarrow> worked" where
  "work R f (Node i l c ks) =
     (let runs = map (work R f) ks in (\<lambda>changed.
        if \<not> changed \<and> l AND f = 0 then
          (case Ga f c ks runs of (ks', log) \<Rightarrow> (Node i l (st ks') ks', log))
        else if \<not> changed \<and> unchanged R i then
          (case Ga f c ks runs of (ks', log) \<Rightarrow> (Node i (skipped R i) (st ks') ks', i # log))
        else
          (let ws = reconcile runs (children R i); ks' = map fst ws
           in (Node i (skipped R i) (st ks') ks', i # concat (map snd ws)))))"

section \<open>The root\<close>

text \<open>Updates that came in during a render are staged: fiber and lane.\<close>

record tree_root =
  t_root :: root
  t_tree :: tnode
  t_staged :: "(nat \<times> lanes) list"

text \<open>\<open>concurrentlyUpdatedLanes\<close>\<close>

definition ci :: "tree_root \<Rightarrow> lanes" where
  "ci s = foldr (\<lambda>(i, l) acc. l OR acc) (t_staged s) 0"

definition schedule :: "nat \<Rightarrow> lanes \<Rightarrow> tree_root \<Rightarrow> tree_root" where
  "schedule i l s = s\<lparr>t_staged := t_staged s @ [(i, l)], t_root := Gu l (t_root s)\<rparr>"

text \<open>\<open>finishQueueingConcurrentUpdates\<close>\<close>

definition za :: "tree_root \<Rightarrow> tree_root" where
  "za s = s\<lparr>t_tree := fold (\<lambda>(i, l) t. if l \<noteq> 0 then fst (Up l i t) else t) (t_staged s) (t_tree s), t_staged := []\<rparr>"

text \<open>A finished render of the lanes \<open>f\<close>, and its commit: \<open>_ = o.lanes | o.childLanes\<close>, \<open>_ |= ci\<close>, \<open>ps(l, f, _, ...)\<close>.\<close>

definition render_tree :: "rendering \<Rightarrow> lanes \<Rightarrow> tree_root \<Rightarrow> worked" where
  "render_tree R f s = work R f (t_tree s) False"

definition commit_tree :: "lanes \<Rightarrow> tnode \<Rightarrow> lanes \<Rightarrow> lanes \<Rightarrow> lanes \<Rightarrow> tree_root \<Rightarrow> tree_root" where
  "commit_tree f finished spawned updated retry s =
     s\<lparr>t_tree := finished,
       t_root := ps f (n_lanes finished OR n_childLanes finished OR ci s) spawned updated retry (t_root s)\<rparr>"

text \<open>
  The life of a root. A render may be given up; updates are staged at any time; those staged before a render ends are
  put into the tree before the commit, the late ones after it.
\<close>

inductive tree_life :: "tree_root \<Rightarrow> bool" where
  created: "tree_life \<lparr>t_root = x0 u, t_tree = Node i 0 0 [], t_staged = []\<rparr>"
| scheduled: "tree_life s \<Longrightarrow> tree_life (schedule i l s)"
| finished_queueing: "tree_life s \<Longrightarrow> tree_life (za s)"
| committed: "tree_life s \<Longrightarrow> render_tree R f s = (t, log) \<Longrightarrow>
    s' = fold (\<lambda>(i, l). schedule i l) late (za (s\<lparr>t_tree := t\<rparr>)) \<Longrightarrow>
    tree_life (commit_tree f (t_tree s') spawned updated retry s')"

section \<open>What the lanes of a tree say\<close>

definition ors :: "lanes list \<Rightarrow> lanes" where
  "ors ls = foldr (OR) ls 0"

lemma bit_ors: "bit (ors ls) n \<longleftrightarrow> (\<exists>l \<in> set ls. bit l n)"
  by (induction ls) (auto simp: ors_def bit_or_iff)

lemma bit_ors_map: "bit (ors (map g xs)) n \<longleftrightarrow> (\<exists>x \<in> set xs. bit (g x) n)"
  by (simp add: bit_ors)

lemma ors_sub: "lanes_sub (ors ls) m \<longleftrightarrow> (\<forall>l \<in> set ls. lanes_sub l m)"
  by (auto simp: lanes_sub_bits bit_ors)

fun all_lanes :: "tnode \<Rightarrow> lanes" where
  "all_lanes (Node i l c ks) = l OR ors (map all_lanes ks)"

text \<open>\<open>childLanes\<close> are exactly the lanes of the fibers below.\<close>

fun exact :: "tnode \<Rightarrow> bool" where
  "exact (Node i l c ks) \<longleftrightarrow> c = ors (map all_lanes ks) \<and> (\<forall>k \<in> set ks. exact k)"

fun nodes :: "tnode \<Rightarrow> (nat \<times> lanes) list" where
  "nodes (Node i l c ks) = (i, l) # concat (map nodes ks)"

lemma exact_own: "exact t \<Longrightarrow> n_lanes t OR n_childLanes t = all_lanes t"
  by (cases t) simp

lemma exact_st: "(\<And>k. k \<in> set ks \<Longrightarrow> exact k) \<Longrightarrow> st ks = ors (map all_lanes ks)"
proof (induction ks)
  case (Cons k ks)
  have "n_lanes k OR n_childLanes k = all_lanes k" using Cons.prems by (intro exact_own) simp
  moreover have "st ks = ors (map all_lanes ks)" using Cons by simp
  ultimately show ?case by (simp add: st_def ors_def or.assoc [symmetric])
qed (simp add: st_def ors_def)

lemma node_lanes: "(i, l) \<in> set (nodes t) \<Longrightarrow> lanes_sub l (all_lanes t)"
proof (induction t rule: all_lanes.induct)
  case (1 j l' c ks)
  show ?case
  proof (cases "(i, l) = (j, l')")
    case False
    then obtain k where k: "k \<in> set ks" "(i, l) \<in> set (nodes k)" using 1(2) by auto
    then have "lanes_sub l (all_lanes k)" using 1(1) by blast
    then show ?thesis using k(1) by (auto simp: lanes_sub_bits bit_or_iff bit_ors)
  qed (auto simp: lanes_sub_bits bit_or_iff)
qed

lemma Up_result:
  "exact t \<Longrightarrow> exact (fst (Up f i t)) \<and> all_lanes (fst (Up f i t)) = (if snd (Up f i t) then all_lanes t OR f else all_lanes t)"
proof (induction t rule: all_lanes.induct)
  case (1 j l c ks)
  show ?case
  proof (cases "i = j")
    case True
    then show ?thesis using 1(2) by (simp add: or.assoc or.commute [of f])
  next
    case False
    let ?rs = "map (Up f i) ks"
    have IH: "exact (fst (Up f i k))"
      "all_lanes (fst (Up f i k)) = (if snd (Up f i k) then all_lanes k OR f else all_lanes k)" if "k \<in> set ks" for k
      using 1(1) [OF that] 1(2) that by auto
    have "bit (all_lanes (fst (Up f i k))) n \<longleftrightarrow> bit (all_lanes k) n \<or> snd (Up f i k) \<and> bit f n" if "k \<in> set ks" for k n
      by (simp add: IH(2) [OF that] bit_or_iff)
    then have bits: "bit (ors (map all_lanes (map fst ?rs))) n \<longleftrightarrow>
        bit (ors (map all_lanes ks)) n \<or> list_ex snd ?rs \<and> bit f n" for n
      unfolding map_map bit_ors_map list_ex_iff comp_def by auto
    have "ors (map all_lanes (map fst ?rs)) = (if list_ex snd ?rs then ors (map all_lanes ks) OR f else ors (map all_lanes ks))"
      by (rule bit_word_eqI) (simp add: bits bit_or_iff del: map_map)
    then show ?thesis using False 1(2) IH(1) by (auto simp: Let_def or.assoc)
  qed
qed

lemma mount_result: "exact (mount t)" "all_lanes (mount t) = 0" "(i, l) \<in> set (nodes (mount t)) \<Longrightarrow> i \<in> set (template_ids t)"
proof (induction t)
  case (Template j ts)
  have "ors (map all_lanes (map mount ts)) = 0" by (rule bit_word_eqI) (use Template in \<open>simp add: bit_ors\<close>)
  then show "exact (mount (Template j ts))" "all_lanes (mount (Template j ts)) = 0" using Template by simp_all
  show "i \<in> set (template_ids (Template j ts))" if "(i, l) \<in> set (nodes (mount (Template j ts)))"
    using that Template(3) by auto
qed

section \<open>A render\<close>

lemma reconcile_member:
  assumes "w \<in> set (reconcile runs cs)"
  obtains (reused) run changed where "run \<in> set runs" "w = run changed"
  | (made) t where "w = (mount t, template_ids t)"
proof -
  obtain c where c: "c \<in> set cs" and w: "w \<in> set (case c of
       Reused n changed \<Rightarrow> (if n < length runs then [(runs ! n) changed] else [])
     | Made t \<Rightarrow> [(mount t, template_ids t)])"
    using assms unfolding reconcile_def by (auto simp del: split_paired_Ex)
  show ?thesis
  proof (cases c)
    case (Reused n changed)
    then have "w = (runs ! n) changed" "runs ! n \<in> set runs" using w by (auto split: if_splits)
    then show ?thesis by (rule reused [rotated])
  next
    case (Made t)
    then show ?thesis using w made by simp
  qed
qed

lemma work_exact: "exact t \<Longrightarrow> exact (fst (work R f t changed))"
proof (induction t arbitrary: changed rule: all_lanes.induct)
  case (1 i l c ks)
  let ?runs = "map (work R f) ks"
  have IH: "exact (fst (work R f k ch))" if "k \<in> set ks" for k ch using 1 that by auto
  have kept: "exact k" if "k \<in> set (fst (Ga f c ks ?runs))" for k
    using that 1(2) IH by (auto simp: Ga_def split: if_splits)
  have given: "exact k" if "k \<in> set (map fst (reconcile ?runs cs))" for k cs
    using that IH mount_result(1) by (auto elim!: reconcile_member)
  show ?case
    using kept given exact_st [of "fst (Ga f c ks ?runs)"] exact_st [of "map fst (reconcile ?runs (children R i))"]
    by (auto simp: Let_def split: prod.split)
qed

text \<open>A fiber of the finished tree was rendered, or is as it was and had no lane of the render.\<close>

definition settled_by :: "lanes \<Rightarrow> tnode \<Rightarrow> worked \<Rightarrow> bool" where
  "settled_by f t w \<longleftrightarrow> (\<forall>(i, l) \<in> set (nodes (fst w)). i \<in> set (snd w) \<or> (i, l) \<in> set (nodes t) \<and> l AND f = 0)"

lemma no_common: "lanes_sub l m \<Longrightarrow> m AND f = 0 \<Longrightarrow> l AND f = 0"
  by (metis (no_types, lifting) lanes_sub_def and.assoc and.commute and_zero_eq bit.conj_cancel_right lanes_sub_bits bit_and_iff bit_eqI bit_0_eq bot_apply)

lemma work_settles: "exact t \<Longrightarrow> settled_by f t (work R f t changed)"
proof (induction t arbitrary: changed rule: all_lanes.induct)
  case (1 i l c ks)
  let ?runs = "map (work R f) ks"
  have IH: "settled_by f k (work R f k ch)" if "k \<in> set ks" for k ch using 1 that by auto
  have idle: "l' AND f = 0" if "c AND f = 0" "k \<in> set ks" "(j, l') \<in> set (nodes k)" for j l' k
  proof -
    have "lanes_sub l' c"
      using node_lanes [OF that(3)] that(2) 1(2) by (auto simp: lanes_sub_bits bit_ors)
    then show ?thesis using that(1) no_common by blast
  qed
  have kept: "j \<in> set (snd (Ga f c ks ?runs)) \<or> (\<exists>k \<in> set ks. (j, l') \<in> set (nodes k)) \<and> l' AND f = 0"
    if k': "k' \<in> set (fst (Ga f c ks ?runs))" "(j, l') \<in> set (nodes k')" for k' j l'
  proof (cases "c AND f = 0")
    case True
    then show ?thesis using k' idle by (auto simp: Ga_def)
  next
    case False
    then obtain k where "k \<in> set ks" "k' = fst (work R f k False)" using k'(1) by (auto simp: Ga_def)
    then show ?thesis using IH [of k False] k'(2) False by (fastforce simp: settled_by_def Ga_def)
  qed
  have given: "j \<in> set (concat (map snd (reconcile ?runs cs))) \<or> (\<exists>k \<in> set ks. (j, l') \<in> set (nodes k)) \<and> l' AND f = 0"
    if w: "w \<in> set (reconcile ?runs cs)" "(j, l') \<in> set (nodes (fst w))" for w j l' cs
    using w(1)
  proof (cases rule: reconcile_member)
    case (reused run ch)
    then obtain k where "k \<in> set ks" "w = work R f k ch" by auto
    then show ?thesis using IH [of k ch] w by (fastforce simp: settled_by_def)
  next
    case (made t)
    then show ?thesis using mount_result(3) w by fastforce
  qed
  have within: "(j, l') \<in> set (nodes (Node i l c ks))" if "\<exists>k \<in> set ks. (j, l') \<in> set (nodes k)" for j l'
    using that by auto
  have bailed: "settled_by f (Node i l c ks) (Node i m c' (fst (Ga f c ks ?runs)), xs)"
    if "set (snd (Ga f c ks ?runs)) \<subseteq> set xs" "i \<in> set xs \<or> m = l \<and> l AND f = 0" for m c' xs
    unfolding settled_by_def using kept within that by fastforce
  have rendered: "settled_by f (Node i l c ks) (Node i m c' (map fst (reconcile ?runs cs)), i # concat (map snd (reconcile ?runs cs)))"
    for m c' cs
    unfolding settled_by_def using given within by fastforce
  obtain ks' lg where ga: "Ga f c ks ?runs = (ks', lg)" by fastforce
  show ?case
    using bailed [of lg] bailed [of "i # lg"] rendered by (auto simp: Let_def ga)
qed

section \<open>No work is forgotten\<close>

definition root_inv :: "tree_root \<Rightarrow> bool" where
  "root_inv s \<longleftrightarrow> exact (t_tree s) \<and> lanes_sub (all_lanes (t_tree s)) (pendingLanes (t_root s)) \<and>
     (\<forall>(i, l) \<in> set (t_staged s). lanes_sub l (pendingLanes (t_root s)))"

lemma pending_ps: "lanes_sub remaining (pendingLanes (ps f remaining spawned updated retry r))"
proof -
  have "pendingLanes (reset_lanes m r') = pendingLanes r'" for m and r' :: root
    by (induction m r' rule: reset_lanes.induct) (subst reset_lanes.simps, simp add: Let_def)
  then show ?thesis by (simp add: ps_def Let_def id_spawned_def lanes_sub_bits bit_or_iff)
qed

lemma root_inv_schedule: "root_inv s \<Longrightarrow> root_inv (schedule i l s)"
  by (auto simp: root_inv_def schedule_def Gu_def Let_def lanes_sub_bits bit_or_iff)

lemma root_inv_late: "root_inv s \<Longrightarrow> root_inv (fold (\<lambda>(i, l). schedule i l) late s)"
  by (induction late arbitrary: s) (auto simp: root_inv_schedule)

lemma staged_tree:
  assumes "exact t" "\<forall>(i, l) \<in> set us. lanes_sub l m" "lanes_sub (all_lanes t) m"
  shows "exact (fold (\<lambda>(i, l) t. if l \<noteq> 0 then fst (Up l i t) else t) us t) \<and>
    lanes_sub (all_lanes (fold (\<lambda>(i, l) t. if l \<noteq> 0 then fst (Up l i t) else t) us t)) m"
  using assms
proof (induction us arbitrary: t)
  case (Cons u us)
  obtain i l where u: "u = (i, l)" by (cases u)
  have "exact (fst (Up l i t))" "lanes_sub (all_lanes (fst (Up l i t))) m"
    using Up_result [OF Cons.prems(1), of l i] Cons.prems(2,3) u by (auto simp: lanes_sub_bits bit_or_iff)
  then show ?case using Cons u by (cases "l = 0") auto
qed simp

lemma root_inv_za: "root_inv s \<Longrightarrow> root_inv (za s)"
  using staged_tree [of "t_tree s" "t_staged s" "pendingLanes (t_root s)"] by (simp add: root_inv_def za_def)

lemma ci_staged: "(i, l) \<in> set (t_staged s) \<Longrightarrow> lanes_sub l (ci s)"
proof -
  have "(i, l) \<in> set us \<Longrightarrow> lanes_sub l (foldr (\<lambda>(i, l) acc. l OR acc) us 0)" for us :: "(nat \<times> lanes) list"
    by (induction us) (auto simp: lanes_sub_bits bit_or_iff)
  then show "(i, l) \<in> set (t_staged s) \<Longrightarrow> lanes_sub l (ci s)" by (simp add: ci_def)
qed

lemma root_inv_commit:
  assumes "exact (t_tree s)"
  shows "root_inv (commit_tree f (t_tree s) spawned updated retry s)"
proof -
  let ?remaining = "all_lanes (t_tree s) OR ci s"
  have "lanes_sub ?remaining (pendingLanes (t_root (commit_tree f (t_tree s) spawned updated retry s)))"
    by (simp add: commit_tree_def exact_own [OF assms, symmetric] or.assoc pending_ps)
  then show ?thesis
    using assms ci_staged [of _ _ s]
    by (fastforce simp: root_inv_def commit_tree_def lanes_sub_bits bit_or_iff)
qed

lemma exact_za: "exact (t_tree s) \<Longrightarrow> exact (t_tree (za s))"
  using staged_tree [of "t_tree s" "t_staged s" "- 1"] by (simp add: za_def lanes_sub_def)

lemma late_tree: "t_tree (fold (\<lambda>(i, l). schedule i l) late s) = t_tree s"
  by (induction late arbitrary: s) (auto simp: schedule_def)

lemma tree_life_inv: "tree_life s \<Longrightarrow> root_inv s"
proof (induction rule: tree_life.induct)
  case (created u i)
  then show ?case by (simp add: root_inv_def ors_def lanes_sub_def)
next
  case (committed s R f t log s' late spawned updated retry)
  have "exact t" using committed(2,4) work_exact [of "t_tree s" R f False]
    by (simp add: render_tree_def root_inv_def)
  then have "exact (t_tree s')" unfolding committed(3) late_tree using exact_za [of "s\<lparr>t_tree := t\<rparr>"] by simp
  then show ?case by (rule root_inv_commit)
qed (simp_all add: root_inv_schedule root_inv_za)

text \<open>
  C10: Whatever updates, renders and commits happen, no work is forgotten: the lanes of every fiber of the tree, however
  deep, and of every staged update are pending at the root; and a render of some lanes leaves no fiber with one of them
  that it has not rendered, although it skips the subtrees whose \<open>childLanes\<close> have none, and leaves the others as they were.
\<close>

theorem no_work_forgotten:
  assumes "tree_life s" "render_tree R f s = (t, log)"
  shows "((i, l) \<in> set (nodes (t_tree s)) \<union> set (t_staged s) \<longrightarrow> lanes_sub l (pendingLanes (t_root s))) \<and>
    ((i, l) \<in> set (nodes t) \<longrightarrow> i \<in> set log \<or> (i, l) \<in> set (nodes (t_tree s)) \<and> l AND f = 0)"
proof -
  have inv: "root_inv s" by (rule tree_life_inv [OF assms(1)])
  then have "settled_by f (t_tree s) (t, log)"
    using work_settles [of "t_tree s" f R False] assms(2) by (simp add: root_inv_def render_tree_def)
  then have "(i, l) \<in> set (nodes t) \<longrightarrow> i \<in> set log \<or> (i, l) \<in> set (nodes (t_tree s)) \<and> l AND f = 0"
    by (auto simp: settled_by_def)
  moreover have "lanes_sub l (pendingLanes (t_root s))" if "(i, l) \<in> set (nodes (t_tree s)) \<union> set (t_staged s)"
    using that inv node_lanes [of i l "t_tree s"] by (auto simp: root_inv_def lanes_sub_bits)
  ultimately show ?thesis by blast
qed

text \<open>A root that has rendered two components and then an update of the inner one.\<close>

definition sample_rendering :: rendering where
  "sample_rendering = \<lparr>skipped = (\<lambda>i. 0), unchanged = (\<lambda>i. False),
     children = (\<lambda>i. if i = 0 then [Made (Template 1 [Template 2 []])] else [])\<rparr>"

definition sample_tree :: tree_root where
  "sample_tree =
     (let s1 = za (schedule 0 32 \<lparr>t_root = x0 (\<lambda>u. 0), t_tree = Node 0 0 0 [], t_staged = []\<rparr>);
          s2 = za (s1\<lparr>t_tree := fst (render_tree sample_rendering 32 s1)\<rparr>)
      in za (schedule 2 2 (commit_tree 32 (t_tree s2) 0 0 0 s2)))"

lemma sample_tree_life: "tree_life sample_tree"
proof -
  let ?s1 = "za (schedule 0 32 \<lparr>t_root = x0 (\<lambda>u. 0), t_tree = Node 0 0 0 [], t_staged = []\<rparr>)"
  have s1: "tree_life ?s1"
    by (rule tree_life.finished_queueing [OF tree_life.scheduled [OF tree_life.created]])
  have "render_tree sample_rendering 32 ?s1 = (fst (render_tree sample_rendering 32 ?s1), snd (render_tree sample_rendering 32 ?s1))"
    by simp
  from tree_life.committed [OF s1 this, of _ "[]" 0 0 0]
  show ?thesis
    unfolding sample_tree_def Let_def by (intro tree_life.finished_queueing tree_life.scheduled) simp
qed

lemma no_work_forgotten_witness: "lanes_sub 2 (pendingLanes (t_root sample_tree))"
proof -
  have "t_tree sample_tree = Node 0 0 2 [Node 1 0 2 [Node 2 2 0 []]]"
    by (simp add: sample_tree_def za_def schedule_def commit_tree_def render_tree_def sample_rendering_def reconcile_def
        Let_def st_def Ga_def)
  then show ?thesis
    using no_work_forgotten [OF sample_tree_life, of sample_rendering 2 _ _ 2 2]
    by (cases "render_tree sample_rendering 2 sample_tree") auto
qed

end
