(* ===== verification/Decimal.thy ===== *)
theory Decimal
  imports Complex_Main
begin

text \<open>
  The arbitrary-precision decimals that the charts of the bundle compute their axis ticks with (\<open>decimal.js-light\<close>): a
  sign, an exponent and digits in base \<open>10 ^ 7\<close>, the most significant first. The numbers of the code are integers below
  \<open>2 ^ 53\<close> throughout, on which its divisions followed by \<open>| 0\<close> are integer divisions. \<open>kn\<close> is the library's switch for
  rounding every result to the constructor's precision. Division, logarithms, powers, parsing and printing are not modelled.
\<close>

section \<open>Numbers\<close>

record dec =
  d_s :: int
  d_e :: int
  d_d :: "int list"

text \<open>\<open>Kr\<close>, \<open>qn\<close> and \<open>WO\<close>: the base, its digits, and the largest exponent.\<close>

definition Kr :: int where "Kr = 10000000"

definition qn :: int where "qn = 7"

definition WO :: int where "WO = 9007199254740991 div 7"

definition zero_dec :: dec where
  "zero_dec = \<lparr>d_s = 0, d_e = 0, d_d = [0]\<rparr>"

text \<open>\<open>for (h = 1; s >= 10; s /= 10) h++\<close>: the number of decimal digits of a word\<close>

function digits10 :: "int \<Rightarrow> int" where
  "digits10 s = (if s \<ge> 10 then 1 + digits10 (s div 10) else 1)"
  by pat_completeness auto
termination by (relation "measure nat") auto

declare digits10.simps [simp del]

text \<open>\<open>getBase10Exponent\<close>\<close>

definition Rr :: "dec \<Rightarrow> int" where
  "Rr e = d_e e * qn + (digits10 (hd (d_d e)) - 1)"

definition dec_abs :: "dec \<Rightarrow> dec" where
  "dec_abs e = (if d_s e \<noteq> 0 then e\<lparr>d_s := 1\<rparr> else e)"

definition dec_neg :: "dec \<Rightarrow> dec" where
  "dec_neg e = e\<lparr>d_s := - d_s e\<rparr>"

definition dec_isint :: "dec \<Rightarrow> bool" where
  "dec_isint e \<longleftrightarrow> d_e e > int (length (d_d e)) - 2"

section \<open>Comparing\<close>

text \<open>\<open>x ^ s < 0 ? 1 : -1\<close>, where \<open>x\<close> says which has the larger magnitude\<close>

definition by_sign :: "bool \<Rightarrow> int \<Rightarrow> int" where
  "by_sign larger s = (if larger \<noteq> (s < 0) then 1 else - 1)"

fun cmp_digits :: "int \<Rightarrow> int list \<Rightarrow> int list \<Rightarrow> int" where
  "cmp_digits s (x # xs) (y # ys) = (if x \<noteq> y then by_sign (x > y) s else cmp_digits s xs ys)"
| "cmp_digits s xs ys = (if length xs = length ys then 0 else by_sign (length xs > length ys) s)"

definition cmp :: "dec \<Rightarrow> dec \<Rightarrow> int" where
  "cmp x y =
     (if d_s x \<noteq> d_s y then (if d_s x \<noteq> 0 then d_s x else - d_s y)
      else if d_e x \<noteq> d_e y then by_sign (d_e x > d_e y) (d_s x)
      else cmp_digits (d_s x) (d_d x) (d_d y))"

definition dec_eq :: "dec \<Rightarrow> dec \<Rightarrow> bool" where
  "dec_eq x y \<longleftrightarrow> cmp x y = 0"

definition dec_gt :: "dec \<Rightarrow> dec \<Rightarrow> bool" where
  "dec_gt x y \<longleftrightarrow> cmp x y > 0"

definition dec_gte :: "dec \<Rightarrow> dec \<Rightarrow> bool" where
  "dec_gte x y \<longleftrightarrow> cmp x y \<ge> 0"

definition dec_lt :: "dec \<Rightarrow> dec \<Rightarrow> bool" where
  "dec_lt x y \<longleftrightarrow> cmp x y < 0"

definition dec_lte :: "dec \<Rightarrow> dec \<Rightarrow> bool" where
  "dec_lte x y \<longleftrightarrow> cmp x y < 1"

definition dec_isneg :: "dec \<Rightarrow> bool" where
  "dec_isneg x \<longleftrightarrow> d_s x < 0"

definition dec_ispos :: "dec \<Rightarrow> bool" where
  "dec_ispos x \<longleftrightarrow> d_s x > 0"

definition dec_isZero :: "dec \<Rightarrow> bool" where
  "dec_isZero x \<longleftrightarrow> d_s x = 0"

section \<open>Rounding\<close>

text \<open>\<open>for (i = S.length; S[--i] === 0; ) S.pop()\<close>\<close>

definition strip :: "int list \<Rightarrow> int list" where
  "strip ds = rev (dropWhile (\<lambda>d. d = 0) (rev ds))"

text \<open>Adding \<open>s\<close> to the word at \<open>O\<close>, the last, and carrying; with the exponent\<close>

fun carry_up :: "int list \<Rightarrow> nat \<Rightarrow> int \<Rightarrow> int \<Rightarrow> int list \<times> int" where
  "carry_up ds 0 s e = (let d = ds ! 0 + s in if d = Kr then (ds[0 := 1], e + 1) else (ds[0 := d], e))"
| "carry_up ds (Suc n) s e =
     (let d = ds ! Suc n + s in if d \<noteq> Kr then (ds[Suc n := d], e) else carry_up (ds[Suc n := 0]) n 1 e)"

text \<open>Whether to round up in magnitude: \<open>y\<close> is the first digit dropped, \<open>rest\<close> whether a later one is not zero, \<open>odd_left\<close>
  whether the last digit kept is odd.\<close>

definition round_up :: "nat \<Rightarrow> int \<Rightarrow> int \<Rightarrow> bool \<Rightarrow> bool \<Rightarrow> bool" where
  "round_up rm s y rest odd_left =
     (if rm < 4 then (y \<noteq> 0 \<or> rest) \<and> (rm = 0 \<or> rm = (if s < 0 then 3 else 2))
      else y > 5 \<or> y = 5 \<and> (rm = 4 \<or> rest \<or> rm = 6 \<and> odd_left \<or> rm = (if s < 0 then 8 else 7)))"

text \<open>\<open>round\<close> to \<open>t\<close> significant digits; without a rounding mode the digits are cut off. The exponent of the result is an
  error when it is out of range.\<close>

definition check_exponent :: "bool \<Rightarrow> dec \<Rightarrow> int + dec" where
  "check_exponent kn x = (if kn \<and> (d_e x > WO \<or> d_e x < - WO) then Inl (Rr x) else Inr x)"

definition xn :: "bool \<Rightarrow> dec \<Rightarrow> int \<Rightarrow> nat option \<Rightarrow> int + dec" where
  "xn kn e t rm =
     (let S = d_d e; h0 = digits10 (hd S); i0 = t - h0;
          n = (if i0 < 0 then 0 else nat ((i0 + 1 + qn - 1) div qn))
      in if i0 \<ge> 0 \<and> n \<ge> length S then Inr e
         else
           (let b = S ! n; h = (if i0 < 0 then h0 else digits10 b);
                i = (if i0 < 0 then i0 + qn else i0 mod qn);
                c = (if i0 < 0 then t else i - qn + h);
                unit = 10 ^ nat (h - c - 1);
                y = b div unit mod 10;
                rest = (t < 0 \<or> Suc n < length S \<or> b mod unit \<noteq> 0);
                left = (if i > 0 then (if c > 0 then b div 10 ^ nat (h - c) else 0) else if n > 0 then S ! (n - 1) else 0);
                g = (case rm of None \<Rightarrow> False | Some m \<Rightarrow> round_up m (d_s e) y rest (odd left))
            in if t < 1 \<or> hd S = 0 then
                 (if g then
                    (let t1 = t - Rr e - 1
                     in Inr (e\<lparr>d_d := [10 ^ nat ((qn - (sgn t1 * (\<bar>t1\<bar> mod qn))) mod qn)], d_e := - t1 div qn\<rparr>))
                  else Inr zero_dec)
               else
                 (let kept = (if i = 0 then take n S
                        else take n S @ [if c > 0 then b div 10 ^ nat (h - c) mod 10 ^ nat c * 10 ^ nat (qn - i) else 0]);
                      (ds, ex) = (if g then carry_up kept (length kept - 1) (if i = 0 then 1 else 10 ^ nat (qn - i)) (d_e e)
                        else (kept, d_e e))
                  in check_exponent kn (e\<lparr>d_d := strip ds, d_e := ex\<rparr>))))"

text \<open>\<open>kn ? xn(r, S.precision) : r\<close>\<close>

definition rounded :: "bool \<Rightarrow> int \<Rightarrow> dec \<Rightarrow> int + dec" where
  "rounded kn precision r = (if kn then xn kn r precision None else Inr r)"

section \<open>Multiplying\<close>

text \<open>\<open>for (t = 0, c = g + i; c > i; )\<close>: the products of one word of the shorter factor\<close>

function row :: "int \<Rightarrow> int list \<Rightarrow> nat \<Rightarrow> nat \<Rightarrow> int \<Rightarrow> int list \<Rightarrow> int list \<times> int" where
  "row wi E i c t s =
     (if c > i then
        (let y = s ! c + wi * E ! (c - i - 1) + t in row wi E i (c - 1) (y div Kr) (s[c := y mod Kr]))
      else (s, t))"
  by pat_completeness auto
termination by (relation "measure (\<lambda>(wi, E, i, c, t, s). c)") auto

declare row.simps [simp del]

text \<open>\<open>for (i = b; --i >= 0; )\<close>: the result array and the last carry\<close>

fun rows :: "int list \<Rightarrow> int list \<Rightarrow> nat \<Rightarrow> int \<Rightarrow> int list \<Rightarrow> int list \<times> int" where
  "rows w E 0 t s = (s, t)"
| "rows w E (Suc i) t s =
     (let (s1, t1) = row (w ! i) E i (length E + i) 0 s in rows w E i t1 (s1[i := (s1 ! i + t1) mod Kr]))"

definition times :: "bool \<Rightarrow> int \<Rightarrow> dec \<Rightarrow> dec \<Rightarrow> int + dec" where
  "times kn precision x e =
     (if d_s x = 0 \<or> d_s e = 0 then Inr zero_dec
      else
        (let (E, w) = (if length (d_d x) < length (d_d e) then (d_d e, d_d x) else (d_d x, d_d e));
             (s, t) = rows w E (length w) 0 (replicate (length E + length w) 0);
             s1 = strip s;
             r = \<lparr>d_s = d_s x * d_s e, d_e = (if t \<noteq> 0 then d_e x + d_e e + 1 else d_e x + d_e e),
                  d_d = (if t \<noteq> 0 then s1 else tl s1)\<rparr>
         in rounded kn precision r))"

section \<open>Adding and subtracting\<close>

text \<open>The zeros put before the digits of the number with the smaller exponent; when the gap is larger than the precision
  can show, one of its words is kept at the limit.\<close>

definition shift_right :: "int \<Rightarrow> int \<Rightarrow> int list \<Rightarrow> int list" where
  "shift_right gap limit ds = (if gap > limit then replicate (nat limit) 0 @ take 1 ds else replicate (nat gap) 0 @ ds)"

text \<open>\<open>for (...; s; ) a = (g[--s] = g[s] + b[s] + a) / Kr | 0, g[s] %= Kr\<close>\<close>

fun add_words :: "nat \<Rightarrow> int \<Rightarrow> int list \<Rightarrow> int list \<Rightarrow> int list \<times> int" where
  "add_words 0 a g b = (g, a)"
| "add_words (Suc s) a g b = (let y = g ! s + b ! s + a in add_words s (y div Kr) (g[s := y mod Kr]) b)"

definition GB :: "bool \<Rightarrow> int \<Rightarrow> dec \<Rightarrow> dec \<Rightarrow> int + dec" where
  "GB kn precision e t =
     (if d_s e = 0 \<or> d_s t = 0 then rounded kn precision (if d_s t \<noteq> 0 then t else e)
      else
        (let s = d_e e - d_e t;
             limit = (\<lambda>y. max ((precision + qn - 1) div qn) y + 1);
             g = (if s < 0 then shift_right (- s) (limit (int (length (d_d t)))) (d_d e) else d_d e);
             b = (if s > 0 then shift_right s (limit (int (length (d_d e)))) (d_d t) else d_d t);
             c = (if s > 0 then d_e e else d_e t);
             (g1, b1) = (if length g < length b then (b, g) else (g, b));
             (g2, a) = add_words (length b1) 0 g1 b1;
             g3 = (if a \<noteq> 0 then a # g2 else g2)
         in rounded kn precision (t\<lparr>d_d := strip g3, d_e := (if a \<noteq> 0 then c + 1 else c)\<rparr>)))"

text \<open>\<open>for (c = 0; c < y; c++) if (g[c] != S[c]) { O = g[c] < S[c]; break; }\<close>, from \<open>O = g.length < S.length\<close>\<close>

fun less_words :: "bool \<Rightarrow> int list \<Rightarrow> int list \<Rightarrow> bool" where
  "less_words d (x # xs) (y # ys) = (if x \<noteq> y then x < y else less_words d xs ys)"
| "less_words d xs ys = d"

text \<open>\<open>for (s = c; s && g[--s] === 0; ) g[s] = Kr - 1; --g[s]\<close>\<close>

fun borrow :: "nat \<Rightarrow> int list \<Rightarrow> int list" where
  "borrow 0 g = g[0 := g ! 0 - 1]"
| "borrow (Suc s) g = (if g ! s = 0 then borrow s (g[s := Kr - 1]) else g[s := g ! s - 1])"

text \<open>\<open>for (c = S.length; c > h; )\<close>\<close>

fun sub_words :: "nat \<Rightarrow> nat \<Rightarrow> int list \<Rightarrow> int list \<Rightarrow> int list" where
  "sub_words 0 h g S = g"
| "sub_words (Suc c) h g S =
     (if Suc c > h then
        (let g1 = (if g ! c < S ! c then (let b = borrow c g in b[c := b ! c + Kr]) else g)
         in sub_words c h (g1[c := g1 ! c - S ! c]) S)
      else g)"

text \<open>\<open>for (; g[0] === 0; g.shift()) --i\<close>\<close>

fun unlead :: "int \<Rightarrow> int list \<Rightarrow> int \<times> int list" where
  "unlead i (d # ds) = (if d = 0 then unlead (i - 1) ds else (i, d # ds))"
| "unlead i [] = (i, [])"

definition XB :: "bool \<Rightarrow> int \<Rightarrow> dec \<Rightarrow> dec \<Rightarrow> int + dec" where
  "XB kn precision e t =
     (if d_s e = 0 \<or> d_s t = 0 then rounded kn precision (if d_s t \<noteq> 0 then dec_neg t else e)
      else
        (let gap = d_e e - d_e t;
             limit = (\<lambda>y. max ((precision + qn - 1) div qn) y + 2);
             g = (if gap < 0 then shift_right (- gap) (limit (int (length (d_d t)))) (d_d e) else d_d e);
             S = (if gap > 0 then shift_right gap (limit (int (length (d_d e)))) (d_d t) else d_d t);
             h = (if gap < 0 then min (- gap) (limit (int (length (d_d t)))) else min gap (limit (int (length (d_d e)))));
             i = (if gap > 0 then d_e e else d_e t);
             O1 = (if gap \<noteq> 0 then gap < 0 else less_words (length g < length S) g S);
             (g1, S1) = (if O1 then (S, g) else (g, S));
             g2 = g1 @ replicate (length S1 - length g1) 0;
             g3 = strip (sub_words (length S1) (nat h) g2 S1);
             (i1, g4) = unlead i g3
         in if g4 \<noteq> [] then rounded kn precision \<lparr>d_s = (if O1 then - d_s t else d_s t), d_e = i1, d_d = g4\<rparr>
            else Inr zero_dec))"

definition plus_dec :: "bool \<Rightarrow> int \<Rightarrow> dec \<Rightarrow> dec \<Rightarrow> int + dec" where
  "plus_dec kn precision t e = (if d_s t = d_s e then GB kn precision t e else XB kn precision t (e\<lparr>d_s := - d_s e\<rparr>))"

definition minus_dec :: "bool \<Rightarrow> int \<Rightarrow> dec \<Rightarrow> dec \<Rightarrow> int + dec" where
  "minus_dec kn precision t e = (if d_s t = d_s e then XB kn precision t e else GB kn precision t (e\<lparr>d_s := - d_s e\<rparr>))"

end
