(* ===== verification/Decimal_Facts.thy ===== *)
theory Decimal_Facts
  imports Decimal
begin

text \<open>
  The arithmetic of the decimals against the rational numbers they stand for.
\<close>

section \<open>Values\<close>

text \<open>Digits with the point after the first.\<close>

fun fv :: "int list \<Rightarrow> rat" where
  "fv [] = 0"
| "fv (d # ds) = of_int d + fv ds / of_int Kr"

definition val :: "dec \<Rightarrow> rat" where
  "val x = of_int (d_s x) * fv (d_d x) * of_int Kr powi d_e x"

definition digit :: "int \<Rightarrow> bool" where
  "digit d \<longleftrightarrow> 0 \<le> d \<and> d < Kr"

definition norm_digits :: "int list \<Rightarrow> bool" where
  "norm_digits ds \<longleftrightarrow> ds \<noteq> [] \<and> hd ds \<noteq> 0 \<and> last ds \<noteq> 0 \<and> list_all digit ds"

definition valid :: "dec \<Rightarrow> bool" where
  "valid x \<longleftrightarrow> x = zero_dec \<or> d_s x \<in> {1, - 1} \<and> norm_digits (d_d x)"

lemma Kr_pos [simp]: "0 < Kr" "Kr \<noteq> 0" "1 < Kr" "1 \<le> Kr" "0 \<le> Kr" "\<not> Kr < 0" "\<not> Kr \<le> 0" "0 < (of_int Kr :: rat)" "(of_int Kr :: rat) \<noteq> 0" "1 < (of_int Kr :: rat)"
    "1 \<le> (of_int Kr :: rat)"
  by (simp_all add: Kr_def)

lemma powi_pos [simp]: "0 < (of_int Kr :: rat) powi e"
  by (rule zero_less_power_int) simp

lemma powi_sign [simp]: "\<not> (of_int Kr :: rat) powi e < 0" "0 \<le> (of_int Kr :: rat) powi e"
    "\<not> (of_int Kr :: rat) powi e \<le> 0"
  using powi_pos [of e] by linarith+

lemma digit_bounds:
  assumes "digit d"
  shows "0 \<le> (of_int d :: rat)" "(of_int d :: rat) \<le> of_int Kr - 1"
proof -
  show "0 \<le> (of_int d :: rat)" using assms by (simp add: digit_def)
  have "d \<le> Kr - 1" using assms by (simp add: digit_def)
  then have "(of_int d :: rat) \<le> of_int (Kr - 1)" by (simp only: of_int_le_iff)
  then show "(of_int d :: rat) \<le> of_int Kr - 1" by simp
qed

lemma fv_bounds: "list_all digit ds \<Longrightarrow> 0 \<le> fv ds \<and> fv ds < of_int Kr"
proof (induction ds)
  case (Cons d ds)
  then have f: "0 \<le> fv ds" "fv ds < of_int Kr" by simp_all
  have "0 \<le> fv ds / of_int Kr" using f(1) by (rule divide_nonneg_pos) simp
  moreover have "fv ds / of_int Kr < 1" by (subst divide_less_eq_1_pos) (simp_all add: f)
  moreover have "fv (d # ds) = of_int d + fv ds / of_int Kr" by (rule fv.simps)
  moreover have "0 \<le> (of_int d :: rat)" "(of_int d :: rat) \<le> of_int Kr - 1" using digit_bounds [of d] Cons.prems by simp_all
  ultimately show ?case by linarith
qed simp

lemma fv_rest: "list_all digit ds \<Longrightarrow> 0 \<le> fv ds / of_int Kr \<and> fv ds / of_int Kr < 1"
  using fv_bounds [of ds] by (simp add: divide_less_eq_1_pos divide_nonneg_pos)

lemma fv_pos: "list_all digit ds \<Longrightarrow> d \<in> set ds \<Longrightarrow> d \<noteq> 0 \<Longrightarrow> 0 < fv ds"
proof (induction ds)
  case (Cons a ds)
  show ?case
  proof (cases "d = a")
    case True
    then have "0 < (of_int a :: rat)" using Cons.prems by (simp add: digit_def)
    then show ?thesis using fv_rest [of ds] Cons.prems(1) by auto
  next
    case False
    then have "0 < fv ds" using Cons by auto
    then show ?thesis using digit_bounds(1) [of a] Cons.prems(1) by (simp add: add_nonneg_pos)
  qed
qed simp

lemma fv_one:
  assumes "norm_digits ds"
  shows "1 \<le> fv ds"
proof -
  obtain d ds' where ds: "ds = d # ds'" using assms by (cases ds) (auto simp: norm_digits_def)
  then have "1 \<le> (of_int d :: rat)" using assms by (simp add: norm_digits_def digit_def)
  then show ?thesis using fv_rest [of ds'] assms ds by (auto simp: norm_digits_def)
qed

section \<open>Order\<close>

text \<open>The sign of the difference of two lists of digits; the last digit of neither is zero.\<close>

lemma fv_less: "x < y \<Longrightarrow> list_all digit xs \<Longrightarrow> list_all digit ys \<Longrightarrow> fv (x # xs) < fv (y # ys)"
proof -
  assume "x < y" "list_all digit xs" "list_all digit ys"
  have "(of_int (x + 1) :: rat) \<le> of_int y" using \<open>x < y\<close> by (subst of_int_le_iff) simp
  then have "(of_int x :: rat) + 1 \<le> of_int y" by simp
  then show ?thesis using conjunct2 [OF fv_rest, OF \<open>list_all digit xs\<close>] conjunct1 [OF fv_rest, OF \<open>list_all digit ys\<close>]
    unfolding fv.simps by linarith
qed

lemma fv_same_head: "fv (x # xs) < fv (x # ys) \<longleftrightarrow> fv xs < fv ys" "fv (x # xs) = fv (x # ys) \<longleftrightarrow> fv xs = fv ys"
  by (simp_all add: divide_less_cancel Kr_def)

lemma cmp_digits_result:
  assumes "list_all digit xs" "list_all digit ys" "xs \<noteq> [] \<Longrightarrow> last xs \<noteq> 0" "ys \<noteq> [] \<Longrightarrow> last ys \<noteq> 0"
  shows "cmp_digits s xs ys = (if fv xs = fv ys then 0 else by_sign (fv xs > fv ys) s)"
  using assms
proof (induction xs ys rule: list_induct2')
  case 1
  then show ?case by simp
next
  case (2 x xs)
  then have "0 < fv (x # xs)" using fv_pos [of "x # xs" "last (x # xs)"] by simp
  then show ?case by simp
next
  case (3 y ys)
  then have "0 < fv (y # ys)" using fv_pos [of "y # ys" "last (y # ys)"] by simp
  then show ?case by simp
next
  case (4 x xs y ys)
  show ?case
  proof (cases "x = y")
    case True
    have "last (x # xs) \<noteq> 0" "last (y # ys) \<noteq> 0" using 4(4,5) by simp_all
    then have "xs \<noteq> [] \<Longrightarrow> last xs \<noteq> 0" "ys \<noteq> [] \<Longrightarrow> last ys \<noteq> 0" by simp_all
    then have "cmp_digits s xs ys = (if fv xs = fv ys then 0 else by_sign (fv xs > fv ys) s)"
      using 4(2,3) by (intro 4(1)) auto
    then show ?thesis using True by (simp add: fv_same_head del: fv.simps)
  next
    case False
    then show ?thesis using fv_less [of x y xs ys] fv_less [of y x ys xs] 4(2,3)
      by (cases "x < y") (auto simp del: fv.simps)
  qed
qed

text \<open>The magnitude of a number with a larger exponent is larger.\<close>

lemma exponent_decides:
  assumes "norm_digits xs" "norm_digits ys" "e < e'"
  shows "fv xs * of_int Kr powi e < fv ys * of_int Kr powi e'"
proof -
  have "fv xs * of_int Kr powi e < of_int Kr * of_int Kr powi e"
    using fv_bounds [of xs] assms(1) by (intro mult_strict_right_mono) (auto simp: norm_digits_def)
  also have "\<dots> = of_int Kr powi (e + 1)" by (simp add: power_int_add)
  also have "\<dots> \<le> of_int Kr powi e'" using assms(3) by (intro power_int_increasing) auto
  also have "\<dots> \<le> fv ys * of_int Kr powi e'" using mult_right_mono [OF fv_one [OF assms(2)], of "of_int Kr powi e'"] powi_pos [of e']
    by (simp add: less_imp_le)
  finally show ?thesis .
qed

text \<open>A number is zero or has a magnitude with digits that are neither led nor followed by zeros.\<close>

lemma xn_zero: "1 \<le> p \<Longrightarrow> xn kn zero_dec p None = Inr zero_dec"
  by (simp add: xn_def Let_def zero_dec_def digits10.simps [of 0] qn_def le_nat_iff)

lemma rounded_zero: "1 \<le> p \<Longrightarrow> rounded kn p zero_dec = Inr zero_dec"
  by (simp add: rounded_def xn_zero)

lemma val_zero [simp]: "val zero_dec = 0"
  by (simp add: val_def zero_dec_def)

definition mag :: "dec \<Rightarrow> rat" where
  "mag x = fv (d_d x) * of_int Kr powi d_e x"

lemma val_mag: "val x = of_int (d_s x) * mag x"
  by (simp add: val_def mag_def)

lemma mag_pos: "norm_digits (d_d x) \<Longrightarrow> 0 < mag x"
  using fv_one [of "d_d x"] by (simp add: mag_def)

lemma val_sign:
  assumes "valid x"
  shows "d_s x = 0 \<and> val x = 0 \<or> d_s x = 1 \<and> val x > 0 \<or> d_s x = - 1 \<and> val x < 0"
proof (cases "x = zero_dec")
  case True
  then show ?thesis by (simp add: zero_dec_def val_def)
next
  case False
  then have "d_s x \<in> {1, - 1}" "0 < mag x" using assms mag_pos by (auto simp: valid_def)
  then show ?thesis by (auto simp: val_mag)
qed

lemma by_sign_cases: "s = 1 \<Longrightarrow> by_sign b s = (if b then 1 else - 1)" "s = - 1 \<Longrightarrow> by_sign b s = (if b then - 1 else 1)"
  by (simp_all add: by_sign_def)

lemma cmp_mag:
  assumes "norm_digits (d_d x)" "norm_digits (d_d y)" "d_s x = d_s y"
  shows "cmp x y = (if mag x = mag y then 0 else by_sign (mag x > mag y) (d_s x))"
proof (cases "d_e x = d_e y")
  case True
  have "cmp_digits (d_s x) (d_d x) (d_d y) = (if fv (d_d x) = fv (d_d y) then 0 else by_sign (fv (d_d x) > fv (d_d y)) (d_s x))"
    using assms by (intro cmp_digits_result) (auto simp: norm_digits_def)
  moreover have "mag x = mag y \<longleftrightarrow> fv (d_d x) = fv (d_d y)" "mag x > mag y \<longleftrightarrow> fv (d_d x) > fv (d_d y)"
    using True by (simp_all add: mag_def mult_less_cancel_right not_less)
  ultimately show ?thesis using True assms(3) by (simp add: cmp_def)
next
  case False
  then consider "d_e x < d_e y" | "d_e y < d_e x" by linarith
  then show ?thesis
  proof cases
    case 1
    then have "mag x < mag y" unfolding mag_def by (intro exponent_decides assms)
    then show ?thesis using 1 assms(3) by (simp add: cmp_def)
  next
    case 2
    then have "mag y < mag x" unfolding mag_def by (intro exponent_decides assms)
    then show ?thesis using 2 assms(3) by (simp add: cmp_def)
  qed
qed

text \<open>Comparing is the order of the rational numbers.\<close>

lemma cmp_value:
  assumes "valid x" "valid y"
  shows "of_int (cmp x y) = sgn (val x - val y)"
proof (cases "d_s x = d_s y")
  case False
  then show ?thesis using val_sign [OF assms(1)] val_sign [OF assms(2)]
    by (auto simp: cmp_def sgn_if)
next
  case True
  show ?thesis
  proof (cases "d_s x = 0")
    case True
    then have "x = zero_dec" "y = zero_dec" using assms \<open>d_s x = d_s y\<close> by (auto simp: valid_def)
    then show ?thesis by (simp add: cmp_def zero_dec_def)
  next
    case False
    then have n: "norm_digits (d_d x)" "norm_digits (d_d y)" and s: "d_s x = 1 \<or> d_s x = - 1"
      using assms True by (auto simp: valid_def zero_dec_def)
    show ?thesis
      using s True by (auto simp: cmp_mag [OF n True] by_sign_cases val_mag sgn_if)
  qed
qed

section \<open>Products\<close>

text \<open>The integer of a list of digits.\<close>

fun nv :: "int list \<Rightarrow> int" where
  "nv [] = 0"
| "nv (d # ds) = d * Kr ^ length ds + nv ds"

lemma nv_append [simp]: "nv (xs @ ys) = nv xs * Kr ^ length ys + nv ys"
  by (induction xs) (simp_all add: algebra_simps power_add)

lemma nv_replicate [simp]: "nv (replicate n 0) = 0"
  by (induction n) simp_all

lemma nv_update: "i < length xs \<Longrightarrow> nv (xs[i := y]) = nv xs + (y - xs ! i) * Kr ^ (length xs - 1 - i)"
proof (induction xs arbitrary: i)
  case (Cons x xs)
  then show ?case by (cases i) (auto simp: algebra_simps)
qed simp

lemma fv_nv: "ds \<noteq> [] \<Longrightarrow> fv ds * of_int Kr ^ (length ds - 1) = of_int (nv ds)"
proof (induction ds)
  case (Cons d ds)
  show ?case
  proof (cases ds)
    case Nil
    then show ?thesis by simp
  next
    case (Cons x xs)
    then have "of_int Kr ^ length ds = of_int Kr * (of_int Kr ^ (length ds - 1) :: rat)" by simp
    then show ?thesis using Cons.IH Cons by (simp add: field_simps)
  qed
qed simp

lemma nv_take: "i < length xs \<Longrightarrow> nv (take (Suc i) xs) = nv (take i xs) * Kr + xs ! i"
  by (simp add: take_Suc_conv_app_nth)

lemma int_div_less: "b < k * u \<Longrightarrow> 0 < u \<Longrightarrow> b div u < (k :: int)"
proof -
  assume a: "b < k * u" "0 < u"
  have "b div u * u \<le> b" using div_mult_mod_eq [of b u] pos_mod_sign [OF a(2), of b] by linarith
  then have "b div u * u < k * u" using a(1) by linarith
  then show ?thesis using a(2) by (simp add: mult_less_cancel_right)
qed

text \<open>Every number of the inner loop is below \<open>2 ^ 53\<close>, and what it stores are digits.\<close>

lemma row_step:
  assumes "digit a" "digit w" "digit x" "digit t"
  shows "0 \<le> a + w * x + t" "a + w * x + t < Kr * Kr" "digit ((a + w * x + t) div Kr)" "digit ((a + w * x + t) mod Kr)"
proof -
  have "0 \<le> w * x" using assms by (simp add: digit_def)
  then show p: "0 \<le> a + w * x + t" using assms by (simp add: digit_def)
  have "w * x \<le> (Kr - 1) * (Kr - 1)" using assms by (intro mult_mono) (auto simp: digit_def)
  then have "a + w * x + t \<le> (Kr - 1) + (Kr - 1) * (Kr - 1) + (Kr - 1)" using assms by (simp add: digit_def)
  also have "\<dots> < Kr * Kr" by (simp add: algebra_simps)
  finally show b: "a + w * x + t < Kr * Kr" .
  show "digit ((a + w * x + t) div Kr)"
    using p int_div_less [OF b] by (simp add: digit_def pos_imp_zdiv_nonneg_iff)
  show "digit ((a + w * x + t) mod Kr)" by (simp add: digit_def)
qed

lemma row_result:
  assumes "i \<le> c" "c < length s" "list_all digit s" "list_all digit E" "digit wi" "digit t" "c - i \<le> length E"
    "row wi E i c t s = (s', t')"
  shows "length s' = length s \<and> list_all digit s' \<and> digit t' \<and> (\<forall>j \<le> i. s' ! j = s ! j) \<and>
    nv s' + t' * Kr ^ (length s - 1 - i) = nv s + (t + wi * nv (take (c - i) E)) * Kr ^ (length s - 1 - c)"
  using assms
proof (induction wi E i c t s arbitrary: s' t' rule: row.induct)
  case (1 wi E i c t s)
  show ?case
  proof (cases "i < c")
    case False
    then have "c = i" using 1(2) by simp
    then show ?thesis using 1 by (simp add: row.simps [of wi E i])
  next
    case True
    define y where "y = s ! c + wi * E ! (c - i - 1) + t"
    have d: "digit (s ! c)" "digit (E ! (c - i - 1))" using 1(3-5,8) True by (auto simp: list_all_length)
    note st = row_step [OF d(1) 1(6) d(2) 1(7), folded y_def]
    have r: "row wi E i (c - 1) (y div Kr) (s[c := y mod Kr]) = (s', t')"
      using 1(9) True by (subst (asm) row.simps) (simp add: y_def Let_def)
    have l: "list_all digit (s[c := y mod Kr])" using 1(4) st(4) by (auto simp: list_all_iff dest!: set_update_subset_insert [THEN subsetD])
    have ih: "length s' = length (s[c := y mod Kr]) \<and> list_all digit s' \<and> digit t' \<and> (\<forall>j \<le> i. s' ! j = s[c := y mod Kr] ! j) \<and>
      nv s' + t' * Kr ^ (length (s[c := y mod Kr]) - 1 - i) =
      nv (s[c := y mod Kr]) + (y div Kr + wi * nv (take (c - 1 - i) E)) * Kr ^ (length (s[c := y mod Kr]) - 1 - (c - 1))"
    proof (rule 1(1) [OF True y_def _ _ l 1(5,6) st(3) _ r])
      show "i \<le> c - 1" "c - 1 < length (s[c := y mod Kr])" "c - 1 - i \<le> length E"
        using 1(3,8) True by simp_all
    qed
    have e: "Kr ^ (length s - 1 - (c - 1)) = Kr * Kr ^ (length s - 1 - c)"
      using True 1(3) by (simp flip: power_Suc add: Suc_diff_Suc)
    have tk: "nv (take (c - i) E) = nv (take (c - 1 - i) E) * Kr + E ! (c - i - 1)"
      using nv_take [of "c - i - 1" E] True 1(8) by (simp add: Suc_diff_Suc diff_right_commute)
    have "nv (s[c := y mod Kr]) + (y div Kr + wi * nv (take (c - 1 - i) E)) * (Kr * Kr ^ (length s - 1 - c)) =
      nv s + (y mod Kr - s ! c + (y div Kr) * Kr + wi * (nv (take (c - 1 - i) E) * Kr)) * Kr ^ (length s - 1 - c)"
      by (subst nv_update [OF 1(3)]) (simp only: algebra_simps)
    also have "y mod Kr - s ! c + (y div Kr) * Kr = wi * E ! (c - i - 1) + t"
      using div_mult_mod_eq [of y Kr] y_def by linarith
    finally have "nv (s[c := y mod Kr]) + (y div Kr + wi * nv (take (c - 1 - i) E)) * (Kr * Kr ^ (length s - 1 - c)) =
      nv s + (t + wi * nv (take (c - i) E)) * Kr ^ (length s - 1 - c)"
      by (simp add: tk algebra_simps)
    then show ?thesis using ih e True by auto
  qed
qed

lemma rows_result:
  assumes "n \<le> length w" "length s = length E + length w" "list_all digit s" "list_all digit E" "list_all digit w"
    "\<forall>j < n. s ! j = 0" "n = 0 \<longrightarrow> digit t \<and> t = s ! 0" "0 < length E" "0 < length w"
    "rows w E n t s = (s', t')"
  shows "length s' = length s \<and> list_all digit s' \<and> digit t' \<and> t' = s' ! 0 \<and>
    nv s' = nv s + nv (take n w) * nv E * Kr ^ (length w - n)"
  using assms
proof (induction w E n t s arbitrary: s' t' rule: rows.induct)
  case (1 w E t s)
  then show ?case by (auto simp del: length_greater_0_conv)
next
  case (2 w E i t s)
  obtain s1 t1 where r: "row (w ! i) E i (length E + i) 0 s = (s1, t1)" by (cases "row (w ! i) E i (length E + i) 0 s")
  define s2 where "s2 = s1[i := (s1 ! i + t1) mod Kr]"
  have b: "i \<le> length E + i" "length E + i < length s" "length E + i - i \<le> length E" "i < length s" using 2(2,3) by simp_all
  have "digit (w ! i)" using 2(2,6) by (auto simp: list_all_length)
  moreover have "digit 0" by (simp add: digit_def)
  ultimately have rr: "length s1 = length s" "list_all digit s1" "digit t1" "\<forall>j \<le> i. s1 ! j = s ! j"
    "nv s1 + t1 * Kr ^ (length s - 1 - i) = nv s + (0 + w ! i * nv (take (length E + i - i) E)) * Kr ^ (length s - 1 - (length E + i))"
    using row_result [OF b(1,2) 2(4,5) _ _ b(3) r] by simp_all
  have z: "s1 ! i = 0" using rr(4) 2(7) by simp
  have s2: "s2 = s1[i := t1]" using rr(3) z by (simp add: s2_def digit_def)
  have d2: "list_all digit s2" using rr(2,3) unfolding s2 by (auto simp: list_all_iff dest!: set_update_subset_insert [THEN subsetD])
  have v2: "nv s2 = nv s + w ! i * nv E * Kr ^ (length w - Suc i)"
    using rr(5) z b(4) rr(1) 2(3) by (simp add: s2 nv_update)
  have ih: "length s' = length s2 \<and> list_all digit s' \<and> digit t' \<and> t' = s' ! 0 \<and>
    nv s' = nv s2 + nv (take i w) * nv E * Kr ^ (length w - i)"
  proof (rule 2(1) [OF r [symmetric] refl _ _ d2 [unfolded s2_def] 2(5,6), folded s2_def])
    show "i \<le> length w" "length s2 = length E + length w" using 2(2,3) rr(1) by (simp_all add: s2)
    show "\<forall>j < i. s2 ! j = 0" using rr(4) 2(7) by (simp add: s2)
    show "i = 0 \<longrightarrow> digit t1 \<and> t1 = s2 ! 0" using rr(1,3) b(4) by (auto simp: s2)
    show "0 < length E" "0 < length w" using 2(9,10) by auto
    show "rows w E i t1 s2 = (s', t')" using 2(11) r by (simp add: s2_def)
  qed
  have e: "Kr ^ (length w - i) = Kr * Kr ^ (length w - Suc i)" using 2(2) by (simp flip: power_Suc add: Suc_diff_Suc)
  have "nv (take (Suc i) w) = nv (take i w) * Kr + w ! i" using 2(2) by (intro nv_take) simp
  then have "nv s2 + nv (take i w) * nv E * Kr ^ (length w - i) = nv s + nv (take (Suc i) w) * nv E * Kr ^ (length w - Suc i)"
    unfolding v2 e by (simp only: algebra_simps)
  moreover have "length s2 = length s" using rr(1) by (simp add: s2)
  ultimately show ?case using ih by metis
qed

text \<open>What the trailing zeros leave\<close>

lemma strip_Nil [simp]: "strip [] = []"
  by (simp add: strip_def)

lemma strip_Cons: "strip (d # ds) = (if strip ds = [] \<and> d = 0 then [] else d # strip ds)"
  by (auto simp: strip_def dropWhile_append)

lemma strip_facts: "fv (strip ds) = fv ds" "list_all digit ds \<Longrightarrow> list_all digit (strip ds)" "strip ds \<noteq> [] \<Longrightarrow> last (strip ds) \<noteq> 0"
  by (induction ds) (auto simp: strip_Cons split: if_splits)

lemma strip_leading: "d \<noteq> 0 \<Longrightarrow> list_all digit (d # ds) \<Longrightarrow> norm_digits (strip (d # ds))"
  using strip_facts(2,3) [of "d # ds"] by (auto simp: norm_digits_def strip_Cons)

lemma nv_bounds: "list_all digit ds \<Longrightarrow> 0 \<le> nv ds \<and> nv ds < Kr ^ length ds"
proof (induction ds)
  case (Cons d ds)
  then have "(d + 1) * Kr ^ length ds \<le> Kr * Kr ^ length ds" by (intro mult_right_mono) (auto simp: digit_def)
  then show ?case using Cons by (auto simp: digit_def algebra_simps)
qed simp

lemma nv_leading: "norm_digits ds \<Longrightarrow> Kr ^ (length ds - 1) \<le> nv ds"
proof (cases ds)
  case (Cons d ds')
  assume "norm_digits ds"
  then have d: "1 \<le> d" "0 \<le> nv ds'" using Cons nv_bounds [of ds'] by (auto simp: norm_digits_def digit_def)
  have "1 * Kr ^ length ds' \<le> d * Kr ^ length ds'" by (rule mult_right_mono [OF d(1)]) (simp add: Kr_def)
  then have "Kr ^ length ds' \<le> d * Kr ^ length ds' + nv ds'" using d(2) by linarith
  then show ?thesis using Cons by simp
qed (simp add: norm_digits_def)

text \<open>The digits of a product.\<close>

lemma product_digits:
  assumes "norm_digits E" "norm_digits w" "rows w E (length w) 0 (replicate (length E + length w) 0) = (s, t)"
  shows "fv s = fv E * fv w / of_int Kr \<and> (t \<noteq> 0 \<longrightarrow> norm_digits (strip s)) \<and>
    (t = 0 \<longrightarrow> norm_digits (tl (strip s)) \<and> fv (tl (strip s)) = fv E * fv w)"
proof -
  have ne: "E \<noteq> []" "w \<noteq> []" and dg: "list_all digit E" "list_all digit w" using assms by (auto simp: norm_digits_def)
  have z: "list_all digit (replicate (length E + length w) 0)" by (simp add: list_all_iff digit_def)
  have r: "length s = length E + length w" "list_all digit s" "digit t" "t = s ! 0" "nv s = nv w * nv E"
    using rows_result [OF le_refl length_replicate z dg _ _ _ _ assms(3)] ne by auto
  obtain d s' where s: "s = d # s'" using r(1) ne by (cases s) auto
  have k: "Kr ^ (length s - 1) = Kr * (Kr ^ (length E - 1) * Kr ^ (length w - 1))"
    using ne r(1) by (cases E; cases w) (simp_all add: power_add)
  have "(of_int (nv s) :: rat) = of_int (nv E) * of_int (nv w)" using r(5) by (simp add: mult.commute)
  then have "fv s * of_int (Kr ^ (length s - 1)) = fv E * fv w * of_int (Kr ^ (length E - 1) * Kr ^ (length w - 1))"
    using fv_nv [of s] fv_nv [OF ne(1), symmetric] fv_nv [OF ne(2), symmetric] s by (simp add: mult_ac del: fv.simps nv.simps)
  then have "fv s * of_int Kr * of_int (Kr ^ (length E - 1) * Kr ^ (length w - 1)) =
    fv E * fv w * of_int (Kr ^ (length E - 1) * Kr ^ (length w - 1))"
    unfolding k by (simp only: of_int_mult mult.assoc)
  then have "fv s * of_int Kr = fv E * fv w" by (rule mult_right_cancel [THEN iffD1, rotated]) simp
  then have f: "fv s = fv E * fv w / of_int Kr" by (simp add: field_simps)
  have "d \<noteq> 0 \<Longrightarrow> norm_digits (strip s)" using strip_leading r(2) unfolding s by blast
  moreover have "norm_digits (tl (strip s)) \<and> fv (tl (strip s)) = fv E * fv w" if d: "d = 0"
  proof -
    have n: "nv s' = nv w * nv E" "list_all digit s'" "length s' = length E + length w - 1" using r s d by simp_all
    then obtain x s'' where s': "s' = x # s''" using ne by (cases s'; cases E; cases w) auto
    have "Kr ^ (length w - 1) * Kr ^ (length E - 1) \<le> nv w * nv E"
      using nv_leading [OF assms(1)] nv_leading [OF assms(2)] nv_bounds [OF dg(2)] by (intro mult_mono) auto
    moreover have "length s'' = length w - 1 + (length E - 1)" using n(3) s' ne by (cases E; cases w) auto
    ultimately have "Kr ^ length s'' \<le> nv s'" using n(1) by (simp add: power_add)
    then have x: "x \<noteq> 0" using nv_bounds [of s''] n(2) s' by auto
    then have t: "tl (strip s) = strip s'" using s d s' by (simp add: strip_Cons)
    have "fv s' = fv E * fv w" using f s d by simp
    then show ?thesis using t strip_leading [OF x] n(2) s' strip_facts(1) by simp
  qed
  ultimately show ?thesis using f r(4) s by simp
qed

text \<open>The product is exact when the switch is off.\<close>

lemma times_value:
  assumes "valid x" "valid y" "1 \<le> p"
  obtains r where "times kn p x y = rounded kn p r" "valid r" "val r = val x * val y"
proof (cases "d_s x = 0 \<or> d_s y = 0")
  case True
  then have "times kn p x y = rounded kn p zero_dec" "val x * val y = 0"
    using rounded_zero [OF assms(3)] by (auto simp: times_def val_def)
  then show ?thesis using that [of zero_dec] by (simp add: valid_def)
next
  case False
  then have n: "norm_digits (d_d x)" "norm_digits (d_d y)" and sg: "d_s x \<in> {1, - 1}" "d_s y \<in> {1, - 1}"
    using assms by (auto simp: valid_def zero_dec_def)
  define E w where "E = (if length (d_d x) < length (d_d y) then d_d y else d_d x)"
    and "w = (if length (d_d x) < length (d_d y) then d_d x else d_d y)"
  obtain s t where r: "rows w E (length w) 0 (replicate (length E + length w) 0) = (s, t)" by fastforce
  have nn: "norm_digits E" "norm_digits w" and f: "fv E * fv w = fv (d_d x) * fv (d_d y)" using n by (simp_all add: E_def w_def)
  note pd = product_digits [OF nn r, unfolded f]
  define z where "z = \<lparr>d_s = d_s x * d_s y, d_e = (if t \<noteq> 0 then d_e x + d_e y + 1 else d_e x + d_e y),
    d_d = (if t \<noteq> 0 then strip s else tl (strip s))\<rparr>"
  have "times kn p x y = rounded kn p z"
    using False r by (simp add: times_def z_def E_def w_def Let_def split: prod.splits if_splits)
  moreover have "valid z" using pd sg by (auto simp: valid_def z_def)
  moreover have "val z = val x * val y"
    using pd by (simp add: val_def z_def strip_facts(1) power_int_add mult_ac)
  ultimately show ?thesis by (rule that)
qed

section \<open>Sums\<close>

text \<open>A shorter list of digits at the scale of a longer one\<close>

lemma fv_nv_pad:
  assumes "ds \<noteq> []" "length ds \<le> n"
  shows "of_int (nv ds * Kr ^ (n - length ds)) = fv ds * of_int Kr ^ (n - 1)"
proof -
  have "n - 1 = (length ds - 1) + (n - length ds)" using assms by (cases ds) auto
  then show ?thesis using fv_nv [OF assms(1)] by (simp add: power_add mult.assoc [symmetric])
qed

lemma add_words_result:
  assumes "n \<le> length g" "n \<le> length b" "list_all digit g" "list_all digit b" "a \<in> {0, 1}" "add_words n a g b = (g', a')"
  shows "length g' = length g \<and> list_all digit g' \<and> a' \<in> {0, 1} \<and>
    nv g' + a' * Kr ^ length g = nv g + (nv (take n b) + a) * Kr ^ (length g - n)"
  using assms
proof (induction n a g b arbitrary: g' a' rule: add_words.induct)
  case (1 a g b)
  then show ?case by simp
next
  case (2 s a g b)
  define y where "y = g ! s + b ! s + a"
  have d: "digit (g ! s)" "digit (b ! s)" using 2(2-5) by (auto simp: list_all_length)
  have y: "0 \<le> y" "y < 2 * Kr" using d 2(6) by (auto simp: y_def digit_def)
  then have q: "y div Kr \<in> {0, 1}" by (auto simp: Kr_def)
  have l: "list_all digit (g[s := y mod Kr])"
    using 2(4) by (auto simp: list_all_iff digit_def dest!: set_update_subset_insert [THEN subsetD])
  have ih: "length g' = length (g[s := y mod Kr]) \<and> list_all digit g' \<and> a' \<in> {0, 1} \<and>
    nv g' + a' * Kr ^ length (g[s := y mod Kr]) =
    nv (g[s := y mod Kr]) + (nv (take s b) + y div Kr) * Kr ^ (length (g[s := y mod Kr]) - s)"
    using 2(2,3,7) by (intro 2(1) [OF y_def _ _ l 2(5) q]) (simp_all add: y_def Let_def)
  have e: "Kr ^ (length g - s) = Kr * Kr ^ (length g - Suc s)" using 2(2) by (simp flip: power_Suc add: Suc_diff_Suc)
  have tk: "nv (take (Suc s) b) = nv (take s b) * Kr + b ! s" using 2(3) by (intro nv_take) simp
  have "nv (g[s := y mod Kr]) = nv g + (y mod Kr - g ! s) * Kr ^ (length g - Suc s)" using 2(2) by (simp add: nv_update)
  then have "nv (g[s := y mod Kr]) + (nv (take s b) + y div Kr) * (Kr * Kr ^ (length g - Suc s)) =
    nv g + (y mod Kr + y div Kr * Kr - g ! s + nv (take s b) * Kr) * Kr ^ (length g - Suc s)"
    by (simp only: algebra_simps)
  also have "y mod Kr + y div Kr * Kr - g ! s + nv (take s b) * Kr = nv (take (Suc s) b) + a"
    using div_mult_mod_eq [of y Kr] tk y_def by linarith
  finally show ?case using ih e by simp
qed

lemma add_digits:
  assumes "g \<noteq> []" "b \<noteq> []" "length b \<le> length g" "list_all digit g" "list_all digit b" "add_words (length b) 0 g b = (g', a)"
  shows "g' \<noteq> []" "list_all digit g'" "a \<in> {0, 1}" "fv g' + of_int a * of_int Kr = fv g + fv b"
proof -
  note r = add_words_result [OF assms(3) le_refl assms(4,5) _ assms(6), simplified]
  show g': "g' \<noteq> []" "list_all digit g'" "a \<in> {0, 1}" using r assms(1) by auto
  have "of_int Kr ^ length g = of_int Kr * (of_int Kr ^ (length g - 1) :: rat)" using assms(1) by (cases g) auto
  moreover have "nv g' + a * Kr ^ length g = nv g + nv b * Kr ^ (length g - length b)" using r by blast
  then have "(of_int (nv g' + a * Kr ^ length g) :: rat) = of_int (nv g + nv b * Kr ^ (length g - length b))" by presburger
  then have "(of_int (nv g') :: rat) + of_int a * of_int Kr ^ length g = of_int (nv g) + of_int (nv b * Kr ^ (length g - length b))"
    by simp
  ultimately have "(fv g' + of_int a * of_int Kr) * of_int Kr ^ (length g - 1) = (fv g + fv b) * of_int Kr ^ (length g - 1)"
    using fv_nv [OF g'(1)] fv_nv [OF assms(1)] fv_nv_pad [OF assms(2,3)] r by (simp add: algebra_simps del: of_int_mult of_int_power)
  then show "fv g' + of_int a * of_int Kr = fv g + fv b" by (rule mult_right_cancel [THEN iffD1, rotated]) simp
qed

text \<open>The zeros that align two numbers\<close>

lemma fv_zeros: "fv (replicate k 0 @ ds) = fv ds / of_int Kr ^ k"
  by (induction k) (simp_all add: field_simps)

lemma shift_right_facts:
  assumes "0 \<le> gap" "gap \<le> limit" "list_all digit ds"
  shows "fv (shift_right gap limit ds) * of_int Kr powi (e + gap) = fv ds * of_int Kr powi e"
    "list_all digit (shift_right gap limit ds)" "ds \<noteq> [] \<Longrightarrow> shift_right gap limit ds \<noteq> []"
    "j < nat gap \<Longrightarrow> shift_right gap limit ds ! j = 0" "nat gap \<le> length (shift_right gap limit ds)"
proof -
  have "of_int Kr powi (e + gap) = of_int Kr powi e * (of_int Kr ^ nat gap :: rat)"
    using assms(1) power_int_of_nat [of "of_int Kr :: rat" "nat gap"] by (simp add: power_int_add del: power_int_of_nat)
  then show "fv (shift_right gap limit ds) * of_int Kr powi (e + gap) = fv ds * of_int Kr powi e"
    using assms(2) by (simp add: shift_right_def fv_zeros)
  show "list_all digit (shift_right gap limit ds)" using assms by (auto simp: shift_right_def list_all_iff digit_def)
  show "ds \<noteq> [] \<Longrightarrow> shift_right gap limit ds \<noteq> []" using assms by (simp add: shift_right_def)
  show "j < nat gap \<Longrightarrow> shift_right gap limit ds ! j = 0" using assms by (simp add: shift_right_def nth_append)
  show "nat gap \<le> length (shift_right gap limit ds)" using assms by (simp add: shift_right_def)
qed

text \<open>The gap between two exponents that the precision has room for\<close>

definition near :: "int \<Rightarrow> dec \<Rightarrow> dec \<Rightarrow> bool" where
  "near precision x y \<longleftrightarrow> \<bar>d_e x - d_e y\<bar> \<le> (precision + qn - 1) div qn + 1"

lemma GB_value:
  assumes "d_s e \<in> {1, - 1}" "d_s t = d_s e" "norm_digits (d_d e)" "norm_digits (d_d t)" "near precision e t"
  obtains r where "GB kn precision e t = rounded kn precision r" "valid r" "val r = val e + val t"
proof -
  define gap where "gap = d_e e - d_e t"
  define limit where "limit = (\<lambda>y. max ((precision + qn - 1) div qn) y + 1)"
  define g where "g = (if gap < 0 then shift_right (- gap) (limit (int (length (d_d t)))) (d_d e) else d_d e)"
  define b where "b = (if gap > 0 then shift_right gap (limit (int (length (d_d e)))) (d_d t) else d_d t)"
  define c where "c = (if gap > 0 then d_e e else d_e t)"
  define g1 b1 where "g1 = (if length g < length b then b else g)" and "b1 = (if length g < length b then g else b)"
  obtain g2 a where ad: "add_words (length b1) 0 g1 b1 = (g2, a)" by fastforce
  have lim: "\<bar>gap\<bar> \<le> limit y" for y using assms(5) by (simp add: near_def gap_def limit_def)
  have lims: "- gap \<le> limit y" "gap \<le> limit y" for y using lim [of y] by linarith+
  have n: "d_d e \<noteq> []" "d_d t \<noteq> []" "list_all digit (d_d e)" "list_all digit (d_d t)" using assms(3,4) by (auto simp: norm_digits_def)
  have g: "fv g * of_int Kr powi c = mag e" "list_all digit g" "g \<noteq> []"
    using shift_right_facts(1) [OF _ lims(1) n(3), where e = "d_e e"] shift_right_facts(2,3) [OF _ lims(1) n(3)] n(1,3) by (auto simp: g_def c_def mag_def gap_def)
  have b: "fv b * of_int Kr powi c = mag t" "list_all digit b" "b \<noteq> []"
    using shift_right_facts(1) [OF _ lims(2) n(4), where e = "d_e t"] shift_right_facts(2,3) [OF _ lims(2) n(4)] n(2,4) by (auto simp: b_def c_def mag_def gap_def)
  have o: "g1 \<noteq> []" "b1 \<noteq> []" "length b1 \<le> length g1" "list_all digit g1" "list_all digit b1" "fv g1 + fv b1 = fv g + fv b"
    using g b by (auto simp: g1_def b1_def)
  note s = add_digits [OF o(1-5) ad, unfolded o(6)]
  have one: "1 \<le> fv g + fv b"
  proof (cases "gap < 0")
    case True
    then have "1 \<le> fv b" using fv_one [OF assms(4)] by (simp add: b_def)
    then show ?thesis using fv_bounds [OF g(2)] by linarith
  next
    case False
    then have "1 \<le> fv g" using fv_one [OF assms(3)] by (simp add: g_def)
    then show ?thesis using fv_bounds [OF b(2)] by linarith
  qed
  define g3 where "g3 = (if a \<noteq> 0 then a # g2 else g2)"
  define r where "r = t\<lparr>d_d := strip g3, d_e := (if a \<noteq> 0 then c + 1 else c)\<rparr>"
  have eq: "GB kn precision e t = rounded kn precision r"
    using assms(1,2) ad unfolding GB_def r_def g3_def g1_def b1_def g_def b_def c_def gap_def limit_def
    by (auto simp: Let_def)
  have "norm_digits (strip g3)"
  proof (cases "a = 0")
    case True
    obtain x xs where x: "g2 = x # xs" using s(1) by (cases g2) auto
    have "list_all digit xs" using s(2) x by simp
    then have "fv xs / of_int Kr < 1" using fv_rest by blast
    moreover have "of_int x + fv xs / of_int Kr = fv g + fv b" using s(4) x True by simp
    ultimately have "0 < (of_int x :: rat)" using one by linarith
    then have "x \<noteq> 0" by simp
    then show ?thesis using strip_leading [of x xs] s(2) x True by (simp add: g3_def)
  next
    case False
    then show ?thesis using strip_leading [of a g2] s(2,3) by (auto simp: g3_def digit_def)
  qed
  then have "valid r" using assms(1,2) by (simp add: valid_def r_def)
  moreover have "fv g3 * of_int Kr powi d_e r = (fv g2 + of_int a * of_int Kr) * of_int Kr powi c"
    by (simp add: g3_def r_def power_int_add field_simps)
  then have "mag r = (fv g2 + of_int a * of_int Kr) * of_int Kr powi c" by (simp add: mag_def r_def strip_facts(1))
  then have "mag r = mag e + mag t" unfolding s(4) distrib_right g(1) b(1) .
  then have "val r = val e + val t" using assms(2) by (simp add: val_mag r_def algebra_simps)
  ultimately show ?thesis using that eq by blast
qed

section \<open>Differences\<close>

lemma borrow_result:
  "s \<le> length g \<Longrightarrow> list_all digit g \<Longrightarrow> 0 < nv (take s g) \<Longrightarrow>
    length (borrow s g) = length g \<and> list_all digit (borrow s g) \<and> nv (take s (borrow s g)) = nv (take s g) - 1 \<and>
    (\<forall>j \<ge> s. borrow s g ! j = g ! j)"
proof (induction s arbitrary: g)
  case (Suc s)
  have tk: "nv (take (Suc s) g) = nv (take s g) * Kr + g ! s" using Suc.prems(1) by (intro nv_take) simp
  have d: "digit (g ! s)" using Suc.prems(1,2) by (auto simp: list_all_length)
  show ?case
  proof (cases "g ! s = 0")
    case True
    let ?h = "g[s := Kr - 1]"
    have "0 < nv (take s g)" using Suc.prems(3) tk True by (simp add: zero_less_mult_iff)
    moreover have "list_all digit ?h"
      using Suc.prems(2) by (auto simp: list_all_iff digit_def dest!: set_update_subset_insert [THEN subsetD])
    ultimately have ih: "length (borrow s ?h) = length g" "list_all digit (borrow s ?h)"
      "nv (take s (borrow s ?h)) = nv (take s g) - 1" "\<forall>j \<ge> s. borrow s ?h ! j = ?h ! j"
      using Suc.IH [of ?h] Suc.prems(1) by simp_all
    have "nv (take (Suc s) (borrow s ?h)) = nv (take s (borrow s ?h)) * Kr + borrow s ?h ! s"
      using Suc.prems(1) ih(1) by (intro nv_take) simp
    then have "nv (take (Suc s) (borrow s ?h)) = nv (take (Suc s) g) - 1"
      using ih(3,4) tk True Suc.prems(1) by (simp add: algebra_simps)
    then show ?thesis using ih True by auto
  next
    case False
    let ?h = "g[s := g ! s - 1]"
    have "list_all digit ?h"
      using Suc.prems(2) d False by (auto simp: list_all_iff digit_def dest!: set_update_subset_insert [THEN subsetD])
    moreover have "nv (take (Suc s) ?h) = nv (take s ?h) * Kr + ?h ! s" using Suc.prems(1) by (intro nv_take) simp
    then have "nv (take (Suc s) ?h) = nv (take (Suc s) g) - 1" using tk Suc.prems(1) by simp
    ultimately show ?thesis using False by simp
  qed
qed simp

lemma nv_take_zeros: "\<forall>j < n. S ! j = 0 \<Longrightarrow> n \<le> length S \<Longrightarrow> nv (take n S) = 0"
  by (induction n) (simp_all add: nv_take)

lemma sub_words_result:
  assumes "n \<le> length g" "n \<le> length S" "list_all digit g" "list_all digit S" "nv (take n S) \<le> nv (take n g)" "\<forall>j < h. S ! j = 0"
  shows "length (sub_words n h g S) = length g \<and> list_all digit (sub_words n h g S) \<and>
    nv (take n (sub_words n h g S)) = nv (take n g) - nv (take n S) \<and> (\<forall>j \<ge> n. sub_words n h g S ! j = g ! j)"
  using assms
proof (induction n h g S rule: sub_words.induct)
  case (1 h g S)
  then show ?case by simp
next
  case (2 c h g S)
  show ?case
  proof (cases "Suc c > h")
    case False
    then have "nv (take (Suc c) S) = 0" using 2(3,7) by (intro nv_take_zeros) auto
    then show ?thesis using False 2(4) by simp
  next
    case True
    have tk: "nv (take (Suc c) g) = nv (take c g) * Kr + g ! c" "nv (take (Suc c) S) = nv (take c S) * Kr + S ! c"
      using 2(2,3) by (simp_all add: nv_take)
    have d: "digit (g ! c)" "digit (S ! c)" using 2(2-5) by (auto simp: list_all_length)
    define k where "k = (if g ! c < S ! c then 1 else 0 :: int)"
    define g1 where "g1 = (if g ! c < S ! c then (let b = borrow c g in b[c := b ! c + Kr]) else g)"
    define g2 where "g2 = g1[c := g1 ! c - S ! c]"
    have le: "nv (take c S) + k \<le> nv (take c g)"
    proof -
      have "nv (take c S) * Kr + S ! c \<le> nv (take c g) * Kr + g ! c" using 2(6) tk by simp
      moreover have "0 \<le> S ! c" "g ! c < Kr" using d by (simp_all add: digit_def)
      ultimately have "(nv (take c S) - 1) * Kr < nv (take c g) * Kr"
        and "g ! c < S ! c \<longrightarrow> nv (take c S) * Kr < nv (take c g) * Kr"
        unfolding left_diff_distrib mult_1 by linarith+
      then have "nv (take c S) - 1 < nv (take c g)" "g ! c < S ! c \<longrightarrow> nv (take c S) < nv (take c g)"
        by (simp_all add: mult_less_cancel_right)
      then show ?thesis unfolding k_def by (cases "g ! c < S ! c") simp_all
    qed
    have z: "0 \<le> nv (take c S)" using nv_bounds [of "take c S"] 2(5) by (auto simp: list_all_iff dest: in_set_takeD)
    have g2: "length g2 = length g" "list_all digit g2" "nv (take c g2) = nv (take c g) - k"
      "g2 ! c = g ! c + k * Kr - S ! c" "\<forall>j > c. g2 ! j = g ! j"
    proof -
      have b: "length (borrow c g) = length g \<and> list_all digit (borrow c g) \<and> nv (take c (borrow c g)) = nv (take c g) - 1 \<and>
        (\<forall>j \<ge> c. borrow c g ! j = g ! j)" if "g ! c < S ! c"
        using borrow_result [of c g] 2(2,4) le z that by (simp add: k_def)
      show l: "length g2 = length g" and "nv (take c g2) = nv (take c g) - k" and v: "g2 ! c = g ! c + k * Kr - S ! c"
        and "\<forall>j > c. g2 ! j = g ! j"
        using b 2(2) by (auto simp: g2_def g1_def k_def Let_def)
      have "digit (g2 ! c)" using v d by (cases "g ! c < S ! c") (auto simp: k_def digit_def)
      moreover have "digit (g2 ! j)" if "j \<noteq> c" "j < length g" for j
        using that b 2(4) by (auto simp: g2_def g1_def Let_def list_all_length)
      ultimately show "list_all digit g2" unfolding list_all_length l by metis
    qed
    have ih: "length (sub_words c h g2 S) = length g2 \<and> list_all digit (sub_words c h g2 S) \<and>
      nv (take c (sub_words c h g2 S)) = nv (take c g2) - nv (take c S) \<and> (\<forall>j \<ge> c. sub_words c h g2 S ! j = g2 ! j)"
      using 2(2,3,7) le g2 unfolding g2_def by (intro 2(1) [OF True g1_def _ _ _ 2(5)]) simp_all
    have sw: "sub_words (Suc c) h g S = sub_words c h g2 S" using True by (simp add: g1_def g2_def Let_def)
    have "nv (take (Suc c) (sub_words c h g2 S)) = nv (take c (sub_words c h g2 S)) * Kr + sub_words c h g2 S ! c"
      using ih g2(1) 2(2) by (intro nv_take) simp
    also have "\<dots> = (nv (take c g) - k - nv (take c S)) * Kr + (g ! c + k * Kr - S ! c)" using ih g2(3,4) by simp
    also have "\<dots> = nv (take (Suc c) g) - nv (take (Suc c) S)" unfolding tk by (simp only: algebra_simps)
    finally show ?thesis using ih g2 sw by auto
  qed
qed

lemma sub_digits:
  assumes "S \<noteq> []" "length S \<le> length g" "list_all digit g" "list_all digit S" "fv S \<le> fv g" "\<forall>j < h. S ! j = 0"
  shows "list_all digit (sub_words (length S) h g S)" "fv (sub_words (length S) h g S) = fv g - fv S"
proof -
  let ?n = "length S" and ?L = "length g"
  define r where "r = sub_words ?n h g S"
  have g: "g \<noteq> []" using assms(1,2) by auto
  have split: "nv ds = nv (take ?n ds) * Kr ^ (length ds - ?n) + nv (drop ?n ds)" for ds
    using nv_append [of "take ?n ds" "drop ?n ds"] by simp
  have pad: "(of_int (nv S * Kr ^ (?L - ?n)) :: rat) = fv S * of_int Kr ^ (?L - 1)" by (rule fv_nv_pad [OF assms(1,2)])
  have "(of_int (nv S * Kr ^ (?L - ?n)) :: rat) \<le> of_int (nv g)"
    unfolding pad fv_nv [OF g, symmetric] by (intro mult_right_mono assms) simp
  then have "nv S * Kr ^ (?L - ?n) \<le> nv g" by (simp only: of_int_le_iff)
  also have "\<dots> < (nv (take ?n g) + 1) * Kr ^ (?L - ?n)"
    using split [of g] nv_bounds [of "drop ?n g"] assms(3) by (auto simp: distrib_right list_all_iff dest: in_set_dropD)
  finally have "nv S < nv (take ?n g) + 1" by (simp add: mult_less_cancel_right)
  then have r: "length r = ?L" "list_all digit r" "nv (take ?n r) = nv (take ?n g) - nv S" "\<forall>j \<ge> ?n. r ! j = g ! j"
    using sub_words_result [OF assms(2) le_refl assms(3,4) _ assms(6)] by (simp_all add: r_def)
  have "drop ?n r = drop ?n g" using r(1,4) by (intro nth_equalityI) simp_all
  then have "nv r = nv g - nv S * Kr ^ (?L - ?n)"
    using split [of r] split [of g] r(1,3) by (simp add: left_diff_distrib)
  then have "(of_int (nv r) :: rat) = of_int (nv g) - of_int (nv S * Kr ^ (?L - ?n))" by simp
  moreover have "r \<noteq> []" using r(1) g by auto
  ultimately have "fv r * of_int Kr ^ (?L - 1) = (fv g - fv S) * of_int Kr ^ (?L - 1)"
    using fv_nv [of r] fv_nv [OF g] pad r(1) by (simp add: left_diff_distrib)
  then have "fv r = fv g - fv S" by (rule mult_right_cancel [THEN iffD1, rotated]) simp
  then show "list_all digit (sub_words ?n h g S)" "fv (sub_words ?n h g S) = fv g - fv S" using r(2) by (simp_all add: r_def)
qed

lemma less_words_cmp: "d = (length xs < length ys) \<Longrightarrow> less_words d xs ys \<longleftrightarrow> cmp_digits 1 xs ys < 0"
  by (induction xs ys rule: list_induct2') (auto simp: by_sign_def)

lemma less_words_result:
  assumes "norm_digits xs" "norm_digits ys"
  shows "less_words (length xs < length ys) xs ys \<longleftrightarrow> fv xs < fv ys"
  using assms cmp_digits_result [of xs ys 1] by (auto simp: less_words_cmp norm_digits_def by_sign_def)

lemma unlead_result:
  "unlead i ds = (i', ds') \<Longrightarrow> fv ds' * of_int Kr powi i' = fv ds * of_int Kr powi i \<and>
    (ds' = [] \<longrightarrow> fv ds = 0) \<and> (ds' \<noteq> [] \<longrightarrow> hd ds' \<noteq> 0 \<and> last ds' = last ds) \<and> set ds' \<subseteq> set ds"
proof (induction i ds rule: unlead.induct)
  case (1 i d ds)
  have "of_int Kr powi i = of_int Kr * (of_int Kr powi (i - 1) :: rat)" by (simp add: power_int_diff)
  then show ?case using 1 by (auto split: if_splits)
qed simp

lemma fv_zeros_right: "fv (ds @ replicate k 0) = fv ds"
  by (induction ds) (simp_all add: fv_zeros [of k "[]", simplified])

lemma shifted_below: "0 < gap \<Longrightarrow> gap \<le> limit \<Longrightarrow> list_all digit ds \<Longrightarrow> norm_digits es \<Longrightarrow> fv (shift_right gap limit ds) < fv es"
proof -
  assume a: "0 < gap" "gap \<le> limit" "list_all digit ds" "norm_digits es"
  have "fv ds < of_int Kr ^ 1" using fv_bounds [OF a(3)] by simp
  also have "\<dots> \<le> of_int Kr ^ nat gap" using a(1) by (intro power_increasing) simp_all
  finally have "fv (shift_right gap limit ds) < 1" using a(2) by (simp add: shift_right_def fv_zeros)
  then show ?thesis using fv_one [OF a(4)] by linarith
qed

text \<open>The digits of a difference, from the larger digits \<open>g\<close> and the smaller \<open>S\<close>\<close>

lemma difference_digits:
  assumes "S \<noteq> []" "g \<noteq> []" "list_all digit g" "list_all digit S" "fv S \<le> fv g" "\<forall>j < h. S ! j = 0"
    "unlead i (strip (sub_words (length S) h (g @ replicate (length S - length g) 0) S)) = (i', ds)"
  shows "fv ds * of_int Kr powi i' = (fv g - fv S) * of_int Kr powi i" "ds = [] \<longrightarrow> fv g = fv S" "ds \<noteq> [] \<longrightarrow> norm_digits ds"
proof -
  let ?g = "g @ replicate (length S - length g) 0"
  have z: "list_all digit ?g" using assms(3) by (auto simp: list_all_iff digit_def)
  have l: "length S \<le> length ?g" by simp
  have f: "fv S \<le> fv ?g" using assms(5) by (simp add: fv_zeros_right)
  note s = sub_digits [OF assms(1) l z assms(4) f assms(6), unfolded fv_zeros_right]
  note u = unlead_result [OF assms(7), unfolded strip_facts(1) s(2)]
  show "fv ds * of_int Kr powi i' = (fv g - fv S) * of_int Kr powi i" "ds = [] \<longrightarrow> fv g = fv S" using u by simp_all
  have "ds \<noteq> [] \<Longrightarrow> strip (sub_words (length S) h ?g S) \<noteq> []" using u by auto
  then show "ds \<noteq> [] \<longrightarrow> norm_digits ds"
    using u strip_facts(2,3) [of "sub_words (length S) h ?g S"] s(1) by (auto simp: norm_digits_def list_all_iff)
qed

lemma XB_value:
  assumes "d_s e \<in> {1, - 1}" "d_s t = d_s e" "norm_digits (d_d e)" "norm_digits (d_d t)" "near precision e t" "1 \<le> precision"
  obtains r where "XB kn precision e t = rounded kn precision r" "valid r" "val r = val e - val t"
proof -
  define gap where "gap = d_e e - d_e t"
  define limit where "limit = (\<lambda>y. max ((precision + qn - 1) div qn) y + 2)"
  define g where "g = (if gap < 0 then shift_right (- gap) (limit (int (length (d_d t)))) (d_d e) else d_d e)"
  define S where "S = (if gap > 0 then shift_right gap (limit (int (length (d_d e)))) (d_d t) else d_d t)"
  define h where "h = (if gap < 0 then min (- gap) (limit (int (length (d_d t)))) else min gap (limit (int (length (d_d e)))))"
  define i where "i = (if gap > 0 then d_e e else d_e t)"
  define O1 where "O1 = (if gap \<noteq> 0 then gap < 0 else less_words (length g < length S) g S)"
  define g1 S1 where "g1 = (if O1 then S else g)" and "S1 = (if O1 then g else S)"
  obtain i1 g4 where u: "unlead i (strip (sub_words (length S1) (nat h) (g1 @ replicate (length S1 - length g1) 0) S1)) = (i1, g4)"
    by fastforce
  define r where "r = (if g4 \<noteq> [] then \<lparr>d_s = (if O1 then - d_s t else d_s t), d_e = i1, d_d = g4\<rparr> else zero_dec)"
  have lim: "\<bar>gap\<bar> \<le> limit y" for y using assms(5) by (simp add: near_def gap_def limit_def)
  have lims: "- gap \<le> limit y" "gap \<le> limit y" for y using lim [of y] by linarith+
  have n: "d_d e \<noteq> []" "d_d t \<noteq> []" "list_all digit (d_d e)" "list_all digit (d_d t)" using assms(3,4) by (auto simp: norm_digits_def)
  have g: "fv g * of_int Kr powi i = mag e" "list_all digit g" "g \<noteq> []"
    using shift_right_facts(1) [OF _ lims(1) n(3), where e = "d_e e"] shift_right_facts(2,3) [OF _ lims(1) n(3)] n(1,3)
    by (auto simp: g_def i_def mag_def gap_def)
  have b: "fv S * of_int Kr powi i = mag t" "list_all digit S" "S \<noteq> []"
    using shift_right_facts(1) [OF _ lims(2) n(4), where e = "d_e t"] shift_right_facts(2,3) [OF _ lims(2) n(4)] n(2,4)
    by (auto simp: S_def i_def mag_def gap_def)
  have o: "O1 \<longleftrightarrow> fv g < fv S"
  proof (cases "gap = 0")
    case True
    then show ?thesis using less_words_result [OF assms(3,4)] by (simp add: O1_def g_def S_def)
  next
    case False
    then consider "gap < 0" | "gap > 0" by linarith
    then show ?thesis
    proof cases
      case 1
      then show ?thesis using shifted_below [OF _ lims(1) n(3) assms(4)] by (simp add: O1_def g_def S_def)
    next
      case 2
      then have "fv S < fv g" using shifted_below [OF _ lims(2) n(4) assms(3)] by (simp add: g_def S_def)
      then show ?thesis using 2 by (simp add: O1_def)
    qed
  qed
  have z: "\<forall>j < nat h. S1 ! j = 0"
    using shift_right_facts(4) [OF _ lims(1) n(3)] shift_right_facts(4) [OF _ lims(2) n(4)] lims
    by (auto simp: S1_def O1_def h_def g_def S_def min_absorb1)
  have "g1 \<noteq> []" "S1 \<noteq> []" "list_all digit g1" "list_all digit S1" "fv S1 \<le> fv g1"
    using g b o by (auto simp: g1_def S1_def)
  note d = difference_digits [OF this(2,1,3,4,5) z u]
  have eq: "XB kn precision e t = rounded kn precision r"
    using assms(1,2) rounded_zero [OF assms(6)] u unfolding XB_def r_def g1_def S1_def O1_def h_def g_def S_def i_def gap_def limit_def
    by (auto simp: Let_def)
  have "valid r" using d(3) assms(1,2) by (auto simp: valid_def r_def)
  moreover have "val r = val e - val t"
  proof -
    have m: "fv g4 * of_int Kr powi i1 = (if O1 then mag t - mag e else mag e - mag t)"
      using d(1) g(1) b(1) by (simp add: g1_def S1_def left_diff_distrib split: if_splits)
    show ?thesis
    proof (cases "g4 = []")
      case True
      then have "mag e = mag t" using m by (simp split: if_splits)
      then show ?thesis using True assms(2) by (simp add: r_def val_mag [of e] val_mag [of t])
    next
      case False
      then have "val r = of_int (d_s r) * (if O1 then mag t - mag e else mag e - mag t)" using m by (simp add: val_def r_def)
      then show ?thesis using False assms(2) by (simp add: r_def val_mag [of e] val_mag [of t] algebra_simps split: if_splits)
    qed
  qed
  ultimately show ?thesis using that eq by blast
qed

section \<open>Cutting off\<close>








section \<open>The operations\<close>

lemma dec_neg_value: "val (dec_neg x) = - val x" "valid x \<Longrightarrow> valid (dec_neg x)" "near p x (dec_neg y) = near p x y" "dec_neg (dec_neg x) = x"
  by (auto simp: val_def dec_neg_def valid_def zero_dec_def near_def)

lemma plus_value:
  assumes "valid x" "valid y" "near p x y" "1 \<le> p"
  obtains r where "plus_dec kn p x y = rounded kn p r" "valid r" "val r = val x + val y"
proof (cases "d_s x = 0 \<or> d_s y = 0")
  case True
  then have "plus_dec kn p x y = rounded kn p (if d_s y \<noteq> 0 then y else x)"
    by (auto simp: plus_dec_def GB_def XB_def dec_neg_def)
  moreover have "val (if d_s y \<noteq> 0 then y else x) = val x + val y" using True by (auto simp: val_def)
  ultimately show ?thesis using that [of "if d_s y \<noteq> 0 then y else x"] assms(1,2) by simp
next
  case False
  then have n: "norm_digits (d_d x)" "norm_digits (d_d y)" "d_s x \<in> {1, - 1}" "d_s y \<in> {1, - 1}"
    using assms(1,2) by (auto simp: valid_def zero_dec_def)
  show ?thesis
  proof (cases "d_s x = d_s y")
    case True
    obtain r where "GB kn p x y = rounded kn p r" "valid r" "val r = val x + val y"
      using GB_value [OF n(3) True [symmetric] n(1,2) assms(3)] .
    then show ?thesis using that True by (simp add: plus_dec_def)
  next
    case False
    obtain r where "XB kn p x (dec_neg y) = rounded kn p r" "valid r" "val r = val x - val (dec_neg y)"
    proof (rule XB_value [OF n(3) _ n(1) _ _ assms(4)])
      show "d_s (dec_neg y) = d_s x" using n(3,4) False by (auto simp: dec_neg_def)
      show "norm_digits (d_d (dec_neg y))" using n(2) by (simp add: dec_neg_def)
      show "near p x (dec_neg y)" using assms(3) by (simp only: dec_neg_value(3))
    qed
    then show ?thesis using that False by (simp add: plus_dec_def dec_neg_value(1) flip: dec_neg_def)
  qed
qed

text \<open>A difference is the sum with the negated number.\<close>

lemma minus_plus:
  assumes "valid x" "valid y" "d_s x \<noteq> 0"
  shows "minus_dec kn p x y = plus_dec kn p x (dec_neg y)"
  using assms val_sign [of x] val_sign [of y]
  by (auto simp: minus_dec_def plus_dec_def dec_neg_def GB_def XB_def)

lemma minus_value:
  assumes "valid x" "valid y" "near p x y" "1 \<le> p"
  obtains r where "minus_dec kn p x y = rounded kn p r" "valid r" "val r = val x - val y"
proof (cases "d_s x = 0")
  case False
  obtain r where "plus_dec kn p x (dec_neg y) = rounded kn p r" "valid r" "val r = val x + val (dec_neg y)"
    using plus_value [OF assms(1) dec_neg_value(2) [OF assms(2)] _ assms(4)] assms(3) dec_neg_value(3) by blast
  then show ?thesis using that minus_plus [OF assms(1,2) False] by (simp add: dec_neg_value(1))
next
  case True
  then have x: "x = zero_dec" using assms(1) by (auto simp: valid_def)
  define r where "r = (if d_s y = 0 then x else dec_neg y)"
  have "minus_dec kn p x y = rounded kn p r"
    using True by (auto simp: r_def minus_dec_def GB_def XB_def dec_neg_def)
  moreover have "val r = val x - val y" using x by (simp add: r_def dec_neg_value(1) val_def [of y])
  ultimately show ?thesis using that [of r] assms(1,2) dec_neg_value(2) by (simp add: r_def)
qed

section \<open>Properties\<close>

text \<open>
  C30: Comparing decimals is comparing the rational numbers they stand for: \<open>cmp\<close> is the sign of the difference, and the
  five tests on top of it (\<open>eq\<close>, \<open>gt\<close>, \<open>gte\<close>, \<open>lt\<close>, \<open>lte\<close>) are the order of the values.
\<close>

theorem decimal_order:
  assumes "valid x" "valid y"
  shows "of_int (cmp x y) = sgn (val x - val y) \<and> (dec_eq x y \<longleftrightarrow> val x = val y) \<and> (dec_gt x y \<longleftrightarrow> val x > val y) \<and>
    (dec_gte x y \<longleftrightarrow> val x \<ge> val y) \<and> (dec_lt x y \<longleftrightarrow> val x < val y) \<and> (dec_lte x y \<longleftrightarrow> val x \<le> val y)"
proof -
  have c: "(of_int (cmp x y) :: rat) = sgn (val x - val y)" by (rule cmp_value [OF assms])
  then consider "cmp x y = 1" "val x > val y" | "cmp x y = 0" "val x = val y" | "cmp x y = - 1" "val x < val y"
    by (cases "val x" "val y" rule: linorder_cases) (auto simp: sgn_if of_int_eq_1_iff dest: sym)
  then show ?thesis using c by cases (simp_all add: dec_eq_def dec_gt_def dec_gte_def dec_lt_def dec_lte_def)
qed

lemma decimal_order_witness:
  "dec_gt \<lparr>d_s = 1, d_e = 0, d_d = [12, 5000000]\<rparr> \<lparr>d_s = - 1, d_e = 1, d_d = [3]\<rparr> \<and>
    val \<lparr>d_s = - 1, d_e = 1, d_d = [3]\<rparr> < val \<lparr>d_s = 1, d_e = 0, d_d = [12, 5000000]\<rparr>"
  using decimal_order [of "\<lparr>d_s = 1, d_e = 0, d_d = [12, 5000000]\<rparr>" "\<lparr>d_s = - 1, d_e = 1, d_d = [3]\<rparr>"]
  by (simp add: valid_def norm_digits_def digit_def Kr_def dec_gt_def cmp_def)

text \<open>
  C29: Sums, differences and products of decimals are exact up to one rounding: each is the rounding to the constructor's
  precision, when the library's switch asks for it, of a decimal in normal form whose value is the exact result. For sums and
  differences the gap between the two exponents must be one that the precision has room for.
\<close>

theorem decimal_arithmetic:
  assumes "valid x" "valid y" "near p x y" "1 \<le> p"
  shows "\<exists>a b c. plus_dec kn p x y = rounded kn p a \<and> valid a \<and> val a = val x + val y \<and>
    minus_dec kn p x y = rounded kn p b \<and> valid b \<and> val b = val x - val y \<and>
    times kn p x y = rounded kn p c \<and> valid c \<and> val c = val x * val y"
proof -
  obtain a where "plus_dec kn p x y = rounded kn p a" "valid a" "val a = val x + val y" by (rule plus_value [OF assms])
  moreover obtain b where "minus_dec kn p x y = rounded kn p b" "valid b" "val b = val x - val y" by (rule minus_value [OF assms])
  moreover obtain c where "times kn p x y = rounded kn p c" "valid c" "val c = val x * val y" by (rule times_value [OF assms(1,2,4)])
  ultimately show ?thesis by blast
qed

lemma decimal_arithmetic_witness:
  "\<exists>a b c. plus_dec True 20 \<lparr>d_s = 1, d_e = 0, d_d = [12, 5000000]\<rparr> \<lparr>d_s = - 1, d_e = 1, d_d = [3]\<rparr> = rounded True 20 a \<and> valid a \<and>
    val a = val \<lparr>d_s = 1, d_e = 0, d_d = [12, 5000000]\<rparr> + val \<lparr>d_s = - 1, d_e = 1, d_d = [3]\<rparr> \<and>
    minus_dec True 20 \<lparr>d_s = 1, d_e = 0, d_d = [12, 5000000]\<rparr> \<lparr>d_s = - 1, d_e = 1, d_d = [3]\<rparr> = rounded True 20 b \<and> valid b \<and>
    val b = val \<lparr>d_s = 1, d_e = 0, d_d = [12, 5000000]\<rparr> - val \<lparr>d_s = - 1, d_e = 1, d_d = [3]\<rparr> \<and>
    times True 20 \<lparr>d_s = 1, d_e = 0, d_d = [12, 5000000]\<rparr> \<lparr>d_s = - 1, d_e = 1, d_d = [3]\<rparr> = rounded True 20 c \<and> valid c \<and>
    val c = val \<lparr>d_s = 1, d_e = 0, d_d = [12, 5000000]\<rparr> * val \<lparr>d_s = - 1, d_e = 1, d_d = [3]\<rparr>"
  by (rule decimal_arithmetic) (simp_all add: valid_def norm_digits_def digit_def Kr_def near_def qn_def)



end
